(* ===== verification/Prelude.thy ===== *)
theory Prelude
  imports Main "HOL-Library.Char_ord" "HOL-Library.List_Lexorder" "HOL-Library.Multiset"
begin

text \<open>
  Shared vocabulary of the development: the theorem collections the component proofs draw on, the
  outcome type of Go code that may panic, Go's 64-bit integer arithmetic, the generic lemmas on
  lists and options used by several components, and two interfaces: invariants of state machines, and inputs whose
  changes are watched.
\<close>

named_theorems go_simps \<open>unfolding rules for Go outcomes and 64-bit arithmetic\<close>
named_theorems string_simps \<open>rules for the byte-string operations of the Go standard library\<close>
named_theorems cond_simps \<open>rules for status-condition lists seen through their lookup\<close>
named_theorems job_simps \<open>unfolding rules for the Job predicates\<close>

section \<open>Outcomes of Go code\<close>

text \<open>
  A Go function either returns or panics (nil dereference, out-of-range index). Functions that
  cannot panic are modelled as plain HOL functions.
\<close>

datatype 'a go = Ret 'a | Panic

fun go_bind :: "'a go \<Rightarrow> ('a \<Rightarrow> 'b go) \<Rightarrow> 'b go" where
  "go_bind (Ret a) f = f a"
| "go_bind Panic f = Panic"

fun returns :: "'a go \<Rightarrow> bool" where
  "returns (Ret a) = True"
| "returns Panic = False"

text \<open>Dereferencing a pointer that may be nil.\<close>

fun deref :: "'a option \<Rightarrow> 'a go" where
  "deref (Some a) = Ret a"
| "deref None = Panic"

lemma returns_iff: "returns r \<longleftrightarrow> (\<exists>a. r = Ret a)"
  by (cases r) auto

lemma go_bind_Ret_iff [go_simps]:
  "go_bind r f = Ret b \<longleftrightarrow> (\<exists>a. r = Ret a \<and> f a = Ret b)"
  by (cases r) auto

lemma returns_bind [go_simps]:
  "returns (go_bind r f) \<longleftrightarrow> (\<exists>a. r = Ret a \<and> returns (f a))"
  by (cases r) auto

lemma deref_Ret_iff [go_simps]: "deref p = Ret a \<longleftrightarrow> p = Some a"
  by (cases p) auto

lemma deref_Panic_iff [go_simps]: "deref p = Panic \<longleftrightarrow> p = None"
  by (cases p) auto

section \<open>64-bit integers\<close>

definition min_int64 :: int where
  "min_int64 = - (2 ^ 63)"

definition max_int64 :: int where
  "max_int64 = 2 ^ 63 - 1"

definition in_int64 :: "int \<Rightarrow> bool" where
  "in_int64 x \<longleftrightarrow> min_int64 \<le> x \<and> x \<le> max_int64"

text \<open>Two's-complement wrap-around, the result of an overflowing \<^verbatim>\<open>int64\<close> operation.\<close>

definition wrap64 :: "int \<Rightarrow> int" where
  "wrap64 x = (x + 2 ^ 63) mod 2 ^ 64 - 2 ^ 63"

text \<open>Saturation, the rule of \<^verbatim>\<open>time.Time.Sub\<close>.\<close>

definition sat64 :: "int \<Rightarrow> int" where
  "sat64 x = (if x < min_int64 then min_int64 else if x > max_int64 then max_int64 else x)"

text \<open>Go's integer division truncates towards zero.\<close>

definition go_div :: "int \<Rightarrow> int \<Rightarrow> int" where
  "go_div a b = sgn a * sgn b * (\<bar>a\<bar> div \<bar>b\<bar>)"

definition go_mod :: "int \<Rightarrow> int \<Rightarrow> int" where
  "go_mod a b = a - b * go_div a b"

lemmas int64_defs [go_simps] = in_int64_def min_int64_def max_int64_def

lemma in_int64_wrap64: "in_int64 (wrap64 x)"
proof -
  have "0 \<le> (x + 2 ^ 63) mod 2 ^ 64" and "(x + 2 ^ 63) mod 2 ^ 64 < (2 ^ 64 :: int)"
    by simp_all
  then show ?thesis
    by (simp add: wrap64_def int64_defs)
qed

lemma wrap64_id: "in_int64 x \<Longrightarrow> wrap64 x = x"
  by (simp add: wrap64_def int64_defs)

lemma wrap64_wrap64_add: "wrap64 (wrap64 x + y) = wrap64 (x + y)"
proof -
  have "wrap64 x + y + 2 ^ 63 = (x + 2 ^ 63) mod 2 ^ 64 + y"
    by (simp add: wrap64_def)
  then have "(wrap64 x + y + 2 ^ 63) mod 2 ^ 64 = ((x + 2 ^ 63) + y) mod 2 ^ 64"
    by (simp only: mod_add_left_eq)
  then show ?thesis
    by (simp add: wrap64_def algebra_simps)
qed

lemma in_int64_sat64: "in_int64 (sat64 x)"
  by (simp add: sat64_def int64_defs)

lemma sat64_id: "in_int64 x \<Longrightarrow> sat64 x = x"
  by (simp add: sat64_def in_int64_def)

lemma sat64_mono: "x \<le> y \<Longrightarrow> sat64 x \<le> sat64 y"
  by (simp add: sat64_def min_int64_def max_int64_def)

lemma sat64_le_iff: "in_int64 d \<Longrightarrow> d < max_int64 \<Longrightarrow> sat64 x \<le> d \<longleftrightarrow> x \<le> d"
  by (auto simp: sat64_def int64_defs)

lemma le_sat64_iff: "in_int64 d \<Longrightarrow> min_int64 < d \<Longrightarrow> d \<le> sat64 x \<longleftrightarrow> d \<le> x"
  by (auto simp: sat64_def int64_defs)

lemma go_div_nonneg: "0 \<le> a \<Longrightarrow> 0 < b \<Longrightarrow> go_div a b = a div b"
  by (cases "a = 0") (simp_all add: go_div_def)

section \<open>Lists and options\<close>

lemma find_Some_member: "List.find P xs = Some x \<Longrightarrow> x \<in> set xs \<and> P x"
  by (induction xs) (auto split: if_splits)

lemma find_None_all: "List.find P xs = None \<longleftrightarrow> (\<forall>x \<in> set xs. \<not> P x)"
  by (induction xs) auto

lemma find_eq_None_cong: "(\<And>x. x \<in> set xs \<Longrightarrow> \<not> P x) \<Longrightarrow> List.find P xs = None"
  by (simp add: find_None_all)

text \<open>A left fold that keeps the element with the larger key returns a maximum.\<close>

lemma foldl_keep_max:
  fixes f :: "'a \<Rightarrow> int"
  assumes "r = foldl (\<lambda>b x. if f b < f x then x else b) a xs"
  shows "r \<in> insert a (set xs) \<and> (\<forall>x \<in> insert a (set xs). f x \<le> f r)"
  using assms
proof (induction xs arbitrary: a)
  case (Cons y ys)
  then show ?case
    by (cases "f a < f y") force+
qed simp

lemma Min_keep:
  fixes a t :: int
  assumes "finite S"
  shows "Min (insert (if t < a then t else a) S) = Min (insert a (insert t S))"
  using assms by (cases "S = {}") (auto simp: min_def)

lemma Max_keep:
  fixes a t :: int
  assumes "finite S"
  shows "Max (insert (if a < t then t else a) S) = Max (insert a (insert t S))"
  using assms by (cases "S = {}") (auto simp: max_def)

text \<open>Lookup in a Go map given by its entries; a nil map has none.\<close>

type_synonym gomap = "(string \<times> string) list"

definition map_get :: "gomap \<Rightarrow> string \<Rightarrow> string" where
  "map_get m k = (case map_of m k of Some v \<Rightarrow> v | None \<Rightarrow> [])"

section \<open>State machines\<close>

inductive reached :: "('s \<Rightarrow> bool) \<Rightarrow> ('s \<Rightarrow> 's \<Rightarrow> bool) \<Rightarrow> 's \<Rightarrow> bool" for start step where
  begins: "start s \<Longrightarrow> reached start step s"
| moves: "reached start step s \<Longrightarrow> step s s' \<Longrightarrow> reached start step s'"

text \<open>
  An inductive invariant holds in every reached state; while it is shown to be kept, the invariants already known to
  hold in reached states may be used.
\<close>

locale machine_invariant =
  fixes start :: "'s \<Rightarrow> bool" and step :: "'s \<Rightarrow> 's \<Rightarrow> bool" and inv :: "'s \<Rightarrow> bool"
  assumes established: "start s \<Longrightarrow> inv s"
    and kept: "reached start step s \<Longrightarrow> inv s \<Longrightarrow> step s s' \<Longrightarrow> inv s'"
begin

lemma holds: "reached start step s \<Longrightarrow> inv s"
  by (induction rule: reached.induct) (auto intro: established kept)

lemma holds_after:
  assumes "reached start step s" "step\<^sup>*\<^sup>* s s'"
  shows "inv s'"
proof -
  from assms(2) have "reached start step s'"
    by (induction rule: rtranclp_induct) (auto intro: assms(1) moves)
  then show ?thesis by (rule holds)
qed

end

section \<open>Watched inputs\<close>

text \<open>
  A store of objects that is read while computing a result, and the keys whose changes wake the computation: a
  change that wakes nobody leaves the result alone. It follows that any number of such changes does.
\<close>

locale watched_store =
  fixes run :: "('k \<Rightarrow> 'v) \<Rightarrow> 'r" and woken :: "'k \<Rightarrow> bool"
  assumes unwoken: "\<not> woken k \<Longrightarrow> run (g(k := v)) = run g"
begin

lemma silent_updates:
  assumes "\<forall>(k, v) \<in> set ups. \<not> woken k"
  shows "run (foldl (\<lambda>g (k, v). g(k := v)) g ups) = run g"
  using assms by (induction ups arbitrary: g) (auto simp: unwoken)

lemma silent_change:
  assumes "finite {k. g k \<noteq> h k}" and "run g \<noteq> run h"
  shows "\<exists>k. g k \<noteq> h k \<and> woken k"
proof (rule ccontr)
  assume silent: "\<not> ?thesis"
  obtain ks where ks: "set ks = {k. g k \<noteq> h k}"
    using finite_list [OF assms(1)] by blast
  have "foldl (\<lambda>g (k, v). g(k := v)) f (map (\<lambda>k. (k, h k)) ks) = (\<lambda>k. if k \<in> set ks then h k else f k)" for f
    by (induction ks arbitrary: f) auto
  then have "foldl (\<lambda>g (k, v). g(k := v)) g (map (\<lambda>k. (k, h k)) ks) = h"
    using ks by auto
  moreover have "\<forall>(k, v) \<in> set (map (\<lambda>k. (k, h k)) ks). \<not> woken k"
    using silent ks by auto
  ultimately show False
    using silent_updates [of "map (\<lambda>k. (k, h k)) ks" g] assms(2) by simp
qed

end

end
