(* ===== verification/Go_Strings.thy ===== *)
theory Go_Strings
  imports Prelude
begin

text \<open>
  The byte-string operations of the Go standard library that the program uses
  (packages \<^verbatim>\<open>strings\<close>, \<^verbatim>\<open>strconv\<close> and the \<^verbatim>\<open>%d\<close> verb of \<^verbatim>\<open>fmt\<close>). A Go string is a sequence of
  bytes, modelled as a HOL \<^typ>\<open>string\<close>; \<^verbatim>\<open>len\<close> and slicing count bytes.
\<close>

section \<open>Prefixes, suffixes, searching\<close>

definition HasPrefix :: "string \<Rightarrow> string \<Rightarrow> bool" where
  "HasPrefix s p \<longleftrightarrow> take (length p) s = p"

definition HasSuffix :: "string \<Rightarrow> string \<Rightarrow> bool" where
  "HasSuffix s p \<longleftrightarrow> length p \<le> length s \<and> drop (length s - length p) s = p"

definition TrimPrefix :: "string \<Rightarrow> string \<Rightarrow> string" where
  "TrimPrefix s p = (if HasPrefix s p then drop (length p) s else s)"

definition TrimSuffix :: "string \<Rightarrow> string \<Rightarrow> string" where
  "TrimSuffix s p = (if HasSuffix s p then take (length s - length p) s else s)"

fun IndexByte :: "string \<Rightarrow> char \<Rightarrow> nat option" where
  "IndexByte [] c = None"
| "IndexByte (x # xs) c = (if x = c then Some 0 else map_option Suc (IndexByte xs c))"

fun LastIndexByte :: "string \<Rightarrow> char \<Rightarrow> nat option" where
  "LastIndexByte [] c = None"
| "LastIndexByte (x # xs) c =
     (case LastIndexByte xs c of
        Some i \<Rightarrow> Some (Suc i)
      | None \<Rightarrow> if x = c then Some 0 else None)"

fun Contains :: "string \<Rightarrow> string \<Rightarrow> bool" where
  "Contains [] p \<longleftrightarrow> p = []"
| "Contains (x # xs) p \<longleftrightarrow> HasPrefix (x # xs) p \<or> Contains xs p"

fun Join :: "string list \<Rightarrow> string \<Rightarrow> string" where
  "Join [] sep = []"
| "Join [s] sep = s"
| "Join (s # t # ts) sep = s @ sep @ Join (t # ts) sep"

lemma HasPrefix_append [string_simps]: "HasPrefix (p @ s) p"
  by (simp add: HasPrefix_def)

lemma HasPrefix_iff: "HasPrefix s p \<longleftrightarrow> (\<exists>r. s = p @ r)"
  by (metis HasPrefix_def append_eq_conv_conj append_take_drop_id)

lemma TrimPrefix_append [string_simps]: "TrimPrefix (p @ s) p = s"
  by (simp add: TrimPrefix_def string_simps)

lemma HasSuffix_append [string_simps]: "HasSuffix (s @ p) p"
  by (simp add: HasSuffix_def)

lemma HasSuffix_iff: "HasSuffix s p \<longleftrightarrow> (\<exists>r. s = r @ p)"
proof
  assume "HasSuffix s p"
  then have "s = take (length s - length p) s @ p"
    by (metis HasSuffix_def append_take_drop_id)
  then show "\<exists>r. s = r @ p" ..
qed (auto simp: string_simps)

lemma TrimSuffix_append [string_simps]: "TrimSuffix (s @ p) p = s"
  by (simp add: TrimSuffix_def string_simps)

lemma IndexByte_Some:
  "IndexByte s c = Some i \<Longrightarrow> i < length s \<and> s ! i = c \<and> c \<notin> set (take i s)"
  by (induction s arbitrary: i) (auto split: if_splits)

lemma IndexByte_None: "IndexByte s c = None \<longleftrightarrow> c \<notin> set s"
  by (induction s) auto

lemma LastIndexByte_None: "LastIndexByte s c = None \<longleftrightarrow> c \<notin> set s"
  by (induction s) (auto split: option.splits if_splits)

lemma LastIndexByte_Some:
  "LastIndexByte s c = Some i \<Longrightarrow> i < length s \<and> s ! i = c \<and> c \<notin> set (drop (Suc i) s)"
  by (induction s arbitrary: i)
     (auto split: option.splits if_splits simp: LastIndexByte_None)

lemma LastIndexByte_append:
  "c \<notin> set t \<Longrightarrow> LastIndexByte (s @ c # t) c = Some (length s)"
  by (induction s) (simp_all add: LastIndexByte_None [THEN iffD2])

section \<open>Splitting\<close>

text \<open>\<^verbatim>\<open>strings.Split\<close> with a one-byte separator.\<close>

fun Split :: "string \<Rightarrow> char \<Rightarrow> string list" where
  "Split [] c = [[]]"
| "Split (x # xs) c =
     (if x = c then [] # Split xs c
      else case Split xs c of
             [] \<Rightarrow> [[x]]
           | w # ws \<Rightarrow> (x # w) # ws)"

text \<open>\<^verbatim>\<open>strings.SplitN\<close> with a one-byte separator and at most two parts.\<close>

definition SplitN2 :: "string \<Rightarrow> char \<Rightarrow> string list" where
  "SplitN2 s c =
     (case IndexByte s c of None \<Rightarrow> [s] | Some i \<Rightarrow> [take i s, drop (Suc i) s])"

lemma Split_nonempty [simp]: "Split s c \<noteq> []"
  by (induction s) (auto split: list.splits)

lemma Split_no_sep: "c \<notin> set s \<Longrightarrow> Split s c = [s]"
  by (induction s) auto

lemma Split_append_sep: "c \<notin> set s \<Longrightarrow> Split (s @ c # t) c = s # Split t c"
  by (induction s) auto

lemma Split_parts_no_sep: "w \<in> set (Split s c) \<Longrightarrow> c \<notin> set w"
  by (induction s arbitrary: w) (auto split: if_splits list.splits)

lemma Join_Split: "Join (Split s c) [c] = s"
proof (induction s)
  case (Cons x xs)
  obtain w ws where "Split xs c = w # ws"
    by (meson Split_nonempty list.exhaust)
  with Cons.IH show ?case
    by (cases ws) auto
qed simp

lemma SplitN2_pair: "c \<notin> set k \<Longrightarrow> SplitN2 (k @ c # v) c = [k, v]"
proof -
  assume "c \<notin> set k"
  then have "IndexByte (k @ c # v) c = Some (length k)"
    by (induction k) auto
  then show ?thesis
    by (simp add: SplitN2_def)
qed

section \<open>White space\<close>

text \<open>
  \<^verbatim>\<open>unicode.IsSpace\<close> on UTF-8 text: the six ASCII bytes and the encodings of the other white-space
  runes. No encoding starts inside another rune, so scanning bytes finds the same spaces as
  scanning runes.
\<close>

definition ascii_spaces :: string where
  "ascii_spaces = [CHR 0x09, CHR 0x0A, CHR 0x0B, CHR 0x0C, CHR 0x0D, CHR 0x20]"

definition wide_spaces :: "string list" where
  "wide_spaces =
     [[CHR 0xC2, CHR 0x85], [CHR 0xC2, CHR 0xA0], [CHR 0xE1, CHR 0x9A, CHR 0x80]] @
     map (\<lambda>b. [CHR 0xE2, CHR 0x80, b])
       [CHR 0x80, CHR 0x81, CHR 0x82, CHR 0x83, CHR 0x84, CHR 0x85, CHR 0x86, CHR 0x87, CHR 0x88,
        CHR 0x89, CHR 0x8A, CHR 0xA8, CHR 0xA9, CHR 0xAF] @
     [[CHR 0xE2, CHR 0x81, CHR 0x9F], [CHR 0xE3, CHR 0x80, CHR 0x80]]"

definition space_units :: "string list" where
  "space_units = map (\<lambda>c. [c]) ascii_spaces @ wide_spaces"

definition width_of :: "string list \<Rightarrow> string \<Rightarrow> nat" where
  "width_of us s = (case List.find (HasPrefix s) us of None \<Rightarrow> 0 | Some u \<Rightarrow> length u)"

lemma width_of_le: "width_of us s \<le> length s"
proof (cases "List.find (HasPrefix s) us")
  case (Some u)
  then have "HasPrefix s u"
    using find_Some_member by fastforce
  then show ?thesis
    using Some by (auto simp: width_of_def HasPrefix_iff)
qed (simp add: width_of_def)

lemma drop_width_less: "width_of us s \<noteq> 0 \<Longrightarrow> length (drop (width_of us s) s) < length s"
  using width_of_le [of us s] by simp

function trim_units :: "string list \<Rightarrow> string \<Rightarrow> string" where
  "trim_units us s =
     (if width_of us s = 0 then s else trim_units us (drop (width_of us s) s))"
  by pat_completeness auto
termination
  by (relation "measure (\<lambda>(us, s). length s)")
     (simp, simp only: in_measure prod.case drop_width_less not_False_eq_True)

declare trim_units.simps [simp del]

definition TrimSpace :: "string \<Rightarrow> string" where
  "TrimSpace s = rev (trim_units (map rev space_units) (rev (trim_units space_units s)))"

text \<open>\<^verbatim>\<open>strings.Fields\<close>: the maximal runs of non-space bytes.\<close>

function fields_from :: "string \<Rightarrow> string \<Rightarrow> string list" where
  "fields_from acc s =
     (if s = [] then (if acc = [] then [] else [rev acc])
      else if width_of space_units s = 0 then fields_from (hd s # acc) (tl s)
      else (if acc = [] then [] else [rev acc]) @
           fields_from [] (drop (width_of space_units s) s))"
  by pat_completeness auto
termination
  by (relation "measure (\<lambda>(acc, s). length s)")
     (simp, simp add: length_greater_0_conv [symmetric] del: length_greater_0_conv,
      simp only: in_measure prod.case drop_width_less not_False_eq_True)

declare fields_from.simps [simp del]

definition Fields :: "string \<Rightarrow> string list" where
  "Fields s = fields_from [] s"

text \<open>Printable ASCII text without blanks is never touched by either operation.\<close>

definition plain_char :: "char \<Rightarrow> bool" where
  "plain_char c \<longleftrightarrow> 0x21 \<le> (of_char c :: int) \<and> (of_char c :: int) < 0x80"

definition plain :: "string \<Rightarrow> bool" where
  "plain s \<longleftrightarrow> list_all plain_char s"

lemma plain_simps [string_simps]:
  "plain []" "plain (c # s) \<longleftrightarrow> plain_char c \<and> plain s"
  "plain (s @ t) \<longleftrightarrow> plain s \<and> plain t"
  by (auto simp: plain_def)

definition starts_blank :: "string \<Rightarrow> bool" where
  "starts_blank u \<longleftrightarrow> u \<noteq> [] \<and> \<not> plain_char (hd u)"

lemma space_units_blank:
  "list_all starts_blank space_units" "list_all starts_blank (map rev space_units)"
  by code_simp+

lemma starts_blank_no_prefix: "starts_blank u \<Longrightarrow> plain_char c \<Longrightarrow> \<not> HasPrefix (c # s) u"
  by (cases u) (auto simp: starts_blank_def HasPrefix_def)

lemma width_of_blank_units:
  "list_all starts_blank us \<Longrightarrow> plain_char c \<Longrightarrow> width_of us (c # s) = 0"
  using find_None_all [of "HasPrefix (c # s)" us] starts_blank_no_prefix
  by (auto simp: width_of_def list_all_iff)

lemmas width_of_plain [string_simps] =
  width_of_blank_units [OF space_units_blank(1)] width_of_blank_units [OF space_units_blank(2)]

lemma width_of_Nil [string_simps]:
  "width_of space_units [] = 0" "width_of (map rev space_units) [] = 0"
  using width_of_le [of _ "[]"] by simp_all

lemma width_of_blank [string_simps]: "width_of space_units (CHR 0x20 # s) = 1"
  by (simp add: width_of_def space_units_def ascii_spaces_def HasPrefix_def)

lemma trim_units_plain [string_simps]:
  "plain_char c \<Longrightarrow> trim_units space_units (c # s) = c # s"
  "plain_char c \<Longrightarrow> trim_units (map rev space_units) (c # s) = c # s"
  "trim_units space_units [] = []" "trim_units (map rev space_units) [] = []"
  by (subst trim_units.simps, simp add: string_simps)+

lemma TrimSpace_plain_ends:
  assumes "plain_char c" "plain_char d"
  shows "TrimSpace (c # s @ [d]) = c # s @ [d]"
  using assms by (simp add: TrimSpace_def string_simps)

lemma fields_from_plain:
  "plain t \<Longrightarrow> fields_from acc (t @ s) = fields_from (rev t @ acc) s"
proof (induction t arbitrary: acc)
  case (Cons c t)
  then have "plain_char c" and "plain t"
    by (simp_all add: string_simps)
  then show ?case
    using Cons.IH by (subst fields_from.simps) (simp add: string_simps)
qed simp

lemma Fields_cons:
  assumes "plain t" "t \<noteq> []"
  shows "Fields (t @ CHR 0x20 # s) = t # Fields s"
  unfolding Fields_def fields_from_plain [OF assms(1)]
  by (subst fields_from.simps) (simp add: string_simps assms)

lemma Fields_single: "plain t \<Longrightarrow> t \<noteq> [] \<Longrightarrow> Fields t = [t]"
  using fields_from_plain [of t "[]" "[]"] by (simp add: Fields_def fields_from.simps)

section \<open>Decimal integers\<close>

definition digit_char :: "int \<Rightarrow> char" where
  "digit_char d = char_of (48 + d)"

definition isDigit :: "char \<Rightarrow> bool" where
  "isDigit c \<longleftrightarrow> 48 \<le> (of_char c :: int) \<and> (of_char c :: int) \<le> 57"

definition digit_val :: "char \<Rightarrow> int" where
  "digit_val c = of_char c - 48"

text \<open>Decimal digits of a non-negative integer.\<close>

function dec_str :: "int \<Rightarrow> string" where
  "dec_str n = (if n < 10 then [digit_char n] else dec_str (n div 10) @ [digit_char (n mod 10)])"
  by pat_completeness auto
termination
  by (relation "measure nat") auto

declare dec_str.simps [simp del]

text \<open>The \<^verbatim>\<open>%d\<close> verb.\<close>

definition itoa :: "int \<Rightarrow> string" where
  "itoa i = (if i < 0 then CHR ''-'' # dec_str (- i) else dec_str i)"

definition digits_val :: "string \<Rightarrow> int" where
  "digits_val s = foldl (\<lambda>n c. 10 * n + digit_val c) 0 s"

text \<open>\<^verbatim>\<open>strconv.ParseInt(s, 10, 64)\<close>: \<^const>\<open>None\<close> where it returns an error.\<close>

definition ParseInt :: "string \<Rightarrow> int option" where
  "ParseInt s =
     (let neg = HasPrefix s ''-'';
          ds = (if HasPrefix s ''-'' \<or> HasPrefix s ''+'' then tl s else s);
          v = (if neg then - digits_val ds else digits_val ds)
      in if ds = [] \<or> \<not> list_all isDigit ds \<or> \<not> in_int64 v then None else Some v)"

lemma of_char_digit_char: "0 \<le> d \<Longrightarrow> d < 10 \<Longrightarrow> (of_char (digit_char d) :: int) = 48 + d"
  by (simp add: digit_char_def)

lemma digit_char_simps [string_simps]:
  assumes "0 \<le> d" "d < 10"
  shows "isDigit (digit_char d)" "digit_val (digit_char d) = d"
  using of_char_digit_char [OF assms] assms by (simp_all add: isDigit_def digit_val_def)

lemma plain_isDigit [string_simps]: "isDigit c \<Longrightarrow> plain_char c"
  by (simp add: isDigit_def plain_char_def)

lemma digits_val_snoc [string_simps]: "digits_val (s @ [c]) = 10 * digits_val s + digit_val c"
  by (simp add: digits_val_def)

lemma digits_val_nonneg: "list_all isDigit s \<Longrightarrow> 0 \<le> digits_val s"
  by (induction s rule: rev_induct)
     (auto simp: digits_val_snoc digits_val_def isDigit_def digit_val_def)

lemma dec_str_digits: "0 \<le> n \<Longrightarrow> list_all isDigit (dec_str n) \<and> dec_str n \<noteq> []"
proof (induction n rule: dec_str.induct)
  case (1 n)
  then show ?case
    by (cases "n < 10") (simp_all add: dec_str.simps [of n] string_simps)
qed

lemma digits_val_dec_str: "0 \<le> n \<Longrightarrow> digits_val (dec_str n) = n"
proof (induction n rule: dec_str.induct)
  case (1 n)
  show ?case
  proof (cases "n < 10")
    case True
    with 1 show ?thesis
      by (simp add: dec_str.simps [of n] digits_val_def string_simps)
  next
    case False
    with 1 show ?thesis
      by (simp add: dec_str.simps [of n] string_simps)
  qed
qed

lemma plain_digits: "list_all isDigit s \<Longrightarrow> plain s"
  by (auto simp: plain_def list_all_iff string_simps)

lemma plain_itoa [string_simps]: "plain (itoa i)"
  using dec_str_digits plain_digits by (simp add: itoa_def string_simps plain_char_def)

lemma itoa_nonempty [simp]: "itoa i \<noteq> []"
  using dec_str_digits by (simp add: itoa_def)

lemma no_sign: "list_all isDigit s \<Longrightarrow> \<not> HasPrefix s ''-'' \<and> \<not> HasPrefix s ''+''"
  by (cases s) (auto simp: HasPrefix_def isDigit_def)

lemma ParseInt_digits:
  assumes "list_all isDigit s" "s \<noteq> []"
  shows "ParseInt s = (if in_int64 (digits_val s) then Some (digits_val s) else None)"
  using assms no_sign [OF assms(1)] by (simp add: ParseInt_def Let_def)

lemma ParseInt_itoa: "in_int64 i \<Longrightarrow> ParseInt (itoa i) = Some i"
proof (cases "i < 0")
  case True
  then have "HasPrefix (itoa i) ''-''"
    by (simp add: itoa_def HasPrefix_def)
  moreover assume "in_int64 i"
  ultimately show ?thesis
    using True dec_str_digits [of "- i"]
    by (simp add: ParseInt_def Let_def digits_val_dec_str itoa_def)
next
  case False
  moreover assume "in_int64 i"
  ultimately show ?thesis
    using dec_str_digits [of i] by (simp add: itoa_def ParseInt_digits digits_val_dec_str)
qed

lemma ParseInt_range: "ParseInt s = Some v \<Longrightarrow> in_int64 v"
  by (auto simp: ParseInt_def Let_def split: if_splits)

lemma ParseInt_not_digits:
  "c \<in> set s \<Longrightarrow> \<not> isDigit c \<Longrightarrow> c \<noteq> CHR ''-'' \<Longrightarrow> c \<noteq> CHR ''+'' \<Longrightarrow> ParseInt s = None"
  by (cases s) (auto simp: ParseInt_def Let_def HasPrefix_def list_all_iff)

end
