(* ===== verification/Go_Time.thy ===== *)
theory Go_Time
  imports Go_Strings
begin

text \<open>
  Package \<^verbatim>\<open>time\<close> as the program uses it. An instant (\<^verbatim>\<open>time.Time\<close>, \<^verbatim>\<open>metav1.Time\<close>) is the number of
  nanoseconds since the Unix epoch, a \<^verbatim>\<open>time.Duration\<close> a number of nanoseconds in the range of
  \<^verbatim>\<open>int64\<close>. \<^verbatim>\<open>time.Parse\<close> is modelled over the chunks of a layout, including what it accepts beyond
  the layout (one-digit hours, a fraction with a comma, offsets of 24 hours).
\<close>

type_synonym time = int
type_synonym duration = int

definition Nanosecond :: duration where "Nanosecond = 1"
definition Second :: duration where "Second = 10 ^ 9"
definition Minute :: duration where "Minute = 60 * Second"
definition Hour :: duration where "Hour = 60 * Minute"

text \<open>\<^verbatim>\<open>time.Time{}\<close>: midnight UTC, January 1 of year 1.\<close>

definition zero_time :: time where
  "zero_time = - 62135596800 * Second"

definition After :: "time \<Rightarrow> time \<Rightarrow> bool" where
  "After t u \<longleftrightarrow> t > u"

definition Before :: "time \<Rightarrow> time \<Rightarrow> bool" where
  "Before t u \<longleftrightarrow> t < u"

definition Sub :: "time \<Rightarrow> time \<Rightarrow> duration" where
  "Sub t u = sat64 (t - u)"

definition Unix :: "int \<Rightarrow> time" where
  "Unix i = i * Second"

text \<open>
  The time that is left of a \<^verbatim>\<open>metav1.Time\<close> in JSON, where it is printed without fractions of a second. (The zero
  time, which is printed as \<^verbatim>\<open>null\<close>, is not treated separately.)
\<close>

definition whole_seconds :: "time \<Rightarrow> time" where
  "whole_seconds t = t - t mod Second"

lemma whole_seconds_le: "whole_seconds t \<le> t"
  by (simp add: whole_seconds_def Second_def)

lemma whole_seconds_eq: "whole_seconds t = t \<longleftrightarrow> t mod Second = 0"
  by (simp add: whole_seconds_def)

lemmas time_defs = Nanosecond_def Second_def Minute_def Hour_def

lemma After_iff [simp]: "After t u \<longleftrightarrow> u < t"
  by (simp add: After_def)

lemma Before_iff [simp]: "Before t u \<longleftrightarrow> t < u"
  by (simp add: Before_def)

lemma Unix_mono: "i < j \<Longrightarrow> Unix i < Unix j"
  by (simp add: Unix_def time_defs)

section \<open>The calendar\<close>

definition isLeap :: "int \<Rightarrow> bool" where
  "isLeap y \<longleftrightarrow> y mod 4 = 0 \<and> (y mod 100 \<noteq> 0 \<or> y mod 400 = 0)"

definition daysIn :: "int \<Rightarrow> int \<Rightarrow> int" where
  "daysIn m y =
     (if m = 2 then (if isLeap y then 29 else 28)
      else if m \<in> {4, 6, 9, 11} then 30 else 31)"

definition daysBefore :: "int \<Rightarrow> int \<Rightarrow> int" where
  "daysBefore m y =
     [0, 31, 59, 90, 120, 151, 181, 212, 243, 273, 304, 334] ! nat (m - 1) +
     (if m > 2 \<and> isLeap y then 1 else 0)"

definition days_from_civil :: "int \<Rightarrow> int \<Rightarrow> int \<Rightarrow> int" where
  "days_from_civil y m d =
     365 * (y - 1) + (y - 1) div 4 - (y - 1) div 100 + (y - 1) div 400
     + daysBefore m y + (d - 1) - 719162"

text \<open>\<^verbatim>\<open>time.Date\<close> in UTC, for fields in their usual ranges.\<close>

definition Date :: "int \<Rightarrow> int \<Rightarrow> int \<Rightarrow> int \<Rightarrow> int \<Rightarrow> int \<Rightarrow> int \<Rightarrow> time" where
  "Date y mo d h mi s ns = (((days_from_civil y mo d * 24 + h) * 60 + mi) * 60 + s) * Second + ns"

definition civil_from_days :: "int \<Rightarrow> int \<times> int \<times> int" where
  "civil_from_days days =
     (let z = days + 719468; era = z div 146097; doe = z mod 146097;
          yoe = (doe - doe div 1460 + doe div 36524 - doe div 146096) div 365;
          doy = doe - (365 * yoe + yoe div 4 - yoe div 100);
          mp = (5 * doy + 2) div 153;
          d = doy - (153 * mp + 2) div 5 + 1;
          m = (if mp < 10 then mp + 3 else mp - 9)
      in (yoe + era * 400 + (if m \<le> 2 then 1 else 0), m, d))"

definition pad :: "nat \<Rightarrow> int \<Rightarrow> string" where
  "pad w i = (let s = dec_str i in replicate (w - length s) (CHR ''0'') @ s)"

text \<open>\<^verbatim>\<open>t.UTC().Format("20060102-1504")\<close>.\<close>

definition format_minute :: "time \<Rightarrow> string" where
  "format_minute t =
     (let secs = t div Second;
          (y, m, d) = civil_from_days (secs div 86400)
      in pad 4 y @ pad 2 m @ pad 2 d @ ''-'' @ pad 2 (secs mod 86400 div 3600)
         @ pad 2 (secs mod 3600 div 60))"

section \<open>Parsing\<close>

datatype chunk =
    LongYear | ZeroMonth | ZeroDay | Hour24 | ZeroMinute | ZeroSecond
  | FracSecond0 nat | FracSecond9 | ISO8601ColonTZ | Literal string

record time_fields =
  f_year :: int
  f_month :: int
  f_day :: int
  f_hour :: int
  f_min :: int
  f_sec :: int
  f_nsec :: int
  f_offset :: int

definition digit_at :: "string \<Rightarrow> nat \<Rightarrow> bool" where
  "digit_at s i \<longleftrightarrow> i < length s \<and> isDigit (s ! i)"

definition commaOrPeriod :: "char \<Rightarrow> bool" where
  "commaOrPeriod c \<longleftrightarrow> c = CHR ''.'' \<or> c = CHR '',''"

definition getnum :: "string \<Rightarrow> bool \<Rightarrow> (int \<times> string) option" where
  "getnum s fixed =
     (if \<not> digit_at s 0 then None
      else if \<not> digit_at s 1
      then (if fixed then None else Some (digit_val (s ! 0), drop 1 s))
      else Some (digit_val (s ! 0) * 10 + digit_val (s ! 1), drop 2 s))"

definition atoi :: "string \<Rightarrow> int option" where
  "atoi s =
     (let ds = (if HasPrefix s ''-'' \<or> HasPrefix s ''+'' then tl s else s)
      in if list_all isDigit ds
         then Some (if HasPrefix s ''-'' then - digits_val ds else digits_val ds)
         else None)"

definition parseNanoseconds :: "string \<Rightarrow> nat \<Rightarrow> int option" where
  "parseNanoseconds v nbytes =
     (if v = [] \<or> \<not> commaOrPeriod (hd v) then None
      else let n = min nbytes 10
           in case atoi (take (n - 1) (tl v)) of
                None \<Rightarrow> None
              | Some ns \<Rightarrow> if ns < 0 then None else Some (ns * 10 ^ (10 - n)))"

text \<open>The separator and the run of digits of a fraction at the front of \<open>v\<close>.\<close>

definition frac_len :: "string \<Rightarrow> nat" where
  "frac_len v =
     (if 2 \<le> length v \<and> commaOrPeriod (hd v) \<and> digit_at v 1
      then Suc (length (takeWhile isDigit (tl v))) else 0)"

definition take_frac :: "string \<Rightarrow> time_fields \<Rightarrow> (time_fields \<times> string) option" where
  "take_frac v f =
     (if frac_len v = 0 then Some (f, v)
      else map_option (\<lambda>ns. (f\<lparr>f_nsec := ns\<rparr>, drop (frac_len v) v))
             (parseNanoseconds v (frac_len v)))"

fun next_is_frac :: "chunk list \<Rightarrow> bool" where
  "next_is_frac (Literal _ # cs) = next_is_frac cs"
| "next_is_frac (FracSecond0 _ # cs) = True"
| "next_is_frac (FracSecond9 # cs) = True"
| "next_is_frac _ = False"

definition ranged :: "(int \<times> string) option \<Rightarrow> int \<Rightarrow> int \<Rightarrow> (int \<times> string) option" where
  "ranged r lo hi = (case r of Some (n, v) \<Rightarrow> if lo \<le> n \<and> n \<le> hi then r else None | None \<Rightarrow> None)"

definition parse_zone :: "string \<Rightarrow> time_fields \<Rightarrow> (time_fields \<times> string) option" where
  "parse_zone v f =
     (if HasPrefix v ''Z'' then Some (f\<lparr>f_offset := 0\<rparr>, tl v)
      else if length v < 6 \<or> v ! 3 \<noteq> CHR '':'' then None
      else case (getnum (take 2 (drop 1 v)) True, getnum (take 2 (drop 4 v)) True) of
             (Some (hr, _), Some (mm, _)) \<Rightarrow>
               if hr > 24 \<or> mm > 60 then None
               else if v ! 0 = CHR ''+'' then Some (f\<lparr>f_offset := (hr * 60 + mm) * 60\<rparr>, drop 6 v)
               else if v ! 0 = CHR ''-'' then Some (f\<lparr>f_offset := - ((hr * 60 + mm) * 60)\<rparr>, drop 6 v)
               else None
           | _ \<Rightarrow> None)"

fun parse_chunk :: "chunk \<Rightarrow> chunk list \<Rightarrow> string \<Rightarrow> time_fields \<Rightarrow> (time_fields \<times> string) option" where
  "parse_chunk (Literal p) cs v f = (if HasPrefix v p then Some (f, drop (length p) v) else None)"
| "parse_chunk LongYear cs v f =
     (if length v < 4 \<or> \<not> digit_at v 0 then None
      else map_option (\<lambda>y. (f\<lparr>f_year := y\<rparr>, drop 4 v)) (atoi (take 4 v)))"
| "parse_chunk ZeroMonth cs v f =
     map_option (\<lambda>(n, r). (f\<lparr>f_month := n\<rparr>, r)) (ranged (getnum v True) 1 12)"
| "parse_chunk ZeroDay cs v f = map_option (\<lambda>(n, r). (f\<lparr>f_day := n\<rparr>, r)) (getnum v True)"
| "parse_chunk Hour24 cs v f =
     map_option (\<lambda>(n, r). (f\<lparr>f_hour := n\<rparr>, r)) (ranged (getnum v False) 0 23)"
| "parse_chunk ZeroMinute cs v f =
     map_option (\<lambda>(n, r). (f\<lparr>f_min := n\<rparr>, r)) (ranged (getnum v True) 0 59)"
| "parse_chunk ZeroSecond cs v f =
     (case ranged (getnum v True) 0 59 of
        None \<Rightarrow> None
      | Some (n, r) \<Rightarrow>
          if next_is_frac cs then Some (f\<lparr>f_sec := n\<rparr>, r) else take_frac r (f\<lparr>f_sec := n\<rparr>))"
| "parse_chunk FracSecond9 cs v f = take_frac v f"
| "parse_chunk (FracSecond0 k) cs v f =
     (if length v < Suc k then None
      else map_option (\<lambda>ns. (f\<lparr>f_nsec := ns\<rparr>, drop (Suc k) v)) (parseNanoseconds v (Suc k)))"
| "parse_chunk ISO8601ColonTZ cs v f = parse_zone v f"

fun parse_chunks :: "chunk list \<Rightarrow> string \<Rightarrow> time_fields \<Rightarrow> time_fields option" where
  "parse_chunks [] v f = (if v = [] then Some f else None)"
| "parse_chunks (c # cs) v f =
     (case parse_chunk c cs v f of None \<Rightarrow> None | Some (f', r) \<Rightarrow> parse_chunks cs r f')"

definition no_fields :: time_fields where
  "no_fields = \<lparr>f_year = 0, f_month = 1, f_day = 1, f_hour = 0, f_min = 0, f_sec = 0,
     f_nsec = 0, f_offset = 0\<rparr>"

definition Parse :: "chunk list \<Rightarrow> string \<Rightarrow> time option" where
  "Parse layout value =
     (case parse_chunks layout value no_fields of
        None \<Rightarrow> None
      | Some f \<Rightarrow>
          if f_day f < 1 \<or> f_day f > daysIn (f_month f) (f_year f) then None
          else Some (Date (f_year f) (f_month f) (f_day f) (f_hour f) (f_min f) (f_sec f) (f_nsec f)
                     - f_offset f * Second))"

abbreviation date_time :: "chunk list" where
  "date_time \<equiv> [LongYear, Literal ''-'', ZeroMonth, Literal ''-'', ZeroDay, Literal ''T'',
     Hour24, Literal '':'', ZeroMinute, Literal '':'', ZeroSecond]"

definition RFC3339 :: "chunk list" where
  "RFC3339 = date_time @ [ISO8601ColonTZ]"

definition RFC3339Nano :: "chunk list" where
  "RFC3339Nano = date_time @ [FracSecond9, ISO8601ColonTZ]"

text \<open>The loop that tries several layouts in turn.\<close>

definition parse_first :: "chunk list list \<Rightarrow> string \<Rightarrow> time option" where
  "parse_first layouts raw =
     (case List.find (\<lambda>l. Parse l raw \<noteq> None) layouts of None \<Rightarrow> None | Some l \<Rightarrow> Parse l raw)"

text \<open>A digit string is no RFC 3339 timestamp: the separator after the year is missing.\<close>

lemma Parse_digits:
  assumes "list_all isDigit s"
  shows "Parse RFC3339 s = None" "Parse RFC3339Nano s = None"
proof -
  have "list_all isDigit (drop 4 s)"
    using assms by (meson in_set_dropD list_all_iff)
  then have "\<not> HasPrefix (drop 4 s) ''-''"
    using no_sign by blast
  then have "parse_chunks (LongYear # Literal ''-'' # cs) s f = None" for cs f
    by (cases "atoi (take 4 s)") simp_all
  then show "Parse RFC3339 s = None" "Parse RFC3339Nano s = None"
    by (simp_all only: Parse_def RFC3339_def RFC3339Nano_def append_Cons option.case)
qed

section \<open>Durations\<close>

definition round_duration :: "duration \<Rightarrow> duration \<Rightarrow> duration" where
  "round_duration d m =
     (if m \<le> 0 then d
      else let r = go_mod d m in
        if d < 0 then
          (let r' = - r in
           if r' + r' < m then d + r'
           else let d1 = wrap64 (d - m + r') in if d1 < d then d1 else min_int64)
        else if r + r < m then d - r
        else let d1 = wrap64 (d + m - r) in if d1 > d then d1 else max_int64)"

fun strip_zeros :: "string \<Rightarrow> string" where
  "strip_zeros [] = []"
| "strip_zeros (c # cs) =
     (let t = strip_zeros cs in if t = [] \<and> c = CHR ''0'' then [] else c # t)"

definition fmtFrac :: "int \<Rightarrow> nat \<Rightarrow> string" where
  "fmtFrac u prec =
     (let f = u mod 10 ^ prec in if f = 0 then [] else CHR ''.'' # strip_zeros (pad prec f))"

text \<open>\<^verbatim>\<open>Duration.String\<close>, the \<^verbatim>\<open>%s\<close> verb on a duration.\<close>

definition duration_string :: "duration \<Rightarrow> string" where
  "duration_string d =
     (let u = \<bar>d\<bar>;
          body =
            (if u = 0 then ''0s''
             else if u < 1000 then itoa u @ ''ns''
             else if u < 10 ^ 6 then itoa (u div 10 ^ 3) @ fmtFrac u 3 @ [CHR 0xC2, CHR 0xB5] @ ''s''
             else if u < Second then itoa (u div 10 ^ 6) @ fmtFrac u 6 @ ''ms''
             else let secs = u div Second;
                      s = itoa (secs mod 60) @ fmtFrac u 9 @ ''s'';
                      mins = secs div 60
                  in if mins = 0 then s
                     else if mins div 60 = 0 then itoa (mins mod 60) @ ''m'' @ s
                     else itoa (mins div 60) @ ''h'' @ itoa (mins mod 60) @ ''m'' @ s)
      in if d < 0 then ''-'' @ body else body)"

end
