(* ===== verification/Arete_Types.thy ===== *)
theory Arete_Types
  imports Go_Time
begin

text \<open>
  The data of the program: the API types of \<^verbatim>\<open>api/v1alpha1\<close> (spec, status, condition and reason
  taxonomy of \<^verbatim>\<open>BackupRepository\<close> and \<^verbatim>\<open>BackupRepositoryConditional\<close>), and the fields of the
  Kubernetes and S3 objects that the controllers read or write. A Go pointer is an \<^typ>\<open>'a option\<close>, a
  Go map its list of entries. Field names that occur in several structs carry a short prefix.
\<close>

section \<open>Values shared by all resources\<close>

text \<open>
  A \<^verbatim>\<open>resource.Quantity\<close> is an opaque value, represented by a code: only the operations of the
  \<^verbatim>\<open>resource\<close> package, which are parameters of the model, look inside.
\<close>

datatype Quantity = Quantity int

text \<open>The zero value \<^verbatim>\<open>resource.Quantity{}\<close>.\<close>

definition zeroQuantity :: Quantity where "zeroQuantity = Quantity 0"

record NamespacedName =
  nn_Namespace :: string
  nn_Name :: string

datatype ConditionStatus = ConditionTrue | ConditionFalse | ConditionUnknown

record Condition =
  cType :: string
  cStatus :: ConditionStatus
  cObservedGeneration :: int
  cLastTransitionTime :: time
  cReason :: string
  cMessage :: string

text \<open>Errors of the API server, and the errors the program builds from them.\<close>

datatype api_error = NotFound string | AlreadyExists string | OtherAPIError string

fun api_text :: "api_error \<Rightarrow> string" where
  "api_text (NotFound s) = s"
| "api_text (AlreadyExists s) = s"
| "api_text (OtherAPIError s) = s"

fun IsNotFound :: "api_error \<Rightarrow> bool" where
  "IsNotFound (NotFound s) = True"
| "IsNotFound _ = False"

fun IsAlreadyExists :: "api_error \<Rightarrow> bool" where
  "IsAlreadyExists (AlreadyExists s) = True"
| "IsAlreadyExists _ = False"

text \<open>\<open>ErrCredentialsSecretNotFound\<close> is an error that wraps the sentinel of that name.\<close>

datatype go_error = ErrCredentialsSecretNotFound string | GoError string

fun Error :: "go_error \<Rightarrow> string" where
  "Error (ErrCredentialsSecretNotFound s) = ''credentials secret not found'' @ s"
| "Error (GoError s) = s"

fun is_ErrCredentialsSecretNotFound :: "go_error \<Rightarrow> bool" where
  "is_ErrCredentialsSecretNotFound (ErrCredentialsSecretNotFound s) = True"
| "is_ErrCredentialsSecretNotFound (GoError s) = False"

section \<open>BackupRepository\<close>

datatype BackupFormat =
    BackupFormatWalg | BackupFormatRestic | BackupFormatBarman | OtherFormat string

fun format_string :: "BackupFormat \<Rightarrow> string" where
  "format_string BackupFormatWalg = ''walg''"
| "format_string BackupFormatRestic = ''restic''"
| "format_string BackupFormatBarman = ''barman''"
| "format_string (OtherFormat s) = s"

datatype TriggerSource = TriggerSourceScheduled | TriggerSourceManual

fun trigger_string :: "TriggerSource \<Rightarrow> string" where
  "trigger_string TriggerSourceScheduled = ''scheduled''"
| "trigger_string TriggerSourceManual = ''manual''"

record SecretReference =
  sr_Name :: string
  sr_Namespace :: string
  sr_KeyMapping :: gomap

record S3Source =
  Endpoint :: string
  Region :: string
  Bucket :: string
  Prefix :: string
  CredentialsSecret :: SecretReference
  AdditionalSecrets :: "SecretReference list"
  ExtraEnv :: gomap
  RequireObjectLock :: bool
  RequireBucketEncryption :: bool

record BackupRepositorySpec =
  S3 :: S3Source
  Format :: BackupFormat
  ProbeInterval :: duration
  MetadataValidationInterval :: duration
  SampledRetrievalInterval :: "duration option"
  SampledRetrievalObjects :: "int option"
  FullRetrievalInterval :: "duration option"
  FullRetrievalStorageClass :: "string option"
  FullRetrievalPVCSize :: "Quantity option"
  MaxBackupLag :: duration
  ExpectedSizeBudget :: "Quantity option"
  AutoCleanStaleLocks :: "bool option"

record LatestBackupStatus =
  lb_Name :: string
  lb_CreatedAt :: time
  lb_SizeBytes :: Quantity
  lb_UncompressedSizeBytes :: "Quantity option"

record InventoryStatus =
  ObjectCount :: int
  TotalBytes :: Quantity
  OldestObject :: "time option"
  NewestObject :: "time option"

record GrowthStatus =
  Window :: duration
  gs_Bytes :: Quantity
  SampledAt :: time

record FullRetrievalStatus =
  CompletedAt :: time
  DurationSeconds :: int
  BytesTransferred :: int
  ThroughputBytesPerSec :: int
  ObjectsRetrieved :: int
  FailedObjects :: int
  fr_TriggerSource :: TriggerSource

record BackupRepositoryStatus =
  ObservedGeneration :: int
  Conditions :: "Condition list"
  LastProbedAt :: "time option"
  ClaimedLatestBackup :: "LatestBackupStatus option"
  ClaimedLastSuccessfulBackup :: "time option"
  DetectedFormat :: string
  DetectedVersion :: string
  ObservedInventory :: "InventoryStatus option"
  ObservedGrowth :: "GrowthStatus option"
  VerifiedLastValidationAt :: "time option"
  VerifiedLastSampledRetrievalAt :: "time option"
  LastFullRetrieval :: "FullRetrievalStatus option"
  LastForceRevalidatedAt :: "time option"
  LastForcedE4At :: "time option"

text \<open>
  A status crosses the wire as JSON, in which times have whole seconds. (Only the transition times of the conditions are left
  as they are: nothing is claimed about them.)
\<close>

definition on_wire :: "BackupRepositoryStatus \<Rightarrow> BackupRepositoryStatus" where
  "on_wire st = st
     \<lparr>LastProbedAt := map_option whole_seconds (LastProbedAt st),
      ClaimedLatestBackup :=
        map_option (\<lambda>l. l\<lparr>lb_CreatedAt := whole_seconds (lb_CreatedAt l)\<rparr>) (ClaimedLatestBackup st),
      ClaimedLastSuccessfulBackup := map_option whole_seconds (ClaimedLastSuccessfulBackup st),
      ObservedInventory := map_option (\<lambda>i. i\<lparr>OldestObject := map_option whole_seconds (OldestObject i),
        NewestObject := map_option whole_seconds (NewestObject i)\<rparr>) (ObservedInventory st),
      ObservedGrowth := map_option (\<lambda>g. g\<lparr>SampledAt := whole_seconds (SampledAt g)\<rparr>) (ObservedGrowth st),
      VerifiedLastValidationAt := map_option whole_seconds (VerifiedLastValidationAt st),
      VerifiedLastSampledRetrievalAt := map_option whole_seconds (VerifiedLastSampledRetrievalAt st),
      LastFullRetrieval :=
        map_option (\<lambda>f. f\<lparr>CompletedAt := whole_seconds (CompletedAt f)\<rparr>) (LastFullRetrieval st),
      LastForceRevalidatedAt := map_option whole_seconds (LastForceRevalidatedAt st),
      LastForcedE4At := map_option whole_seconds (LastForcedE4At st)\<rparr>"

lemma Conditions_on_wire [simp]: "Conditions (on_wire st) = Conditions st"
  by (simp add: on_wire_def)

record BackupRepository =
  br_Name :: string
  br_Namespace :: string
  Generation :: int
  Annotations :: gomap
  Spec :: BackupRepositorySpec
  Status :: BackupRepositoryStatus

subsection \<open>Condition types and reasons\<close>

definition ConditionReachable :: string where "ConditionReachable = ''Reachable''"
definition ConditionBackupCurrent :: string where "ConditionBackupCurrent = ''BackupCurrent''"
definition ConditionBucketSecurityValid :: string where
  "ConditionBucketSecurityValid = ''BucketSecurityValid''"
definition ConditionSizeWithinBudget :: string where
  "ConditionSizeWithinBudget = ''SizeWithinBudget''"
definition ConditionProbeHealthy :: string where "ConditionProbeHealthy = ''ProbeHealthy''"
definition ConditionMetadataValid :: string where "ConditionMetadataValid = ''MetadataValid''"
definition ConditionSampledIntegrityValid :: string where
  "ConditionSampledIntegrityValid = ''SampledIntegrityValid''"
definition ConditionFullRetrievalCompleted :: string where
  "ConditionFullRetrievalCompleted = ''FullRetrievalCompleted''"
definition ConditionValidationHealthy :: string where
  "ConditionValidationHealthy = ''ValidationHealthy''"
definition ConditionHealthy :: string where "ConditionHealthy = ''Healthy''"

lemmas condition_type_defs =
  ConditionReachable_def ConditionBackupCurrent_def ConditionBucketSecurityValid_def
  ConditionSizeWithinBudget_def ConditionProbeHealthy_def ConditionMetadataValid_def
  ConditionSampledIntegrityValid_def ConditionFullRetrievalCompleted_def
  ConditionValidationHealthy_def ConditionHealthy_def

lemma condition_types_distinct:
  "distinct [ConditionReachable, ConditionBackupCurrent, ConditionBucketSecurityValid,
     ConditionSizeWithinBudget, ConditionProbeHealthy, ConditionMetadataValid,
     ConditionSampledIntegrityValid, ConditionFullRetrievalCompleted,
     ConditionValidationHealthy, ConditionHealthy]"
  "distinct [ConditionHealthy, ConditionValidationHealthy, ConditionFullRetrievalCompleted,
     ConditionSampledIntegrityValid, ConditionMetadataValid, ConditionProbeHealthy,
     ConditionSizeWithinBudget, ConditionBucketSecurityValid, ConditionBackupCurrent,
     ConditionReachable]"
  by (simp_all add: condition_type_defs)

lemmas condition_types_neq [simp] =
  condition_types_distinct [unfolded distinct.simps list.set insert_iff empty_iff
    de_Morgan_disj simp_thms conj_assoc]

definition ReasonProbeSucceeded :: string where "ReasonProbeSucceeded = ''ProbeSucceeded''"
definition ReasonClientBuildFailed :: string where
  "ReasonClientBuildFailed = ''ClientBuildFailed''"
definition ReasonCredentialsUnavailable :: string where
  "ReasonCredentialsUnavailable = ''CredentialsUnavailable''"
definition ReasonCredentialsRejected :: string where
  "ReasonCredentialsRejected = ''CredentialsRejected''"
definition ReasonBucketNotFound :: string where "ReasonBucketNotFound = ''BucketNotFound''"
definition ReasonS3Unreachable :: string where "ReasonS3Unreachable = ''S3Unreachable''"
definition ReasonS3APIError :: string where "ReasonS3APIError = ''S3APIError''"
definition ReasonInsecureEndpoint :: string where
  "ReasonInsecureEndpoint = ''InsecureEndpoint''"
definition ReasonObjectLockMissing :: string where
  "ReasonObjectLockMissing = ''ObjectLockMissing''"
definition ReasonBucketEncryptionMissing :: string where
  "ReasonBucketEncryptionMissing = ''BucketEncryptionMissing''"
definition ReasonRepositoryEmpty :: string where "ReasonRepositoryEmpty = ''RepositoryEmpty''"
definition ReasonBackupLagExceeded :: string where
  "ReasonBackupLagExceeded = ''BackupLagExceeded''"
definition ReasonSizeBudgetExceeded :: string where
  "ReasonSizeBudgetExceeded = ''SizeBudgetExceeded''"
definition ReasonMetadataValidationFailed :: string where
  "ReasonMetadataValidationFailed = ''MetadataValidationFailed''"
definition ReasonSampledIntegrityFailed :: string where
  "ReasonSampledIntegrityFailed = ''SampledIntegrityFailed''"
definition ReasonFullRetrievalFailed :: string where
  "ReasonFullRetrievalFailed = ''FullRetrievalFailed''"
definition ReasonLayerTwoNotYetAvailable :: string where
  "ReasonLayerTwoNotYetAvailable = ''LayerTwoNotYetAvailable''"

lemma reason_neq_LayerTwo [simp]:
  "ReasonProbeSucceeded \<noteq> ReasonLayerTwoNotYetAvailable"
  "ReasonMetadataValidationFailed \<noteq> ReasonLayerTwoNotYetAvailable"
  "ReasonSampledIntegrityFailed \<noteq> ReasonLayerTwoNotYetAvailable"
  "ReasonFullRetrievalFailed \<noteq> ReasonLayerTwoNotYetAvailable"
  by (simp_all add: ReasonProbeSucceeded_def ReasonMetadataValidationFailed_def
      ReasonSampledIntegrityFailed_def ReasonFullRetrievalFailed_def
      ReasonLayerTwoNotYetAvailable_def)

definition AnnotationForceRevalidate :: string where
  "AnnotationForceRevalidate = ''arete.io/force-revalidate''"
definition AnnotationForceE4 :: string where
  "AnnotationForceE4 = ''arete.io/force-e4''"

section \<open>BackupRepositoryConditional\<close>

record KeyedReference =
  kr_Name :: string
  kr_Key :: string

record ManifestRef =
  ConfigMap :: "KeyedReference option"
  Secret :: "KeyedReference option"

record VariantSpec =
  vs_ManifestRef :: ManifestRef

record BackupRepositoryConditionalSpec =
  RepositoryRef :: string
  WhenHealthy :: "VariantSpec option"
  WhenEmpty :: "VariantSpec option"
  WhenDegraded :: "VariantSpec option"

record AppliedResourceRef =
  ar_APIVersion :: string
  ar_Kind :: string
  ar_Namespace :: string
  ar_Name :: string

record BackupRepositoryConditionalStatus =
  ObservedRepositoryState :: string
  Decided :: string
  DecidedAt :: "time option"
  AppliedRef :: "AppliedResourceRef option"
  brc_ObservedGeneration :: int
  brc_Conditions :: "Condition list"

record BackupRepositoryConditional =
  brc_Name :: string
  brc_Namespace :: string
  brc_Generation :: int
  brc_Spec :: BackupRepositoryConditionalSpec
  brc_Status :: BackupRepositoryConditionalStatus

definition BRConditionalBackupRepositoryFound :: string where
  "BRConditionalBackupRepositoryFound = ''BackupRepositoryFound''"
definition BRConditionalManifestSourceFound :: string where
  "BRConditionalManifestSourceFound = ''ManifestSourceFound''"
definition BRConditionalManifestParsed :: string where
  "BRConditionalManifestParsed = ''ManifestParsed''"
definition BRConditionalChildApplied :: string where
  "BRConditionalChildApplied = ''ChildApplied''"
definition BRConditionalDecided :: string where
  "BRConditionalDecided = ''Decided''"

definition BRConditionalReasonOK :: string where "BRConditionalReasonOK = ''OK''"
definition BRConditionalReasonRepositoryNotFound :: string where
  "BRConditionalReasonRepositoryNotFound = ''RepositoryNotFound''"
definition BRConditionalReasonNoVariantForState :: string where
  "BRConditionalReasonNoVariantForState = ''NoVariantForState''"
definition BRConditionalReasonManifestSourceMiss :: string where
  "BRConditionalReasonManifestSourceMiss = ''ManifestSourceMissing''"
definition BRConditionalReasonManifestParseFailed :: string where
  "BRConditionalReasonManifestParseFailed = ''ManifestParseFailed''"
definition BRConditionalReasonApplyFailed :: string where
  "BRConditionalReasonApplyFailed = ''ApplyFailed''"
definition BRConditionalReasonImmutableConflict :: string where
  "BRConditionalReasonImmutableConflict = ''ImmutableFieldRejected''"

end
