(* ===== verification/Environment.thy ===== *)
theory Environment
  imports Arete_Types
begin

text \<open>
  What surrounds the controllers. The types of this theory are the Kubernetes, S3 and JSON objects
  they exchange with other code. The records \<open>deps\<close>, \<open>s3client\<close> and \<open>kube\<close> hold the operations of
  code that is not part of the repository (apimachinery, minio-go, the API server, sorting, hashing
  and decoding); every definition that uses them takes the record as an argument, and what the
  program relies on is stated by the predicates at the end (\<open>conditions_ok\<close> and the like). The
  responses of the API server and of S3 during one reconcile are arbitrary functions of the request.
\<close>

section \<open>Kubernetes objects\<close>

datatype JobConditionType = JobComplete | JobFailed | OtherJobCondition string

record JobCondition =
  jc_Type :: JobConditionType
  jc_Status :: ConditionStatus

datatype EnvSource =
    EnvValue string
  | SecretKeyRef (sk_Name: string) (sk_Key: string) (sk_Optional: bool)

record EnvVar =
  ev_Name :: string
  ev_Source :: EnvSource

record PodSecurityContext =
  psc_RunAsNonRoot :: bool
  psc_RunAsUser :: int
  psc_RunAsGroup :: int
  psc_FSGroup :: int
  psc_SeccompProfile :: string

record SecurityContext =
  sc_AllowPrivilegeEscalation :: bool
  sc_CapabilitiesDrop :: "string list"
  sc_RunAsNonRoot :: bool
  sc_SeccompProfile :: string

record Container =
  ct_Name :: string
  ct_Image :: string
  ct_Command :: "string list"
  ct_Args :: "string list"
  ct_SecurityContext :: SecurityContext
  ct_Env :: "EnvVar list"
  ct_VolumeMounts :: "(string \<times> string) list"

record JobSpec =
  TTLSecondsAfterFinished :: int
  BackoffLimit :: int
  ActiveDeadlineSeconds :: int
  RestartPolicy :: string
  js_SecurityContext :: PodSecurityContext
  Containers :: "Container list"
  Volumes :: "(string \<times> string) list"

text \<open>The status part of a Job (conditions, start and completion times) is written by Kubernetes.\<close>

record Job =
  j_Name :: string
  j_Namespace :: string
  j_Labels :: gomap
  j_CreationTimestamp :: time
  j_Owner :: "string option"
  j_Spec :: JobSpec
  j_Conditions :: "JobCondition list"
  j_StartTime :: "time option"
  j_CompletionTime :: "time option"

record PersistentVolumeClaim =
  pvc_Name :: string
  pvc_Namespace :: string
  pvc_Labels :: gomap
  pvc_Owner :: "string option"
  pvc_AccessModes :: "string list"
  pvc_StorageClassName :: "string option"
  pvc_Storage :: Quantity

section \<open>S3 objects and decoded documents\<close>

record S3Credentials =
  AccessKeyID :: string
  SecretAccessKey :: string
  SessionToken :: string

record ValidatorImages =
  Walg :: string
  Restic :: string

text \<open>An error of minio-go: the \<^verbatim>\<open>ErrorResponse\<close> (code and message) it unwraps to, and its text.\<close>

record s3_error =
  ErrorResponse :: "(string \<times> string) option"
  s3_text :: string

record ObjectInfo =
  oi_Key :: string
  oi_Size :: int
  oi_LastModified :: time
  oi_Err :: "s3_error option"

text \<open>A byte stream: what it delivers, and the read error it ends with, if any.\<close>

record stream =
  st_bytes :: string
  st_err :: "string option"

record resticSnapSum =
  TotalBytesProcessed :: int
  DataAddedPacked :: int

record resticSnapshot =
  rs_ID :: string
  rs_LongID :: string
  rs_Time :: string
  rs_Hostname :: string
  rs_Paths :: "string list"
  rs_Tags :: "string list"
  rs_Summary :: resticSnapSum

record walgSentinel =
  ws_Version :: int
  PgVersion :: int
  FinishTime :: string
  CompressedSize :: int
  UncompressedSize :: int

section \<open>Operations of external code\<close>

text \<open>
  A reply of \<^verbatim>\<open>GetObjectLockConfig\<close> says whether Object Lock is \<^verbatim>\<open>Enabled\<close> (its other results, the default
  retention, are left out); one of \<^verbatim>\<open>GetBucketEncryption\<close> lists the algorithms of its rules.
\<close>

record s3client =
  ListObjects :: "string \<Rightarrow> string \<Rightarrow> bool \<Rightarrow> ObjectInfo list"
  GetObjectLockConfig :: "string \<Rightarrow> s3_error + string"
  GetBucketEncryption :: "string \<Rightarrow> s3_error + string list"
  GetObject :: "string \<Rightarrow> string \<Rightarrow> s3_error + stream"

record deps =
  FindStatusCondition :: "Condition list \<Rightarrow> string \<Rightarrow> Condition option"
  SetStatusCondition :: "Condition list \<Rightarrow> Condition \<Rightarrow> Condition list"
  RemoveStatusCondition :: "Condition list \<Rightarrow> string \<Rightarrow> Condition list"
  NewQuantity :: "int \<Rightarrow> Quantity"
  QuantityCmp :: "Quantity \<Rightarrow> Quantity \<Rightarrow> int"
  QuantityString :: "Quantity \<Rightarrow> string"
  AsInt64 :: "Quantity \<Rightarrow> int option"
  KeyString :: "NamespacedName \<Rightarrow> string"
  Quote :: "string \<Rightarrow> string"
  Sum256 :: "string \<Rightarrow> string"
  SortJobs :: "(Job \<Rightarrow> Job \<Rightarrow> bool) \<Rightarrow> Job list \<Rightarrow> Job list"
  SortObjects :: "(ObjectInfo \<Rightarrow> ObjectInfo \<Rightarrow> bool) \<Rightarrow> ObjectInfo list \<Rightarrow> ObjectInfo list"
  Shuffle :: "string list \<Rightarrow> string list"
  UnmarshalSnapshots :: "string \<Rightarrow> resticSnapshot list \<Rightarrow> resticSnapshot list \<times> bool"
  UnmarshalSentinel :: "string \<Rightarrow> walgSentinel option"
  ParseURL :: "string \<Rightarrow> string + (string \<times> string)"
  MinioNew :: "string \<Rightarrow> S3Credentials \<Rightarrow> bool \<Rightarrow> string \<Rightarrow> string + s3client"

record kube =
  getBackupRepository :: "NamespacedName \<Rightarrow> api_error + BackupRepository"
  listBackupRepositories :: "api_error + BackupRepository list"
  getSecret :: "NamespacedName \<Rightarrow> api_error + gomap"
  listJobs :: "string \<Rightarrow> gomap \<Rightarrow> api_error + Job list"
  listPods :: "string \<Rightarrow> gomap \<Rightarrow> api_error + string list"
  PodLogs :: "(string \<Rightarrow> string \<Rightarrow> int \<Rightarrow> string + stream) option"
  setJobOwner :: "BackupRepository \<Rightarrow> Job \<Rightarrow> string + Job"
  setPVCOwner :: "BackupRepository \<Rightarrow> PersistentVolumeClaim \<Rightarrow> string + PersistentVolumeClaim"
  createJob :: "Job \<Rightarrow> api_error option"
  createPVC :: "PersistentVolumeClaim \<Rightarrow> api_error option"
  patchMetadata :: "BackupRepository \<Rightarrow> string \<Rightarrow> api_error + BackupRepository"
  patchStatus :: "BackupRepository \<Rightarrow> BackupRepository \<Rightarrow> api_error + BackupRepository"

text \<open>
  The readings of \<^verbatim>\<open>time.Now()\<close> at the places of one \<^verbatim>\<open>Reconcile\<close> that ask for it, in the order of
  the code.
\<close>

record clock =
  now_stored :: time
  now_since :: time
  now_e2 :: time
  now_e2_name :: time
  now_e3 :: time
  now_e3_name :: time
  now_e4 :: time
  now_e4_name :: time
  now_status :: time
  now_metrics :: time

section \<open>Effects\<close>

text \<open>The calls by which a reconcile changes something outside it, in the order it makes them.\<close>

datatype gauge = GaugeInt int | GaugeSeconds duration

datatype effect =
    CreateJob Job
  | CreatePVC PersistentVolumeClaim
  | PatchMetadata string
  | PatchStatus BackupRepository
  | CounterInc string "string list"
  | HistogramObserve string "string list" duration
  | GaugeSet string "string list" gauge

section \<open>What the program relies on\<close>

text \<open>
  The status, reason and message of a condition type: what the rest of the program reads.
  The documentation of apimachinery promises that \<^verbatim>\<open>SetStatusCondition\<close> overwrites or appends the
  condition of the new condition's type, and that \<^verbatim>\<open>RemoveStatusCondition\<close> drops a type.
\<close>

type_synonym cond_core = "ConditionStatus \<times> string \<times> string"

definition core :: "Condition \<Rightarrow> cond_core" where
  "core c = (cStatus c, cReason c, cMessage c)"

definition view :: "deps \<Rightarrow> Condition list \<Rightarrow> string \<rightharpoonup> cond_core" where
  "view D cs t = map_option core (FindStatusCondition D cs t)"

definition conditions_ok :: "deps \<Rightarrow> bool" where
  "conditions_ok D \<longleftrightarrow>
     (\<forall>cs c. view D (SetStatusCondition D cs c) = (view D cs)(cType c \<mapsto> core c)) \<and>
     (\<forall>cs t. view D (RemoveStatusCondition D cs t) = (view D cs)(t := None))"

text \<open>
  \<^verbatim>\<open>sort.Slice\<close>, called with a strict weak ordering, returns a rearrangement in which no element is
  less than an earlier one.
\<close>

definition weak_order :: "('a \<Rightarrow> 'a \<Rightarrow> bool) \<Rightarrow> bool" where
  "weak_order lt \<longleftrightarrow>
     (\<forall>x. \<not> lt x x) \<and> (\<forall>x y z. lt x y \<longrightarrow> lt y z \<longrightarrow> lt x z) \<and>
     (\<forall>x y z. \<not> lt x y \<longrightarrow> \<not> lt y z \<longrightarrow> \<not> lt x z)"

definition sorts :: "(('a \<Rightarrow> 'a \<Rightarrow> bool) \<Rightarrow> 'a list \<Rightarrow> 'a list) \<Rightarrow> bool" where
  "sorts f \<longleftrightarrow>
     (\<forall>lt xs. weak_order lt \<longrightarrow> mset (f lt xs) = mset xs \<and> sorted_wrt (\<lambda>x y. \<not> lt y x) (f lt xs))"

lemma sortsD:
  assumes "sorts f" "weak_order lt"
  shows "mset (f lt xs) = mset xs" "sorted_wrt (\<lambda>x y. \<not> lt y x) (f lt xs)"
  using assms by (simp_all add: sorts_def)

lemma weak_order_key:
  fixes f :: "'a \<Rightarrow> 'b::linorder"
  shows "weak_order (\<lambda>x y. f x < f y)" "weak_order (\<lambda>x y. f y < f x)"
  by (auto simp: weak_order_def)

text \<open>A SHA-256 digest has 32 bytes.\<close>

definition hash_ok :: "deps \<Rightarrow> bool" where
  "hash_ok D \<longleftrightarrow> (\<forall>s. length (Sum256 D s) = 32)"

text \<open>\<^verbatim>\<open>rand.Shuffle\<close> permutes.\<close>

definition shuffles :: "deps \<Rightarrow> bool" where
  "shuffles D \<longleftrightarrow> (\<forall>xs. mset (Shuffle D xs) = mset xs)"

text \<open>Comparing whole quantities compares the numbers they were made from.\<close>

definition quantity_ok :: "deps \<Rightarrow> bool" where
  "quantity_ok D \<longleftrightarrow>
     (\<forall>a b. in_int64 a \<longrightarrow> in_int64 b \<longrightarrow> QuantityCmp D (NewQuantity D a) (NewQuantity D b) = sgn (a - b))"

end
