(* ===== verification/Sample_Environment.thy ===== *)
theory Sample_Environment
  imports Environment
begin

text \<open>
  A concrete environment: an executable instance of the operations of external code that satisfies
  every law the development assumes of them, an API server without objects, and a small
  repository. The witnesses of the properties run on it.
\<close>

section \<open>External code\<close>

fun set_cond :: "Condition list \<Rightarrow> Condition \<Rightarrow> Condition list" where
  "set_cond [] c = [c]"
| "set_cond (x # xs) c = (if cType x = cType c then c # xs else x # set_cond xs c)"

fun insert_by :: "('a \<Rightarrow> 'a \<Rightarrow> bool) \<Rightarrow> 'a \<Rightarrow> 'a list \<Rightarrow> 'a list" where
  "insert_by lt x [] = [x]"
| "insert_by lt x (y # ys) = (if lt x y then x # y # ys else y # insert_by lt x ys)"

definition sort_by :: "('a \<Rightarrow> 'a \<Rightarrow> bool) \<Rightarrow> 'a list \<Rightarrow> 'a list" where
  "sort_by lt xs = foldr (insert_by lt) xs []"

definition sample_snapshot :: "string \<Rightarrow> resticSnapshot" where
  "sample_snapshot t =
     \<lparr>rs_ID = ''1a2b'', rs_LongID = ''1a2b3c4d'', rs_Time = t, rs_Hostname = ''db'', rs_Paths = [],
      rs_Tags = [], rs_Summary = \<lparr>TotalBytesProcessed = 2048, DataAddedPacked = 512\<rparr>\<rparr>"

text \<open>A bucket with one base backup and one WAL segment of 2026-05-01 under every prefix.\<close>

definition sample_client :: s3client where
  "sample_client =
     \<lparr>ListObjects = (\<lambda>bucket prefix recursive.
        [\<lparr>oi_Key = prefix @ ''base_1_backup_stop_sentinel.json'', oi_Size = 300,
          oi_LastModified = 1777593600 * Second, oi_Err = None\<rparr>,
         \<lparr>oi_Key = prefix @ ''000000010000000000000001.br'', oi_Size = 16777216,
          oi_LastModified = 1777593601 * Second, oi_Err = None\<rparr>]),
      GetObjectLockConfig = (\<lambda>bucket. Inr ''Enabled''),
      GetBucketEncryption = (\<lambda>bucket. Inr [''AES256'']),
      GetObject = (\<lambda>bucket key. Inr \<lparr>st_bytes = ''{}'', st_err = None\<rparr>)\<rparr>"

definition sample_deps :: deps where
  "sample_deps =
     \<lparr>FindStatusCondition = (\<lambda>cs t. List.find (\<lambda>c. cType c = t) cs),
      SetStatusCondition = set_cond,
      RemoveStatusCondition = (\<lambda>cs t. filter (\<lambda>c. cType c \<noteq> t) cs),
      NewQuantity = Quantity,
      QuantityCmp = (\<lambda>a b. case (a, b) of (Quantity x, Quantity y) \<Rightarrow> sgn (x - y)),
      QuantityString = (\<lambda>q. case q of Quantity x \<Rightarrow> itoa x),
      AsInt64 = (\<lambda>q. case q of Quantity x \<Rightarrow> if in_int64 x then Some x else None),
      KeyString = (\<lambda>n. nn_Namespace n @ ''/'' @ nn_Name n),
      Quote = (\<lambda>s. CHR 0x22 # s @ [CHR 0x22]),
      Sum256 = (\<lambda>s. replicate 32 (CHR 0x2A)),
      SortJobs = sort_by,
      SortObjects = sort_by,
      Shuffle = rev,
      UnmarshalSnapshots =
        (\<lambda>s out. if s = ''[1]''
                 then ([sample_snapshot ''2026-05-01T00:00:00Z'', sample_snapshot ''2026-04-01T00:00:00Z''], True)
                 else (out, False)),
      UnmarshalSentinel =
        (\<lambda>s. if s = ''{}''
             then Some \<lparr>ws_Version = 2, PgVersion = 160008, FinishTime = [], CompressedSize = 1000,
                        UncompressedSize = 4000\<rparr>
             else None),
      ParseURL = (\<lambda>s. Inr (''https'', TrimPrefix s ''https://'')),
      MinioNew = (\<lambda>host cr secure region. Inr sample_client)\<rparr>"

lemma find_set_cond:
  "List.find (\<lambda>x. cType x = t) (set_cond cs c) =
     (if t = cType c then Some c else List.find (\<lambda>x. cType x = t) cs)"
  by (induction cs) auto

lemma find_filter_cond:
  "List.find (\<lambda>x. cType x = t) (filter (\<lambda>x. cType x \<noteq> u) cs) =
     (if t = u then None else List.find (\<lambda>x. cType x = t) cs)"
  by (induction cs) auto

lemma sample_conditions_ok: "conditions_ok sample_deps"
  by (auto simp: conditions_ok_def view_def sample_deps_def find_set_cond find_filter_cond)

lemma mset_insert_by: "mset (insert_by lt x ys) = add_mset x (mset ys)"
  by (induction ys) auto

lemma set_insert_by: "set (insert_by lt x ys) = insert x (set ys)"
  by (induction ys) auto

lemma sorted_insert_by:
  assumes "weak_order lt" "sorted_wrt (\<lambda>x y. \<not> lt y x) ys"
  shows "sorted_wrt (\<lambda>x y. \<not> lt y x) (insert_by lt x ys)"
  using assms(2)
proof (induction ys)
  case (Cons y ys)
  show ?case
  proof (cases "lt x y")
    case True
    have trans: "lt z y" if "lt z x" for z
      using assms(1) True that unfolding weak_order_def by blast
    have "\<not> lt y y"
      using assms(1) unfolding weak_order_def by blast
    then have "\<not> lt z x" if "z \<in> set (y # ys)" for z
      using that Cons.prems trans [of z] by auto
    with True Cons.prems show ?thesis by simp
  next
    case False
    with Cons show ?thesis by (auto simp: set_insert_by)
  qed
qed simp

lemma sort_by_sorts: "sorts sort_by"
proof -
  have "mset (sort_by lt xs) = mset xs" for lt and xs :: "'a list"
    by (induction xs) (simp_all add: sort_by_def mset_insert_by)
  moreover have "sorted_wrt (\<lambda>x y. \<not> lt y x) (sort_by lt xs)" if "weak_order lt" for lt and xs :: "'a list"
    using that by (induction xs) (simp_all add: sort_by_def sorted_insert_by)
  ultimately show ?thesis
    by (simp add: sorts_def)
qed

lemma sample_deps_ok [simp]:
  "conditions_ok sample_deps" "sorts (SortJobs sample_deps)" "sorts (SortObjects sample_deps)"
  "hash_ok sample_deps" "shuffles sample_deps" "quantity_ok sample_deps"
  using sample_conditions_ok
  by (simp_all add: sample_deps_def sort_by_sorts hash_ok_def shuffles_def quantity_ok_def)

section \<open>An API server and a repository\<close>

definition sample_kube :: kube where
  "sample_kube =
     \<lparr>getBackupRepository = (\<lambda>n. Inl (NotFound ''not found'')),
      listBackupRepositories = Inr [],
      getSecret = (\<lambda>n. Inl (NotFound ''secret not found'')),
      listJobs = (\<lambda>ns ls. Inr []),
      listPods = (\<lambda>ns ls. Inr []),
      PodLogs = None,
      setJobOwner = (\<lambda>br j. Inr (j\<lparr>j_Owner := Some (br_Name br)\<rparr>)),
      setPVCOwner = (\<lambda>br p. Inr (p\<lparr>pvc_Owner := Some (br_Name br)\<rparr>)),
      createJob = (\<lambda>j. None),
      createPVC = (\<lambda>p. None),
      patchMetadata = (\<lambda>br k. Inr (br\<lparr>Annotations := filter (\<lambda>(a, v). a \<noteq> k) (Annotations br)\<rparr>)),
      patchStatus = (\<lambda>base br. Inr br)\<rparr>"

definition sample_secret :: SecretReference where
  "sample_secret = \<lparr>sr_Name = ''s3-creds'', sr_Namespace = ''db'', sr_KeyMapping = []\<rparr>"

definition sample_creds :: S3Credentials where
  "sample_creds = \<lparr>AccessKeyID = ''key'', SecretAccessKey = ''secret'', SessionToken = []\<rparr>"

definition sample_spec :: BackupRepositorySpec where
  "sample_spec =
     \<lparr>S3 = \<lparr>Endpoint = ''https://s3.example.com'', Region = ''eu'', Bucket = ''backups'', Prefix = ''pg'',
         CredentialsSecret = sample_secret, AdditionalSecrets = [], ExtraEnv = [],
         RequireObjectLock = True, RequireBucketEncryption = True\<rparr>,
      Format = BackupFormatWalg,
      ProbeInterval = 5 * Minute, MetadataValidationInterval = Hour,
      SampledRetrievalInterval = Some (24 * Hour), SampledRetrievalObjects = Some 5,
      FullRetrievalInterval = None, FullRetrievalStorageClass = None, FullRetrievalPVCSize = None,
      MaxBackupLag = 26 * Hour, ExpectedSizeBudget = None, AutoCleanStaleLocks = None\<rparr>"

definition sample_status :: BackupRepositoryStatus where
  "sample_status =
     \<lparr>ObservedGeneration = 1, Conditions = [], LastProbedAt = None, ClaimedLatestBackup = None,
      ClaimedLastSuccessfulBackup = None, DetectedFormat = [], DetectedVersion = [],
      ObservedInventory = None, ObservedGrowth = None, VerifiedLastValidationAt = None,
      VerifiedLastSampledRetrievalAt = None, LastFullRetrieval = None,
      LastForceRevalidatedAt = None, LastForcedE4At = None\<rparr>"

definition sample_br :: BackupRepository where
  "sample_br =
     \<lparr>br_Name = ''pg'', br_Namespace = [], Generation = 1, Annotations = [],
      Spec = sample_spec, Status = sample_status\<rparr>"

text \<open>A clock that reads the same instant everywhere.\<close>

definition frozen :: "time \<Rightarrow> clock" where
  "frozen t =
     \<lparr>now_stored = t, now_since = t, now_e2 = t, now_e2_name = t, now_e3 = t, now_e3_name = t,
      now_e4 = t, now_e4_name = t, now_status = t, now_metrics = t\<rparr>"

lemmas sample_defs =
  sample_client_def   sample_deps_def sample_kube_def sample_secret_def sample_spec_def sample_status_def sample_br_def
  frozen_def

end
