(* ===== verification/Conditions.thy ===== *)
theory Conditions
  imports Sample_Environment
begin

text \<open>
  The condition calculus of the BackupRepository controller
  (\<^verbatim>\<open>backuprepository_controller.go\<close>, from \<^verbatim>\<open>conditionInputs\<close> to \<^verbatim>\<open>rollupAND\<close>): how one reconcile turns
  its findings into the condition list, and how the rollups ProbeHealthy, ValidationHealthy and
  Healthy are computed from it.
\<close>

section \<open>Three-valued statuses\<close>

text \<open>
  False is below Unknown, Unknown below True: in this order the conjunction of statuses is their
  minimum, which is the abstract meaning of a rollup.
\<close>

fun status_rank :: "ConditionStatus \<Rightarrow> nat" where
  "status_rank ConditionFalse = 0"
| "status_rank ConditionUnknown = 1"
| "status_rank ConditionTrue = 2"

lemma status_rank_inj: "status_rank a = status_rank b \<longleftrightarrow> a = b"
  by (cases a; cases b) simp_all

instantiation ConditionStatus :: linorder
begin

definition less_eq_ConditionStatus :: "ConditionStatus \<Rightarrow> ConditionStatus \<Rightarrow> bool" where
  "a \<le> b \<longleftrightarrow> status_rank a \<le> status_rank b"

definition less_ConditionStatus :: "ConditionStatus \<Rightarrow> ConditionStatus \<Rightarrow> bool" where
  "a < b \<longleftrightarrow> status_rank a < status_rank b"

instance
  by standard (auto simp: less_eq_ConditionStatus_def less_ConditionStatus_def status_rank_inj)

end

lemma status_order [simp]:
  "ConditionFalse \<le> s" "s \<le> ConditionTrue"
  "ConditionTrue \<le> s \<longleftrightarrow> s = ConditionTrue" "s \<le> ConditionFalse \<longleftrightarrow> s = ConditionFalse"
  "ConditionUnknown \<le> s \<longleftrightarrow> s \<noteq> ConditionFalse"
  by (cases s; simp add: less_eq_ConditionStatus_def)+

section \<open>Building and writing conditions\<close>

definition plainCondition :: "ConditionStatus \<Rightarrow> string \<Rightarrow> string \<Rightarrow> Condition" where
  "plainCondition st reason message =
     \<lparr>cType = [], cStatus = st, cObservedGeneration = 0, cLastTransitionTime = zero_time,
      cReason = reason, cMessage = message\<rparr>"

definition condTrue :: "string \<Rightarrow> string \<Rightarrow> Condition" where
  "condTrue reason message = plainCondition ConditionTrue reason message"

definition condFalse :: "string \<Rightarrow> string \<Rightarrow> Condition" where
  "condFalse reason message = plainCondition ConditionFalse reason message"

definition condUnknown :: "string \<Rightarrow> string \<Rightarrow> Condition" where
  "condUnknown reason message = plainCondition ConditionUnknown reason message"

definition condFromBool :: "bool \<Rightarrow> string \<Rightarrow> string \<Rightarrow> Condition" where
  "condFromBool ok reason message =
     (if ok then condTrue reason message else condFalse reason message)"

definition setCondition :: "deps \<Rightarrow> Condition list \<Rightarrow> string \<Rightarrow> Condition option \<Rightarrow> Condition list" where
  "setCondition D cs condType c =
     (case c of None \<Rightarrow> cs | Some c \<Rightarrow> SetStatusCondition D cs (c\<lparr>cType := condType\<rparr>))"

definition removeCondition :: "deps \<Rightarrow> Condition list \<Rightarrow> string \<Rightarrow> Condition list" where
  "removeCondition D cs condType = RemoveStatusCondition D cs condType"

definition ifReachable :: "bool \<Rightarrow> Condition \<Rightarrow> Condition" where
  "ifReachable reachable c =
     (if \<not> reachable
      then condUnknown ReasonS3Unreachable ''skipped: phase-1 reachability failed'' else c)"

lemmas cond_defs [cond_simps] =
  plainCondition_def condTrue_def condFalse_def condUnknown_def condFromBool_def core_def

lemma core_update [simp]: "core (c\<lparr>cType := t\<rparr>) = core c"
  by (simp add: core_def)

lemma view_setCondition [cond_simps]:
  assumes "conditions_ok D"
  shows "view D (setCondition D cs t (Some c)) = (view D cs)(t \<mapsto> core c)"
    "view D (setCondition D cs t None) = view D cs"
  using assms by (simp_all add: setCondition_def conditions_ok_def)

lemma view_removeCondition [cond_simps]:
  "conditions_ok D \<Longrightarrow> view D (removeCondition D cs t) = (view D cs)(t := None)"
  by (simp add: removeCondition_def conditions_ok_def)

section \<open>Rollups\<close>

record rollup_state =
  anyFalse :: bool
  anyUnknown :: bool
  anyTrue :: bool
  falseMsg :: string
  unknownMsg :: string

definition rollup_step :: "deps \<Rightarrow> Condition list \<Rightarrow> rollup_state \<Rightarrow> string \<Rightarrow> rollup_state" where
  "rollup_step D cs r t =
     (case FindStatusCondition D cs t of
        None \<Rightarrow> r
      | Some c \<Rightarrow>
          (case cStatus c of
             ConditionFalse \<Rightarrow>
               r\<lparr>anyFalse := True,
                 falseMsg := (if falseMsg r = [] then t @ '': '' @ cMessage c else falseMsg r)\<rparr>
           | ConditionUnknown \<Rightarrow>
               r\<lparr>anyUnknown := True,
                 unknownMsg := (if unknownMsg r = [] then t @ '': '' @ cMessage c else unknownMsg r)\<rparr>
           | ConditionTrue \<Rightarrow> r\<lparr>anyTrue := True\<rparr>))"

definition rollupAND :: "deps \<Rightarrow> Condition list \<Rightarrow> string list \<Rightarrow> Condition" where
  "rollupAND D cs condTypes =
     (let r = foldl (rollup_step D cs)
                \<lparr>anyFalse = False, anyUnknown = False, anyTrue = False,
                 falseMsg = [], unknownMsg = []\<rparr> condTypes
      in if anyFalse r then plainCondition ConditionFalse ''RolledUp'' (falseMsg r)
         else if anyUnknown r
           then plainCondition ConditionUnknown ReasonLayerTwoNotYetAvailable (unknownMsg r)
         else if anyTrue r
           then plainCondition ConditionTrue ReasonProbeSucceeded ''all required sub-conditions True''
         else plainCondition ConditionUnknown ReasonLayerTwoNotYetAvailable
                ''no sub-conditions present'')"

text \<open>The status of a condition type in a list, and the set of statuses of several types.\<close>

definition status_of :: "deps \<Rightarrow> Condition list \<Rightarrow> string \<Rightarrow> ConditionStatus option" where
  "status_of D cs t = map_option fst (view D cs t)"

definition statuses :: "deps \<Rightarrow> Condition list \<Rightarrow> string list \<Rightarrow> ConditionStatus set" where
  "statuses D cs ts = {s. \<exists>t \<in> set ts. status_of D cs t = Some s}"

lemma status_of_Find: "status_of D cs t = map_option cStatus (FindStatusCondition D cs t)"
  by (simp add: status_of_def view_def core_def option.map_comp comp_def)

lemma statuses_Nil [simp]: "statuses D cs [] = {}"
  by (simp add: statuses_def)

lemma statuses_Cons [simp]:
  "statuses D cs (t # ts) = set_option (status_of D cs t) \<union> statuses D cs ts"
  by (auto simp: statuses_def)

lemma rollup_step_flags:
  "anyFalse (rollup_step D cs r t) \<longleftrightarrow> anyFalse r \<or> status_of D cs t = Some ConditionFalse"
  "anyUnknown (rollup_step D cs r t) \<longleftrightarrow> anyUnknown r \<or> status_of D cs t = Some ConditionUnknown"
  "anyTrue (rollup_step D cs r t) \<longleftrightarrow> anyTrue r \<or> status_of D cs t = Some ConditionTrue"
  by (auto simp: rollup_step_def status_of_Find split: option.splits ConditionStatus.splits)

lemma rollup_fold_flags:
  "anyFalse (foldl (rollup_step D cs) r ts) \<longleftrightarrow> anyFalse r \<or> ConditionFalse \<in> statuses D cs ts"
  "anyUnknown (foldl (rollup_step D cs) r ts) \<longleftrightarrow> anyUnknown r \<or> ConditionUnknown \<in> statuses D cs ts"
  "anyTrue (foldl (rollup_step D cs) r ts) \<longleftrightarrow> anyTrue r \<or> ConditionTrue \<in> statuses D cs ts"
  by (induction ts arbitrary: r) (auto simp: rollup_step_flags)

lemma finite_statuses [simp]: "finite (statuses D cs ts)"
  by (induction ts) simp_all

definition conjunction :: "ConditionStatus set \<Rightarrow> ConditionStatus" where
  "conjunction S = (if S = {} then ConditionUnknown else Min S)"

lemma conjunction_cases:
  assumes "finite S"
  shows "conjunction S =
    (if ConditionFalse \<in> S then ConditionFalse
     else if ConditionUnknown \<in> S then ConditionUnknown
     else if ConditionTrue \<in> S then ConditionTrue else ConditionUnknown)"
proof (cases "S = {}")
  case False
  then obtain s where "s \<in> S"
    by blast
  then have "ConditionFalse \<in> S \<or> ConditionUnknown \<in> S \<or> ConditionTrue \<in> S"
    by (cases s) auto
  then consider (f) "ConditionFalse \<in> S" | (u) "ConditionUnknown \<in> S" "ConditionFalse \<notin> S"
    | (t) "ConditionTrue \<in> S" "ConditionFalse \<notin> S" "ConditionUnknown \<notin> S"
    by blast
  then show ?thesis
  proof cases
    case f
    with assms False show ?thesis
      by (simp add: conjunction_def Min_eqI)
  next
    case u
    then have "Min S = ConditionUnknown"
      using assms by (intro Min_eqI) auto
    with u False show ?thesis
      by (simp add: conjunction_def)
  next
    case t
    have "s = ConditionTrue" if "s \<in> S" for s
      using t that by (cases s) auto
    then have "Min S = ConditionTrue"
      using assms t(1) by (intro Min_eqI) auto
    with t False show ?thesis
      by (simp add: conjunction_def)
  qed
qed (simp add: conjunction_def)

lemma rollupAND_status: "cStatus (rollupAND D cs ts) = conjunction (statuses D cs ts)"
  by (simp add: rollupAND_def Let_def rollup_fold_flags conjunction_cases plainCondition_def)

lemma conjunction_True_iff:
  assumes "finite S"
  shows "conjunction S = ConditionTrue \<longleftrightarrow> S \<noteq> {} \<and> (\<forall>s \<in> S. s = ConditionTrue)"
proof -
  have "(\<forall>s \<in> S. s = ConditionTrue) \<longleftrightarrow> ConditionFalse \<notin> S \<and> ConditionUnknown \<notin> S"
    by (metis ConditionStatus.distinct(1,3) ConditionStatus.exhaust)
  then show ?thesis
    using assms by (auto simp: conjunction_cases)
qed

lemma conjunction_False_iff:
  "finite S \<Longrightarrow> conjunction S = ConditionFalse \<longleftrightarrow> ConditionFalse \<in> S"
  by (auto simp: conjunction_cases)

section \<open>Conditions computed from the status\<close>

definition computeSizeWithinBudget :: "deps \<Rightarrow> BackupRepository \<Rightarrow> Quantity \<Rightarrow> Condition" where
  "computeSizeWithinBudget D br budget =
     (case ObservedInventory (Status br) of
        None \<Rightarrow>
          condUnknown ReasonLayerTwoNotYetAvailable
            ''observedInventory not yet recorded; first inventory probe pending''
      | Some inventory \<Rightarrow>
          let have = TotalBytes inventory in
          if QuantityCmp D have budget \<le> 0
          then condTrue ReasonProbeSucceeded
                 (''inventory '' @ QuantityString D have @ '' within budget '' @ QuantityString D budget)
          else condFalse ReasonSizeBudgetExceeded
                 (''inventory '' @ QuantityString D have @ '' exceeds budget '' @ QuantityString D budget))"

definition computeBackupCurrent :: "BackupRepository \<Rightarrow> time \<Rightarrow> Condition" where
  "computeBackupCurrent br now =
     (case ClaimedLastSuccessfulBackup (Status br) of
        None \<Rightarrow> condFalse ReasonRepositoryEmpty ''no backup detected in repository''
      | Some lastBackup \<Rightarrow>
          let lag = Sub now lastBackup; age = duration_string (round_duration lag Second);
              bound = duration_string (MaxBackupLag (Spec br)) in
          if lag \<le> MaxBackupLag (Spec br)
          then condTrue ReasonProbeSucceeded
                 (''most recent backup is '' @ age @ '' old (within '' @ bound @ '')'')
          else condFalse ReasonBackupLagExceeded
                 (''most recent backup is '' @ age @ '' old (exceeds '' @ bound @ '')''))"

section \<open>The condition set of one reconcile\<close>

record conditionInputs =
  reachable :: "Condition option"
  bucketSecurityValid :: "Condition option"
  backupCurrent :: "Condition option"
  metadataValid :: "Condition option"
  e2JobActive :: bool
  sampledIntegrityValid :: "Condition option"
  e3JobActive :: bool
  fullRetrievalCompleted :: "Condition option"
  e4JobActive :: bool

abbreviation orElse :: "Condition option \<Rightarrow> Condition \<Rightarrow> Condition option" where
  "orElse c d \<equiv> Some (case c of Some x \<Rightarrow> x | None \<Rightarrow> d)"

definition emitE1 :: "deps \<Rightarrow> conditionInputs \<Rightarrow> Condition list \<Rightarrow> Condition list" where
  "emitE1 D inp cs =
     (let cs = setCondition D cs ConditionReachable (reachable inp);
          notYet = condUnknown ReasonProbeSucceeded ''not yet evaluated this cycle'';
          cs = setCondition D cs ConditionBucketSecurityValid (orElse (bucketSecurityValid inp) notYet)
      in setCondition D cs ConditionBackupCurrent (orElse (backupCurrent inp) notYet))"

definition emitSize :: "deps \<Rightarrow> BackupRepository \<Rightarrow> Condition list \<Rightarrow> Condition list" where
  "emitSize D br cs =
     (case ExpectedSizeBudget (Spec br) of
        Some budget \<Rightarrow>
          setCondition D cs ConditionSizeWithinBudget (Some (computeSizeWithinBudget D br budget))
      | None \<Rightarrow> removeCondition D cs ConditionSizeWithinBudget)"

definition pending :: "bool \<Rightarrow> string \<Rightarrow> string \<Rightarrow> Condition" where
  "pending active inFlight never =
     condUnknown ReasonLayerTwoNotYetAvailable (if active then inFlight else never)"

definition emitE2 :: "deps \<Rightarrow> conditionInputs \<Rightarrow> Condition list \<Rightarrow> Condition list" where
  "emitE2 D inp cs =
     setCondition D cs ConditionMetadataValid
       (orElse (metadataValid inp)
          (pending (e2JobActive inp)
             ''E2 validation Job in flight; result will land on next reconcile''
             ''no E2 validation has completed yet''))"

definition emitE3 :: "deps \<Rightarrow> BackupRepository \<Rightarrow> conditionInputs \<Rightarrow> Condition list \<Rightarrow> Condition list" where
  "emitE3 D br inp cs =
     (if SampledRetrievalInterval (Spec br) \<noteq> None
      then setCondition D cs ConditionSampledIntegrityValid
             (orElse (sampledIntegrityValid inp)
                (pending (e3JobActive inp)
                   ''E3 sampled retrieval Job in flight; result will land on next reconcile''
                   ''no E3 sampled retrieval has completed yet''))
      else removeCondition D cs ConditionSampledIntegrityValid)"

definition e4Meaningful :: "BackupRepository \<Rightarrow> conditionInputs \<Rightarrow> bool" where
  "e4Meaningful br inp \<longleftrightarrow>
     FullRetrievalInterval (Spec br) \<noteq> None \<or> LastFullRetrieval (Status br) \<noteq> None \<or> e4JobActive inp"

definition emitE4 :: "deps \<Rightarrow> BackupRepository \<Rightarrow> conditionInputs \<Rightarrow> Condition list \<Rightarrow> Condition list" where
  "emitE4 D br inp cs =
     (if e4Meaningful br inp
      then (case fullRetrievalCompleted inp of
              Some c \<Rightarrow> setCondition D cs ConditionFullRetrievalCompleted (Some c)
            | None \<Rightarrow>
                if e4JobActive inp
                then setCondition D cs ConditionFullRetrievalCompleted
                       (Some (condUnknown ReasonLayerTwoNotYetAvailable
                          ''E4 full retrieval Job in flight; result will land on next reconcile''))
                else (case FindStatusCondition D cs ConditionFullRetrievalCompleted of
                        Some existing \<Rightarrow>
                          setCondition D cs ConditionFullRetrievalCompleted (Some existing)
                      | None \<Rightarrow>
                          setCondition D cs ConditionFullRetrievalCompleted
                            (Some (condUnknown ReasonLayerTwoNotYetAvailable
                               ''no E4 full retrieval has completed yet''))))
      else removeCondition D cs ConditionFullRetrievalCompleted)"

definition probe_types :: "string list" where
  "probe_types = [ConditionReachable, ConditionBucketSecurityValid, ConditionBackupCurrent,
     ConditionSizeWithinBudget]"

definition validation_types :: "string list" where
  "validation_types = [ConditionMetadataValid, ConditionSampledIntegrityValid,
     ConditionFullRetrievalCompleted]"

definition emitRollups :: "deps \<Rightarrow> Condition list \<Rightarrow> Condition list" where
  "emitRollups D cs =
     (let probeHealthy = rollupAND D cs probe_types;
          cs = setCondition D cs ConditionProbeHealthy (Some probeHealthy);
          validationHealthy = rollupAND D cs validation_types;
          cs = setCondition D cs ConditionValidationHealthy (Some validationHealthy);
          overall = rollupAND D cs [ConditionProbeHealthy, ConditionValidationHealthy]
      in setCondition D cs ConditionHealthy (Some overall))"

definition applyConditions :: "deps \<Rightarrow> BackupRepository \<Rightarrow> conditionInputs \<Rightarrow> BackupRepository" where
  "applyConditions D br inp =
     (let cs = Conditions (Status br);
          cs = emitE1 D inp cs;
          cs = emitSize D br cs;
          cs = emitE2 D inp cs;
          cs = emitE3 D br inp cs;
          cs = emitE4 D br inp cs;
          cs = emitRollups D cs
      in br\<lparr>Status := (Status br)\<lparr>Conditions := cs\<rparr>\<rparr>)"

section \<open>What the condition set says\<close>

text \<open>The status list of a repository, and its condition types through their lookup.\<close>

abbreviation conds :: "BackupRepository \<Rightarrow> Condition list" where
  "conds br \<equiv> Conditions (Status br)"

abbreviation rollup_types :: "string set" where
  "rollup_types \<equiv> {ConditionProbeHealthy, ConditionValidationHealthy, ConditionHealthy}"

abbreviation sub_types :: "string list" where
  "sub_types \<equiv> probe_types @ validation_types"

lemmas type_list_defs = probe_types_def validation_types_def

lemma statuses_cong:
  "(\<And>t. t \<in> set ts \<Longrightarrow> view D cs t = view D cs' t) \<Longrightarrow> statuses D cs ts = statuses D cs' ts"
  by (auto simp: statuses_def status_of_def)

lemma statuses_append [simp]: "statuses D cs (ts @ us) = statuses D cs ts \<union> statuses D cs us"
  by (induction ts) auto

lemma statuses_nonempty: "t \<in> set ts \<Longrightarrow> view D cs t \<noteq> None \<Longrightarrow> statuses D cs ts \<noteq> {}"
  by (auto simp: statuses_def status_of_def)

lemma conjunction_Un:
  assumes "finite A" "finite B" "A \<noteq> {}" "B \<noteq> {}"
  shows "conjunction {conjunction A, conjunction B} = conjunction (A \<union> B)"
  using assms by (simp add: conjunction_def Min_Un)

lemma status_of_set [cond_simps]:
  "conditions_ok D \<Longrightarrow>
   status_of D (setCondition D cs t (Some c)) u = (if u = t then Some (cStatus c) else status_of D cs u)"
  by (simp add: status_of_def view_setCondition core_def)

lemma view_emitE1 [cond_simps]:
  "conditions_ok D \<Longrightarrow>
   view D (emitE1 D inp cs) =
     (view D cs)
       (ConditionReachable :=
          (case reachable inp of None \<Rightarrow> view D cs ConditionReachable | Some c \<Rightarrow> Some (core c)),
        ConditionBucketSecurityValid \<mapsto>
          core (case bucketSecurityValid inp of Some c \<Rightarrow> c
                | None \<Rightarrow> condUnknown ReasonProbeSucceeded ''not yet evaluated this cycle''),
        ConditionBackupCurrent \<mapsto>
          core (case backupCurrent inp of Some c \<Rightarrow> c
                | None \<Rightarrow> condUnknown ReasonProbeSucceeded ''not yet evaluated this cycle''))"
  by (cases "reachable inp") (simp_all add: emitE1_def Let_def view_setCondition)

lemma view_emitSize [cond_simps]:
  "conditions_ok D \<Longrightarrow>
   view D (emitSize D br cs) =
     (view D cs)(ConditionSizeWithinBudget :=
        map_option (\<lambda>b. core (computeSizeWithinBudget D br b)) (ExpectedSizeBudget (Spec br)))"
  by (simp add: emitSize_def view_setCondition view_removeCondition split: option.split)

lemma view_emitE2 [cond_simps]:
  "conditions_ok D \<Longrightarrow>
   view D (emitE2 D inp cs) =
     (view D cs)(ConditionMetadataValid \<mapsto>
        core (case metadataValid inp of Some c \<Rightarrow> c
              | None \<Rightarrow> pending (e2JobActive inp)
                  ''E2 validation Job in flight; result will land on next reconcile''
                  ''no E2 validation has completed yet''))"
  by (simp add: emitE2_def view_setCondition)

lemma view_emitE3 [cond_simps]:
  "conditions_ok D \<Longrightarrow>
   view D (emitE3 D br inp cs) =
     (view D cs)(ConditionSampledIntegrityValid :=
        (if SampledRetrievalInterval (Spec br) = None then None
         else Some (core (case sampledIntegrityValid inp of Some c \<Rightarrow> c
                | None \<Rightarrow> pending (e3JobActive inp)
                    ''E3 sampled retrieval Job in flight; result will land on next reconcile''
                    ''no E3 sampled retrieval has completed yet''))))"
  by (auto simp: emitE3_def view_setCondition view_removeCondition)

lemma view_emitE4 [cond_simps]:
  "conditions_ok D \<Longrightarrow>
   view D (emitE4 D br inp cs) =
     (view D cs)(ConditionFullRetrievalCompleted :=
        (if \<not> e4Meaningful br inp then None
         else (case fullRetrievalCompleted inp of
                 Some c \<Rightarrow> Some (core c)
               | None \<Rightarrow>
                   if e4JobActive inp
                   then Some (core (condUnknown ReasonLayerTwoNotYetAvailable
                     ''E4 full retrieval Job in flight; result will land on next reconcile''))
                   else (case view D cs ConditionFullRetrievalCompleted of
                           Some x \<Rightarrow> Some x
                         | None \<Rightarrow> Some (core (condUnknown ReasonLayerTwoNotYetAvailable
                             ''no E4 full retrieval has completed yet''))))))"
  by (auto simp: emitE4_def view_setCondition view_removeCondition view_def [of D cs]
      split: option.splits)

lemma view_emitRollups:
  assumes "conditions_ok D" "t \<notin> rollup_types"
  shows "view D (emitRollups D cs) t = view D cs t"
  using assms by (simp add: emitRollups_def Let_def view_setCondition)

lemma sub_types_not_rollups: "t \<in> set sub_types \<Longrightarrow> t \<notin> rollup_types"
  by (auto simp: type_list_defs)

lemma status_emitRollups:
  assumes ok: "conditions_ok D"
  shows
    "status_of D (emitRollups D cs) ConditionProbeHealthy = Some (conjunction (statuses D cs probe_types))"
    "status_of D (emitRollups D cs) ConditionValidationHealthy =
       Some (conjunction (statuses D cs validation_types))"
    "status_of D (emitRollups D cs) ConditionHealthy =
       Some (conjunction {conjunction (statuses D cs probe_types),
                          conjunction (statuses D cs validation_types)})"
proof -
  have unchanged: "statuses D (setCondition D cs ConditionProbeHealthy (Some c)) validation_types =
      statuses D cs validation_types" for c
    using ok by (intro statuses_cong) (auto simp: view_setCondition validation_types_def)
  show "status_of D (emitRollups D cs) ConditionProbeHealthy = Some (conjunction (statuses D cs probe_types))"
    "status_of D (emitRollups D cs) ConditionValidationHealthy =
       Some (conjunction (statuses D cs validation_types))"
    "status_of D (emitRollups D cs) ConditionHealthy =
       Some (conjunction {conjunction (statuses D cs probe_types),
                          conjunction (statuses D cs validation_types)})"
    using ok by (simp_all add: emitRollups_def Let_def status_of_set rollupAND_status unchanged
        insert_commute)
qed

text \<open>The condition list after the sub-conditions are written, before the rollups.\<close>

definition subConditions :: "deps \<Rightarrow> BackupRepository \<Rightarrow> conditionInputs \<Rightarrow> Condition list" where
  "subConditions D br inp =
     emitE4 D br inp (emitE3 D br inp (emitE2 D inp (emitSize D br (emitE1 D inp (conds br)))))"

lemma conds_applyConditions: "conds (applyConditions D br inp) = emitRollups D (subConditions D br inp)"
  by (simp add: applyConditions_def subConditions_def Let_def)

lemma applyConditions_frame [simp]:
  "Spec (applyConditions D br inp) = Spec br"
  "br_Name (applyConditions D br inp) = br_Name br"
  "Annotations (applyConditions D br inp) = Annotations br"
  "Generation (applyConditions D br inp) = Generation br"
  "ObservedGeneration (Status (applyConditions D br inp)) = ObservedGeneration (Status br)"
  "LastProbedAt (Status (applyConditions D br inp)) = LastProbedAt (Status br)"
  "ClaimedLatestBackup (Status (applyConditions D br inp)) = ClaimedLatestBackup (Status br)"
  "ClaimedLastSuccessfulBackup (Status (applyConditions D br inp)) = ClaimedLastSuccessfulBackup (Status br)"
  "DetectedFormat (Status (applyConditions D br inp)) = DetectedFormat (Status br)"
  "DetectedVersion (Status (applyConditions D br inp)) = DetectedVersion (Status br)"
  "ObservedInventory (Status (applyConditions D br inp)) = ObservedInventory (Status br)"
  "ObservedGrowth (Status (applyConditions D br inp)) = ObservedGrowth (Status br)"
  "VerifiedLastValidationAt (Status (applyConditions D br inp)) = VerifiedLastValidationAt (Status br)"
  "VerifiedLastSampledRetrievalAt (Status (applyConditions D br inp)) = VerifiedLastSampledRetrievalAt (Status br)"
  "LastFullRetrieval (Status (applyConditions D br inp)) = LastFullRetrieval (Status br)"
  "LastForceRevalidatedAt (Status (applyConditions D br inp)) = LastForceRevalidatedAt (Status br)"
  "LastForcedE4At (Status (applyConditions D br inp)) = LastForcedE4At (Status br)"
  by (simp_all add: applyConditions_def Let_def)

lemma view_subConditions:
  "conditions_ok D \<Longrightarrow> t \<notin> rollup_types \<Longrightarrow>
   view D (conds (applyConditions D br inp)) t = view D (subConditions D br inp) t"
  unfolding conds_applyConditions by (rule view_emitRollups)

lemma statuses_subConditions:
  "conditions_ok D \<Longrightarrow> set ts \<subseteq> set sub_types \<Longrightarrow>
   statuses D (conds (applyConditions D br inp)) ts = statuses D (subConditions D br inp) ts"
  by (intro statuses_cong view_subConditions sub_types_not_rollups) auto

lemma applyConditions_rollups:
  fixes br
  assumes ok: "conditions_ok D" and r: "reachable inp \<noteq> None"
  defines "cs' \<equiv> conds (applyConditions D br inp)"
  shows
    "status_of D cs' ConditionProbeHealthy = Some (conjunction (statuses D cs' probe_types))"
    "status_of D cs' ConditionValidationHealthy = Some (conjunction (statuses D cs' validation_types))"
    "status_of D cs' ConditionHealthy = Some (conjunction (statuses D cs' sub_types))"
proof -
  let ?cs = "subConditions D br inp"
  have eq: "statuses D cs' probe_types = statuses D ?cs probe_types"
    "statuses D cs' validation_types = statuses D ?cs validation_types"
    unfolding cs'_def using ok by (auto intro!: statuses_subConditions)
  have "statuses D ?cs probe_types \<noteq> {}" "statuses D ?cs validation_types \<noteq> {}"
    using ok r statuses_nonempty [of ConditionReachable probe_types D ?cs]
      statuses_nonempty [of ConditionMetadataValid validation_types D ?cs]
    by (auto simp: subConditions_def cond_simps type_list_defs split: option.splits)
  then show
    "status_of D cs' ConditionProbeHealthy = Some (conjunction (statuses D cs' probe_types))"
    "status_of D cs' ConditionValidationHealthy = Some (conjunction (statuses D cs' validation_types))"
    "status_of D cs' ConditionHealthy = Some (conjunction (statuses D cs' sub_types))"
    using status_emitRollups [OF ok, of ?cs]
    by (simp_all add: eq conjunction_Un) (simp_all add: cs'_def conds_applyConditions)
qed

section \<open>Properties\<close>

lemma rollup_falseMsg:
  "anyFalse (foldl (rollup_step D cs) r ts) \<Longrightarrow> (anyFalse r \<longleftrightarrow> falseMsg r \<noteq> []) \<Longrightarrow>
   falseMsg (foldl (rollup_step D cs) r ts) = falseMsg r \<and> anyFalse r \<or>
   (\<exists>t \<in> set ts. \<exists>c. FindStatusCondition D cs t = Some c \<and> cStatus c = ConditionFalse \<and>
      falseMsg (foldl (rollup_step D cs) r ts) = t @ '': '' @ cMessage c)"
proof (induction ts arbitrary: r)
  case (Cons t ts)
  let ?r = "rollup_step D cs r t"
  have inv: "anyFalse ?r \<longleftrightarrow> falseMsg ?r \<noteq> []"
    and new: "anyFalse ?r \<Longrightarrow> falseMsg ?r = falseMsg r \<and> anyFalse r \<or>
      (\<exists>c. FindStatusCondition D cs t = Some c \<and> cStatus c = ConditionFalse \<and> falseMsg ?r = t @ '': '' @ cMessage c)"
    using Cons.prems(2) by (auto simp: rollup_step_def split: option.splits ConditionStatus.splits)
  show ?case
    using Cons.IH [of ?r] Cons.prems(1) inv new by auto
qed simp

text \<open>
  C28: \<^verbatim>\<open>rollupAND\<close> computes the conjunction of the present conditions, False below Unknown below True and
  Unknown if none is present, in one pass over the types; and when it is False its message names a type that is
  False together with that condition's own message.
\<close>

theorem rollupAND_conjunction:
  "cStatus (rollupAND D cs ts) = conjunction (statuses D cs ts) \<and>
   (cStatus (rollupAND D cs ts) = ConditionFalse \<longrightarrow>
      (\<exists>t \<in> set ts. \<exists>c. FindStatusCondition D cs t = Some c \<and> cStatus c = ConditionFalse \<and>
         cMessage (rollupAND D cs ts) = t @ '': '' @ cMessage c))"
proof -
  let ?r0 = "\<lparr>anyFalse = False, anyUnknown = False, anyTrue = False, falseMsg = [], unknownMsg = []\<rparr>"
  have "\<exists>t \<in> set ts. \<exists>c. FindStatusCondition D cs t = Some c \<and> cStatus c = ConditionFalse \<and>
      cMessage (rollupAND D cs ts) = t @ '': '' @ cMessage c" if "cStatus (rollupAND D cs ts) = ConditionFalse"
  proof -
    have any: "anyFalse (foldl (rollup_step D cs) ?r0 ts)"
      using that by (auto simp: rollupAND_def Let_def plainCondition_def split: if_splits)
    then have "cMessage (rollupAND D cs ts) = falseMsg (foldl (rollup_step D cs) ?r0 ts)"
      by (simp add: rollupAND_def plainCondition_def)
    with any show ?thesis
      using rollup_falseMsg [of D cs ?r0 ts] by simp
  qed
  then show ?thesis
    using rollupAND_status by blast
qed

theorem rollupAND_conjunction_witness:
  "cStatus (rollupAND sample_deps [(condTrue [] [])\<lparr>cType := ''A''\<rparr>, (condFalse [] ''x'')\<lparr>cType := ''B''\<rparr>] [''A'', ''B'', ''C'']) =
     ConditionFalse \<and>
   (\<exists>t \<in> set [''A'', ''B'', ''C'']. \<exists>c.
      FindStatusCondition sample_deps [(condTrue [] [])\<lparr>cType := ''A''\<rparr>, (condFalse [] ''x'')\<lparr>cType := ''B''\<rparr>] t = Some c \<and>
      cMessage (rollupAND sample_deps [(condTrue [] [])\<lparr>cType := ''A''\<rparr>, (condFalse [] ''x'')\<lparr>cType := ''B''\<rparr>]
        [''A'', ''B'', ''C'']) = t @ '': '' @ cMessage c)"
proof -
  have "cStatus (rollupAND sample_deps [(condTrue [] [])\<lparr>cType := ''A''\<rparr>, (condFalse [] ''x'')\<lparr>cType := ''B''\<rparr>]
      [''A'', ''B'', ''C'']) = ConditionFalse"
    by code_simp
  then show ?thesis
    using rollupAND_conjunction [of sample_deps "[(condTrue [] [])\<lparr>cType := ''A''\<rparr>, (condFalse [] ''x'')\<lparr>cType := ''B''\<rparr>]"
        "[''A'', ''B'', ''C'']"] by blast
qed

definition required_types :: "BackupRepositorySpec \<Rightarrow> string list" where
  "required_types spec =
     [ConditionReachable, ConditionBucketSecurityValid, ConditionBackupCurrent, ConditionMetadataValid]
     @ (if ExpectedSizeBudget spec = None then [] else [ConditionSizeWithinBudget])
     @ (if SampledRetrievalInterval spec = None then [] else [ConditionSampledIntegrityValid])
     @ (if FullRetrievalInterval spec = None then [] else [ConditionFullRetrievalCompleted])"

lemma required_present:
  assumes "conditions_ok D" "reachable inp \<noteq> None" "t \<in> set (required_types (Spec br))"
  shows "t \<in> set sub_types \<and> view D (conds (applyConditions D br inp)) t \<noteq> None"
proof -
  have t: "t \<in> set sub_types"
    using assms(3) by (auto simp: required_types_def type_list_defs split: if_splits)
  have present: "view D (subConditions D br inp) ConditionReachable \<noteq> None"
    "view D (subConditions D br inp) ConditionBucketSecurityValid \<noteq> None"
    "view D (subConditions D br inp) ConditionBackupCurrent \<noteq> None"
    "view D (subConditions D br inp) ConditionMetadataValid \<noteq> None"
    "ExpectedSizeBudget (Spec br) \<noteq> None \<Longrightarrow> view D (subConditions D br inp) ConditionSizeWithinBudget \<noteq> None"
    "SampledRetrievalInterval (Spec br) \<noteq> None \<Longrightarrow> view D (subConditions D br inp) ConditionSampledIntegrityValid \<noteq> None"
    "FullRetrievalInterval (Spec br) \<noteq> None \<Longrightarrow> view D (subConditions D br inp) ConditionFullRetrievalCompleted \<noteq> None"
    using assms(1,2)
    by (auto simp: subConditions_def view_emitE1 view_emitSize view_emitE2 view_emitE3 view_emitE4 e4Meaningful_def core_def
        split: option.splits)
  have "view D (subConditions D br inp) t \<noteq> None"
    using assms(3) present by (auto simp: required_types_def split: if_splits)
  with t show ?thesis
    using view_subConditions [OF assms(1) sub_types_not_rollups [OF t]] by simp
qed

text \<open>
  The strict contract. After a cycle that evaluated reachability, Healthy is True only if every condition the
  spec asks for is present and True: reachability, bucket security, backup freshness and metadata
  validity always, the size budget, the sampled and the full retrieval when the spec sets them;
  and no condition of either rollup is False or Unknown.
\<close>

theorem healthy_strict:
  assumes "conditions_ok D" "reachable inp \<noteq> None"
    and "status_of D (conds (applyConditions D br inp)) ConditionHealthy = Some ConditionTrue"
  shows "(\<forall>t \<in> set (required_types (Spec br)).
      status_of D (conds (applyConditions D br inp)) t = Some ConditionTrue) \<and>
    (\<forall>t \<in> set (probe_types @ validation_types).
      status_of D (conds (applyConditions D br inp)) t \<in> {None, Some ConditionTrue})"
proof -
  let ?cs = "conds (applyConditions D br inp)"
  have "conjunction (statuses D ?cs sub_types) = ConditionTrue"
    using applyConditions_rollups(3) [OF assms(1,2), of br] assms(3) by simp
  then have all: "s = ConditionTrue" if "t \<in> set sub_types" "status_of D ?cs t = Some s" for s t
    using that conjunction_True_iff [OF finite_statuses, of D ?cs sub_types] unfolding statuses_def by blast
  moreover have "status_of D ?cs t \<noteq> None \<and> t \<in> set sub_types" if "t \<in> set (required_types (Spec br))" for t
    using required_present [OF assms(1,2) that] by (simp add: status_of_def)
  ultimately show ?thesis
    by (metis insertCI not_None_eq)
qed

definition healthy_inputs :: conditionInputs where
  "healthy_inputs =
     \<lparr>reachable = Some (condTrue [] []), bucketSecurityValid = Some (condTrue [] []),
      backupCurrent = Some (condTrue [] []), metadataValid = Some (condTrue [] []), e2JobActive = False,
      sampledIntegrityValid = Some (condTrue [] []), e3JobActive = False,
      fullRetrievalCompleted = None, e4JobActive = False\<rparr>"

theorem healthy_strict_witness:
  "status_of sample_deps (conds (applyConditions sample_deps sample_br healthy_inputs)) ConditionSampledIntegrityValid =
     Some ConditionTrue \<and> ConditionSampledIntegrityValid \<in> set (required_types (Spec sample_br))"
proof -
  have "status_of sample_deps (conds (applyConditions sample_deps sample_br healthy_inputs)) ConditionHealthy =
      Some ConditionTrue"
    by code_simp
  moreover have "ConditionSampledIntegrityValid \<in> set (required_types (Spec sample_br))"
    by code_simp
  ultimately show ?thesis
    using healthy_strict [of sample_deps healthy_inputs sample_br] by (simp add: healthy_inputs_def)
qed

end
