(* ===== verification/Output_Parsing.thy ===== *)
theory Output_Parsing
  imports Sample_Environment
begin

text \<open>
  What the controller reads out of a validator's logs: the snapshot list that \<^verbatim>\<open>restic snapshots
  --json\<close> prints between other lines (\<^verbatim>\<open>e2_output.go\<close>) and the STATS line of a full retrieval
  (\<^verbatim>\<open>parseE4Stats\<close> of \<^verbatim>\<open>e4_job.go\<close>). Decoding a JSON document is a parameter; finding the document in
  the log is modelled in full.
\<close>

section \<open>Finding a JSON value in a log\<close>

text \<open>
  The scanner of \<^verbatim>\<open>extractBalanced\<close>: the number of bytes up to the closing delimiter that brings the
  depth back to zero, \<^const>\<open>None\<close> if the text ends first.
\<close>

fun balanced_len :: "char \<Rightarrow> char \<Rightarrow> int \<Rightarrow> bool \<Rightarrow> bool \<Rightarrow> string \<Rightarrow> nat option" where
  "balanced_len delim closer depth inStr escaped [] = None"
| "balanced_len delim closer depth inStr escaped (c # cs) =
     (if escaped then map_option Suc (balanced_len delim closer depth inStr False cs)
      else if inStr
      then map_option Suc (balanced_len delim closer depth (c \<noteq> CHR 0x22) (c = CHR 0x5C) cs)
      else if c = CHR 0x22 then map_option Suc (balanced_len delim closer depth True False cs)
      else if c = delim then map_option Suc (balanced_len delim closer (depth + 1) False False cs)
      else if c = closer
      then (if depth - 1 = 0 then Some 1
            else map_option Suc (balanced_len delim closer (depth - 1) False False cs))
      else map_option Suc (balanced_len delim closer depth False False cs))"

definition closer_of :: "char \<Rightarrow> char" where
  "closer_of delim = (if delim = CHR ''['' then CHR '']'' else CHR ''}'')"

definition extractBalanced :: "string \<Rightarrow> nat \<Rightarrow> char \<Rightarrow> string" where
  "extractBalanced logs start delim =
     (case balanced_len delim (closer_of delim) 0 False False (drop start logs) of
        None \<Rightarrow> []
      | Some n \<Rightarrow> take n (drop start logs))"

function find_from ::
  "(string \<Rightarrow> 'a \<Rightarrow> 'a \<times> bool) \<Rightarrow> string \<Rightarrow> char \<Rightarrow> nat \<Rightarrow> 'a \<Rightarrow> 'a \<times> bool" where
  "find_from unmarshal logs delim offset out =
     (if offset < length logs then
        (case IndexByte (drop offset logs) delim of
           None \<Rightarrow> (out, False)
         | Some idx \<Rightarrow>
             let start = offset + idx;
                 body = extractBalanced logs start delim;
                 (out', ok) = (if body \<noteq> [] then unmarshal body out else (out, False))
             in if ok then (out', True) else find_from unmarshal logs delim (start + 1) out')
      else (out, False))"
  by pat_completeness auto
termination
  by (relation "measure (\<lambda>(u, logs, d, offset, out). length logs - offset)") auto

declare find_from.simps [simp del]

definition findAndUnmarshalJSON ::
  "(string \<Rightarrow> 'a \<Rightarrow> 'a \<times> bool) \<Rightarrow> string \<Rightarrow> char \<Rightarrow> 'a \<Rightarrow> 'a \<times> bool" where
  "findAndUnmarshalJSON unmarshal logs delim out = find_from unmarshal logs delim 0 out"

subsection \<open>Correctness of the scanner\<close>

text \<open>
  The nesting depth after a text, read with JSON's rules: delimiters inside string literals do not
  count. A state is (depth, inside a string, after a backslash).
\<close>

type_synonym scan = "int \<times> bool \<times> bool"

fun scan_char :: "char \<Rightarrow> char \<Rightarrow> scan \<Rightarrow> char \<Rightarrow> scan" where
  "scan_char d k (n, s, e) c =
     (if e then (n, s, False)
      else if s then (n, c \<noteq> CHR 0x22, c = CHR 0x5C)
      else (if c = CHR 0x22 then n else if c = d then n + 1 else if c = k then n - 1 else n,
            c = CHR 0x22, False))"

definition scan_text :: "char \<Rightarrow> char \<Rightarrow> scan \<Rightarrow> string \<Rightarrow> scan" where
  "scan_text d k st s = foldl (scan_char d k) st s"

lemma scan_text_simps [simp]:
  "scan_text d k st [] = st"
  "scan_text d k st (c # cs) = scan_text d k (scan_char d k st c) cs"
  by (simp_all add: scan_text_def)

lemma balanced_len_bounds: "balanced_len d k n s e t = Some m \<Longrightarrow> 0 < m \<and> m \<le> length t"
proof (induction d k n s e t arbitrary: m rule: balanced_len.induct)
  case (2 d k n s e c cs)
  then show ?case
    by (simp split: if_splits) (auto simp: Suc_le_eq)
qed simp

text \<open>
  The scanner stops exactly at the first closing delimiter outside a string that brings the depth
  to zero; \<open>closes d k st c\<close> says that \<open>c\<close> is such a delimiter in state \<open>st\<close>.
\<close>

fun closes :: "char \<Rightarrow> char \<Rightarrow> scan \<Rightarrow> char \<Rightarrow> bool" where
  "closes d k (n, s, e) c \<longleftrightarrow> \<not> e \<and> \<not> s \<and> c \<noteq> CHR 0x22 \<and> c \<noteq> d \<and> c = k \<and> n = 1"

lemma balanced_len_closes:
  "balanced_len d k n s e t = Some m \<Longrightarrow>
   closes d k (scan_text d k (n, s, e) (take (m - 1) t)) (t ! (m - 1)) \<and>
   (\<forall>i < m - 1. \<not> closes d k (scan_text d k (n, s, e) (take i t)) (t ! i))"
proof (induction d k n s e t arbitrary: m rule: balanced_len.induct)
  case (2 d k n s e c cs)
  show ?case
  proof (cases "closes d k (n, s, e) c")
    case True
    with 2(7) show ?thesis by auto
  next
    case False
    obtain n' s' e' where st: "scan_char d k (n, s, e) c = (n', s', e')"
      by (cases "scan_char d k (n, s, e) c")
    with False 2(7) have "map_option Suc (balanced_len d k n' s' e' cs) = Some m"
      by (auto split: if_splits)
    then obtain m' where m: "balanced_len d k n' s' e' cs = Some m'" "m = Suc m'"
      by auto
    have "closes d k (scan_text d k (n', s', e') (take (m' - 1) cs)) (cs ! (m' - 1)) \<and>
        (\<forall>i < m' - 1. \<not> closes d k (scan_text d k (n', s', e') (take i cs)) (cs ! i))"
      using 2(1-6) False st m(1) by (auto split: if_splits)
    moreover obtain l where l: "m' = Suc l"
      using balanced_len_bounds [OF m(1)] by (cases m') auto
    moreover have "\<not> closes d k (scan_text d k (n, s, e) (take i (c # cs))) ((c # cs) ! i)"
      if "\<forall>i < l. \<not> closes d k (scan_text d k (n', s', e') (take i cs)) (cs ! i)" "i < Suc l" for i
      using that False st by (cases i) simp_all
    ultimately show ?thesis
      using st m(2) by simp
  qed
qed simp

lemma closes_at_zero: "closes d k st c \<Longrightarrow> scan_char d k st c = (0, False, False)"
  by (cases st) auto

lemma extractBalanced_SomeE:
  assumes "extractBalanced logs start delim \<noteq> []"
  obtains n where
    "balanced_len delim (closer_of delim) 0 False False (drop start logs) = Some n"
    "extractBalanced logs start delim = take n (drop start logs)" "0 < n" "n \<le> length logs - start"
  using assms balanced_len_bounds
  by (auto simp: extractBalanced_def split: option.splits) fastforce

lemma take_nth_snoc: "0 < n \<Longrightarrow> n \<le> length xs \<Longrightarrow> take n xs = take (n - 1) xs @ [xs ! (n - 1)]"
  by (metis Suc_pred' Suc_le_eq take_Suc_conv_app_nth)

lemma extractBalanced_balanced:
  fixes logs start delim
  assumes "extractBalanced logs start delim \<noteq> []"
  defines "r \<equiv> extractBalanced logs start delim"
  shows "scan_text delim (closer_of delim) (0, False, False) r = (0, False, False)"
    "last r = closer_of delim" "\<exists>rest. drop start logs = r @ rest"
    "\<And>i. i < length r - 1 \<Longrightarrow>
       \<not> closes delim (closer_of delim)
          (scan_text delim (closer_of delim) (0, False, False) (take i r)) (r ! i)"
proof -
  let ?k = "closer_of delim" and ?t = "drop start logs"
  obtain n where n: "balanced_len delim ?k 0 False False ?t = Some n" "r = take n ?t"
    "0 < n" "n \<le> length ?t"
    using extractBalanced_SomeE [OF assms(1)] unfolding r_def by auto
  note cl = balanced_len_closes [OF n(1)]
  have snoc: "r = take (n - 1) ?t @ [?t ! (n - 1)]"
    using take_nth_snoc n by blast
  then show "scan_text delim ?k (0, False, False) r = (0, False, False)"
    using cl closes_at_zero by (simp add: scan_text_def)
  show "last r = ?k"
    using snoc cl by (cases "scan_text delim ?k (0, False, False) (take (n - 1) ?t)") auto
  show "\<exists>rest. drop start logs = r @ rest"
    using n(2) by (metis append_take_drop_id)
  show "\<not> closes delim ?k (scan_text delim ?k (0, False, False) (take i r)) (r ! i)"
    if "i < length r - 1" for i
  proof -
    from that have "i < n - 1"
      using n by simp
    moreover from this have "take i r = take i ?t" "r ! i = ?t ! i"
      unfolding n(2) by simp_all
    ultimately show ?thesis
      using cl by simp
  qed
qed

subsection \<open>Correctness of the search\<close>

lemma find_from_sound:
  "find_from u logs d off out = (out', True) \<Longrightarrow>
   \<exists>start o1. start < length logs \<and> logs ! start = d \<and> extractBalanced logs start d \<noteq> [] \<and>
     u (extractBalanced logs start d) o1 = (out', True)"
proof (induction u logs d off out rule: find_from.induct)
  case (1 u logs d off out)
  show ?case
  proof (cases "off < length logs")
    case True
    with 1(2) obtain idx where idx: "IndexByte (drop off logs) d = Some idx"
      by (subst (asm) find_from.simps) (auto split: option.splits)
    let ?body = "extractBalanced logs (off + idx) d"
    obtain o2 ok where step: "(if ?body \<noteq> [] then u ?body out else (out, False)) = (o2, ok)"
      by fastforce
    show ?thesis
    proof (cases ok)
      case ok: True
      have "off + idx < length logs" "logs ! (off + idx) = d"
        using IndexByte_Some [OF idx] True by auto
      with 1(2) True idx step ok show ?thesis
        by (subst (asm) find_from.simps) (auto split: if_splits)
    next
      case False
      with 1(2) True idx step have "find_from u logs d (off + idx + 1) o2 = (out', True)"
        by (subst (asm) find_from.simps) simp
      then show ?thesis
        using 1(1) [OF True idx] step False by auto
    qed
  next
    case False
    with 1(2) show ?thesis by (simp add: find_from.simps)
  qed
qed

lemma extractBalanced_take: "\<exists>n. extractBalanced logs start d = take n (drop start logs)"
  by (cases "balanced_len d (closer_of d) 0 False False (drop start logs)") (auto simp: extractBalanced_def intro: exI [of _ 0])

lemma IndexByte_first:
  assumes "IndexByte (drop off logs) d = Some idx" "off \<le> start" "start < length logs" "logs ! start = d"
  shows "off + idx \<le> start"
proof (rule ccontr)
  assume "\<not> off + idx \<le> start"
  then have "drop off logs ! (start - off) \<in> set (take idx (drop off logs))"
    using assms(2,3) by (auto simp: in_set_conv_nth intro!: exI [of _ "start - off"])
  then show False
    using IndexByte_Some [OF assms(1)] assms(2-4) by simp
qed

lemma find_from_complete:
  assumes start: "start < length logs" "logs ! start = d" "extractBalanced logs start d \<noteq> []"
    and accepts: "\<And>o1. u (extractBalanced logs start d) o1 = (v, True)"
    and rejects: "\<And>i n o1. i < start \<Longrightarrow> \<not> snd (u (take n (drop i logs)) o1)"
    and "off \<le> start"
  shows "find_from u logs d off out = (v, True)"
  using assms(6)
proof (induction "start - off" arbitrary: off out rule: less_induct)
  case less
  have "drop off logs ! (start - off) = d" "start - off < length (drop off logs)"
    using start(1,2) less.prems by simp_all
  then have "d \<in> set (drop off logs)"
    by (metis nth_mem)
  then obtain idx where idx: "IndexByte (drop off logs) d = Some idx"
    using IndexByte_None by fastforce
  let ?body = "extractBalanced logs (off + idx) d"
  obtain o2 ok where step: "(if ?body \<noteq> [] then u ?body out else (out, False)) = (o2, ok)"
    by fastforce
  have unfold: "find_from u logs d off out = (if ok then (o2, True) else find_from u logs d (off + idx + 1) o2)"
    using start(1) less.prems idx step by (subst find_from.simps) simp
  show ?case
  proof (cases "off + idx = start")
    case True
    with step start(3) accepts unfold show ?thesis
      by simp
  next
    case False
    then have before: "off + idx < start"
      using IndexByte_first [OF idx less.prems start(1,2)] by simp
    then have "\<not> ok"
      using rejects [OF before] extractBalanced_take [of logs "off + idx" d] step by (auto split: if_splits) (metis snd_conv)
    then show ?thesis
      using less.hyps [of "off + idx + 1" o2] before unfold by simp
  qed
qed

subsection \<open>JSON documents\<close>

text \<open>
  The grammar of JSON, with blanks wherever it allows them. Numbers and literals are any non-empty runs of the characters
  they consist of, which is more than JSON has.
\<close>

definition blank :: "string \<Rightarrow> bool" where
  "blank s \<longleftrightarrow> set s \<subseteq> {CHR 0x20, CHR 0x09, CHR 0x0A, CHR 0x0D}"

definition atom_char :: "char \<Rightarrow> bool" where
  "atom_char c \<longleftrightarrow> c \<in> set ''0123456789+-.Eeaflnrstu''"

text \<open>The inside of a string literal: a backslash takes the next character with it.\<close>

fun quotable :: "string \<Rightarrow> bool" where
  "quotable [] \<longleftrightarrow> True"
| "quotable [c] \<longleftrightarrow> c \<noteq> CHR 0x22 \<and> c \<noteq> CHR 0x5C"
| "quotable (c # c' # cs) \<longleftrightarrow> (if c = CHR 0x5C then quotable cs else c \<noteq> CHR 0x22 \<and> quotable (c' # cs))"

definition quoted :: "string \<Rightarrow> string" where
  "quoted s = CHR 0x22 # s @ [CHR 0x22]"

inductive json :: "string \<Rightarrow> bool" where
  json_atom: "list_all atom_char s \<Longrightarrow> s \<noteq> [] \<Longrightarrow> json s"
| json_string: "quotable s \<Longrightarrow> json (quoted s)"
| json_empty: "blank w \<Longrightarrow> ends \<in> {(CHR ''['', CHR '']''), (CHR ''{'', CHR ''}'')} \<Longrightarrow> json (fst ends # w @ [snd ends])"
| json_array:
    "(\<And>w v w'. (w, v, w') \<in> set es \<Longrightarrow> blank w \<and> json v \<and> blank w') \<Longrightarrow>
     json (CHR ''['' # Join (map (\<lambda>(w, v, w'). w @ v @ w') es) '','' @ '']'')"
| json_object:
    "(\<And>k v w1 w2 w3 w4. (k, v, w1, w2, w3, w4) \<in> set es \<Longrightarrow>
        quotable k \<and> json v \<and> blank w1 \<and> blank w2 \<and> blank w3 \<and> blank w4) \<Longrightarrow>
     json (CHR ''{'' # Join (map (\<lambda>(k, v, w1, w2, w3, w4). w1 @ quoted k @ w2 @ '':'' @ w3 @ v @ w4) es) '','' @ ''}'')"

text \<open>
  Inside an open bracket the scanner passes over a JSON value: whatever brackets it contains are closed in it, and those in its
  string literals do not count.
\<close>

definition shift :: "nat \<Rightarrow> nat option \<Rightarrow> nat option" where
  "shift m r = map_option ((+) m) r"

definition passes :: "char \<Rightarrow> string \<Rightarrow> bool" where
  "passes d s \<longleftrightarrow> (\<forall>n rest. 1 \<le> n \<longrightarrow>
     balanced_len d (closer_of d) n False False (s @ rest) =
       shift (length s) (balanced_len d (closer_of d) n False False rest))"

lemma shift_simps [simp]: "shift 0 r = r" "shift m (shift n r) = shift (m + n) r" "shift m (Some n) = Some (m + n)"
  by (cases r; simp add: shift_def)+

lemma map_Suc_shift: "map_option Suc r = shift 1 r"
  by (cases r) (simp_all add: shift_def)

lemma passes_Nil [simp]: "passes d []"
  by (simp add: passes_def)

lemma passes_append: "passes d s \<Longrightarrow> passes d t \<Longrightarrow> passes d (s @ t)"
  by (simp add: passes_def)

lemma passes_plain:
  "d \<in> {CHR ''['', CHR ''{''} \<Longrightarrow> list_all (\<lambda>c. c \<noteq> CHR 0x22 \<and> c \<noteq> d \<and> c \<noteq> closer_of d) s \<Longrightarrow> passes d s"
proof (induction s)
  case (Cons c cs)
  then show ?case
    by (auto simp: passes_def map_Suc_shift)
qed simp

lemma quotable_scan:
  "quotable s \<Longrightarrow> balanced_len d k n True False (s @ CHR 0x22 # rest) =
     shift (Suc (length s)) (balanced_len d k n False False rest)"
proof (induction s rule: quotable.induct)
  case (3 c c' cs)
  then show ?case
    by (cases "c = CHR 0x5C") (simp_all add: map_Suc_shift del: balanced_len.simps(2) add: balanced_len.simps(2) [of d k n])
qed (simp_all add: map_Suc_shift)

lemma passes_quoted: "quotable s \<Longrightarrow> passes d (quoted s)"
  using quotable_scan [of s d "closer_of d"] by (simp add: passes_def quoted_def map_Suc_shift)

lemma passes_nested:
  assumes "d \<in> {CHR ''['', CHR ''{''}" "(b, e) \<in> {(CHR ''['', CHR '']''), (CHR ''{'', CHR ''}'')}" "passes d s"
  shows "passes d (b # s @ [e])"
proof (cases "b = d")
  case True
  then have "e = closer_of d" "closer_of d \<noteq> d" "d \<noteq> CHR 0x22" "closer_of d \<noteq> CHR 0x22"
    using assms(1,2) by (auto simp: closer_of_def)
  with True assms(3) show ?thesis
    by (simp add: passes_def map_Suc_shift)
next
  case False
  then have "list_all (\<lambda>c. c \<noteq> CHR 0x22 \<and> c \<noteq> d \<and> c \<noteq> closer_of d) [b]"
    "list_all (\<lambda>c. c \<noteq> CHR 0x22 \<and> c \<noteq> d \<and> c \<noteq> closer_of d) [e]"
    using assms(1,2) by (auto simp: closer_of_def)
  then have "passes d ([b] @ s @ [e])"
    by (intro passes_append assms(3)) (rule passes_plain [OF assms(1)], assumption)+
  then show ?thesis
    by simp
qed

lemma passes_Join:
  "(\<And>s. s \<in> set ss \<Longrightarrow> passes d s) \<Longrightarrow> passes d sep \<Longrightarrow> passes d (Join ss sep)"
  by (induction ss sep rule: Join.induct) (simp_all add: passes_append)

lemma blank_passes: "d \<in> {CHR ''['', CHR ''{''} \<Longrightarrow> blank s \<Longrightarrow> passes d s"
  by (rule passes_plain) (auto simp: blank_def list_all_iff closer_of_def)

lemma comma_colon_pass: "d \<in> {CHR ''['', CHR ''{''} \<Longrightarrow> passes d '',''" "d \<in> {CHR ''['', CHR ''{''} \<Longrightarrow> passes d '':''"
  by (rule passes_plain; auto simp: closer_of_def)+

lemma passes_element: "d \<in> {CHR ''['', CHR ''{''} \<Longrightarrow> blank w \<Longrightarrow> passes d v \<Longrightarrow> blank w' \<Longrightarrow> passes d (w @ v @ w')"
  by (rule passes_append [OF blank_passes passes_append [OF _ blank_passes]])

lemma passes_member:
  assumes "d \<in> {CHR ''['', CHR ''{''}" "quotable k" "passes d v" "blank w1" "blank w2" "blank w3" "blank w4"
  shows "passes d (w1 @ quoted k @ w2 @ '':'' @ w3 @ v @ w4)"
  using passes_quoted [OF assms(2), of d] comma_colon_pass(2) [OF assms(1)] assms(3-7) blank_passes [OF assms(1)]
  by (intro passes_append)

lemma atom_char_no_delim:
  "\<not> atom_char (CHR 0x22)" "\<not> atom_char (CHR ''['')" "\<not> atom_char (CHR '']'')" "\<not> atom_char (CHR ''{'')" "\<not> atom_char (CHR ''}'')"
  by code_simp+

lemma atom_passes: "d \<in> {CHR ''['', CHR ''{''} \<Longrightarrow> list_all atom_char s \<Longrightarrow> passes d s"
  using atom_char_no_delim by (intro passes_plain) (auto simp: list_all_iff closer_of_def)

lemma json_passes:
  assumes "json s" "d \<in> {CHR ''['', CHR ''{''}"
  shows "passes d s"
  using assms(1)
proof induction
  case (json_atom s)
  then show ?case
    using assms(2) by (intro atom_passes)
next
  case (json_empty w ends)
  then show ?case
    using passes_nested [OF assms(2), of "fst ends" "snd ends"] blank_passes [OF assms(2)] by simp
next
  case (json_array es)
  then have "passes d (Join (map (\<lambda>(w, v, w'). w @ v @ w') es) '','')"
    using assms(2) by (intro passes_Join comma_colon_pass) (force intro: passes_element)+
  then show ?case
    using passes_nested [OF assms(2), of "CHR ''[''" "CHR '']''"] by simp
next
  case (json_object es)
  then have "passes d (Join (map (\<lambda>(k, v, w1, w2, w3, w4). w1 @ quoted k @ w2 @ '':'' @ w3 @ v @ w4) es) '','')"
    using assms(2) by (intro passes_Join comma_colon_pass) (clarsimp simp del: append_Cons, rule passes_member, auto)
  then show ?case
    using passes_nested [OF assms(2), of "CHR ''{''" "CHR ''}''"] by simp
qed (rule passes_quoted)

text \<open>From its opening bracket on, the scanner cuts a document out of a log exactly.\<close>

lemma json_body:
  assumes "json doc" "hd doc = d" "d \<in> {CHR ''['', CHR ''{''}"
  obtains s where "doc = d # s @ [closer_of d]" "passes d s"
  using assms(1)
proof cases
  case json_atom
  then show thesis
    using assms(2,3) atom_char_no_delim by (cases doc) auto
next
  case (json_string s)
  then show thesis
    using assms(2,3) by (auto simp: quoted_def)
next
  case (json_empty w ends)
  then show thesis
    using assms(2,3) blank_passes [OF assms(3)] by (intro that [of w]) (auto simp: closer_of_def)
next
  case (json_array es)
  then have "passes d (Join (map (\<lambda>(w, v, w'). w @ v @ w') es) '','')"
    using assms(3) by (intro passes_Join comma_colon_pass) (force intro: passes_element json_passes)+
  with json_array(1) show thesis
    using assms(2) by (intro that) (auto simp: closer_of_def)
next
  case (json_object es)
  then have "passes d (Join (map (\<lambda>(k, v, w1, w2, w3, w4). w1 @ quoted k @ w2 @ '':'' @ w3 @ v @ w4) es) '','')"
    using assms(3) by (intro passes_Join comma_colon_pass) (clarsimp simp del: append_Cons, rule passes_member, auto intro: json_passes)
  with json_object(1) show thesis
    using assms(2) by (intro that) (auto simp: closer_of_def)
qed

lemma extractBalanced_json:
  assumes "json doc" "hd doc = d" "d \<in> {CHR ''['', CHR ''{''}"
  shows "extractBalanced (pre @ doc @ post) (length pre) d = doc"
proof -
  obtain s where s: "doc = d # s @ [closer_of d]" "passes d s"
    by (rule json_body [OF assms])
  have d: "d \<noteq> CHR 0x22" "closer_of d \<noteq> CHR 0x22" "closer_of d \<noteq> d"
    using assms(3) by (auto simp: closer_of_def)
  have "balanced_len d (closer_of d) 1 False False (s @ closer_of d # post) = Some (length s + 1)"
    using s(2) d by (simp add: passes_def)
  then show ?thesis
    using d by (simp add: extractBalanced_def s(1) map_Suc_shift)
qed

section \<open>The newest restic snapshot\<close>

text \<open>The second layout of the source differs from \<^const>\<open>RFC3339Nano\<close> in nothing, the third is \<^const>\<open>RFC3339\<close>.\<close>

definition restic_layouts :: "chunk list list" where
  "restic_layouts = [RFC3339Nano, RFC3339Nano, RFC3339]"

definition parseResticTime :: "string \<Rightarrow> time" where
  "parseResticTime raw =
     (if raw = [] then zero_time
      else case parse_first restic_layouts raw of Some t \<Rightarrow> t | None \<Rightarrow> zero_time)"

definition latestSnapshot :: "resticSnapshot list \<Rightarrow> resticSnapshot" where
  "latestSnapshot snaps =
     foldl (\<lambda>latest s. if After (parseResticTime (rs_Time s)) (parseResticTime (rs_Time latest))
                       then s else latest) (last snaps) snaps"

definition snapshotStatus :: "deps \<Rightarrow> resticSnapshot \<Rightarrow> LatestBackupStatus" where
  "snapshotStatus D latest =
     \<lparr>lb_Name = (if rs_ID latest = [] then rs_LongID latest else rs_ID latest),
      lb_CreatedAt = parseResticTime (rs_Time latest),
      lb_SizeBytes =
        (if DataAddedPacked (rs_Summary latest) > 0
         then NewQuantity D (DataAddedPacked (rs_Summary latest)) else zeroQuantity),
      lb_UncompressedSizeBytes =
        (if TotalBytesProcessed (rs_Summary latest) > 0
         then Some (NewQuantity D (TotalBytesProcessed (rs_Summary latest))) else None)\<rparr>"

definition parseResticSnapshotsJSON :: "deps \<Rightarrow> string \<Rightarrow> LatestBackupStatus option" where
  "parseResticSnapshotsJSON D logs =
     (let (snaps, ok) = findAndUnmarshalJSON (UnmarshalSnapshots D) logs (CHR ''['') []
      in if \<not> ok \<or> snaps = [] then None else Some (snapshotStatus D (latestSnapshot snaps)))"

definition parseE2Output :: "deps \<Rightarrow> BackupFormat \<Rightarrow> string \<Rightarrow> LatestBackupStatus option" where
  "parseE2Output D format logs =
     (case format of BackupFormatRestic \<Rightarrow> parseResticSnapshotsJSON D logs | _ \<Rightarrow> None)"

lemma latestSnapshot_max:
  assumes "snaps \<noteq> []"
  shows "latestSnapshot snaps \<in> set snaps"
    "\<And>s. s \<in> set snaps \<Longrightarrow> parseResticTime (rs_Time s) \<le> parseResticTime (rs_Time (latestSnapshot snaps))"
  using foldl_keep_max [OF latestSnapshot_def [unfolded After_iff], of snaps] last_in_set [OF assms]
  by (auto simp: insert_absorb)

section \<open>The STATS line of a full retrieval\<close>

definition statsLine :: "string \<Rightarrow> string" where
  "statsLine logs =
     foldl (\<lambda>acc line. let t = TrimSpace line in if HasPrefix t ''STATS '' then t else acc) []
       (Split logs (CHR 0x0A))"

definition statsField :: "(string \<rightharpoonup> int) \<Rightarrow> string \<Rightarrow> (string \<rightharpoonup> int)" where
  "statsField flds tok =
     (case SplitN2 tok (CHR ''='') of
        [k, v] \<Rightarrow> (case ParseInt v of None \<Rightarrow> flds | Some n \<Rightarrow> flds(k \<mapsto> n))
      | _ \<Rightarrow> flds)"

definition field :: "(string \<rightharpoonup> int) \<Rightarrow> string \<Rightarrow> int" where
  "field m k = (case m k of None \<Rightarrow> 0 | Some v \<Rightarrow> v)"

definition parseE4Stats :: "string \<Rightarrow> FullRetrievalStatus option" where
  "parseE4Stats logs =
     (let statsLine = statsLine logs in
      if statsLine = [] then None
      else
        let flds = foldl statsField Map.empty (Fields (TrimPrefix statsLine ''STATS ''));
            duration = field flds ''duration'';
            bytes = field flds ''bytes'';
            throughput = (if duration > 0 then go_div bytes duration else 0)
        in Some \<lparr>CompletedAt = zero_time, DurationSeconds = duration, BytesTransferred = bytes,
                 ThroughputBytesPerSec = throughput, ObjectsRetrieved = field flds ''objects'',
                 FailedObjects = field flds ''failed'', fr_TriggerSource = TriggerSourceScheduled\<rparr>)"

text \<open>The line the retrieval scripts print.\<close>

definition stats_line :: "int \<Rightarrow> int \<Rightarrow> int \<Rightarrow> int \<Rightarrow> int \<Rightarrow> string" where
  "stats_line rc dur bytes objs failed =
     ''STATS rc='' @ itoa rc @ '' duration='' @ itoa dur @ '' bytes='' @ itoa bytes
       @ '' objects='' @ itoa objs @ '' failed='' @ itoa failed"

definition is_stats :: "string \<Rightarrow> bool" where
  "is_stats line \<longleftrightarrow> HasPrefix (TrimSpace line) ''STATS ''"

lemma Split_Join:
  "ls \<noteq> [] \<Longrightarrow> \<forall>l \<in> set ls. c \<notin> set l \<Longrightarrow> Split (Join ls [c]) c = ls"
proof (induction ls "[c]" rule: Join.induct)
  case (2 s)
  then show ?case by (simp add: Split_no_sep)
next
  case (3 s t ts)
  then show ?case by (simp add: Split_append_sep)
qed simp

lemma plain_tok: "plain (k @ CHR ''='' # itoa i) \<longleftrightarrow> plain k"
  by (simp add: string_simps) (simp add: plain_char_def)

lemma statsField_tok:
  assumes "CHR ''='' \<notin> set k" "in_int64 i"
  shows "statsField m (k @ CHR ''='' # itoa i) = m(k \<mapsto> i)"
  using assms by (simp add: statsField_def SplitN2_pair ParseInt_itoa)

lemma snoc_plain: "plain s \<Longrightarrow> s \<noteq> [] \<Longrightarrow> \<exists>r d. s = r @ [d] \<and> plain_char d"
  by (cases s rule: rev_cases) (auto simp: string_simps)

lemma TrimSpace_stats_line: "TrimSpace (stats_line rc dur bytes objs failed) = stats_line rc dur bytes objs failed"
proof -
  obtain r d where "itoa failed = r @ [d]" "plain_char d"
    using snoc_plain [of "itoa failed"] by (auto simp: string_simps)
  moreover have "plain_char (CHR ''S'')"
    by (simp add: plain_char_def)
  ultimately show ?thesis
    using TrimSpace_plain_ends [of "CHR ''S''" d "''TATS rc='' @ itoa rc @ '' duration='' @ itoa dur
        @ '' bytes='' @ itoa bytes @ '' objects='' @ itoa objs @ '' failed='' @ r"]
    by (simp add: stats_line_def)
qed

lemma Fields_Join:
  "ts \<noteq> [] \<Longrightarrow> list_all (\<lambda>t. plain t \<and> t \<noteq> []) ts \<Longrightarrow> Fields (Join ts '' '') = ts"
  by (induction ts "'' ''" rule: Join.induct) (simp_all add: Fields_single Fields_cons)

lemma Fields_stats_line:
  "Fields (TrimPrefix (stats_line rc dur bytes objs failed) ''STATS '') =
     [''rc='' @ itoa rc, ''duration='' @ itoa dur, ''bytes='' @ itoa bytes,
      ''objects='' @ itoa objs, ''failed='' @ itoa failed]"
proof -
  let ?toks = "[''rc'' @ CHR ''='' # itoa rc, ''duration'' @ CHR ''='' # itoa dur,
     ''bytes'' @ CHR ''='' # itoa bytes, ''objects'' @ CHR ''='' # itoa objs,
     ''failed'' @ CHR ''='' # itoa failed]"
  have plain: "list_all plain ?toks"
    by (simp only: list.pred_inject plain_tok) (simp add: string_simps plain_char_def)
  have "stats_line rc dur bytes objs failed = ''STATS '' @ Join ?toks '' ''"
    by (simp add: stats_line_def)
  then have "TrimPrefix (stats_line rc dur bytes objs failed) ''STATS '' = Join ?toks '' ''"
    by (simp only: TrimPrefix_append)
  moreover have "Fields (Join ?toks '' '') = ?toks"
    using plain by (intro Fields_Join) simp_all
  ultimately show ?thesis
    by simp
qed

lemma statsLine_last:
  assumes "is_stats l" "\<forall>k \<in> set post. \<not> is_stats k"
  shows "foldl (\<lambda>acc line. let t = TrimSpace line in if HasPrefix t ''STATS '' then t else acc) a
           (pre @ l # post) = TrimSpace l"
proof -
  have "foldl (\<lambda>acc line. let t = TrimSpace line in if HasPrefix t ''STATS '' then t else acc) b post = b" for b
    using assms(2) by (induction post) (auto simp: is_stats_def Let_def)
  then show ?thesis
    using assms(1) by (simp add: is_stats_def Let_def)
qed

lemma is_stats_stats_line: "is_stats (stats_line rc dur bytes objs failed)"
  unfolding is_stats_def TrimSpace_stats_line unfolding stats_line_def by (simp add: HasPrefix_def)

lemma no_newline_stats_line: "CHR 0x0A \<notin> set (stats_line rc dur bytes objs failed)"
proof -
  have "CHR 0x0A \<notin> set (itoa i)" for i
    using plain_itoa [of i] by (auto simp: plain_def list_all_iff plain_char_def)
  then show ?thesis
    by (simp add: stats_line_def)
qed

section \<open>Properties\<close>

text \<open>
  C32: the STATS line is read back exactly. Whatever the retrieval printed before it (stale STATS
  lines included), and whatever lines follow that are no STATS lines, the status holds the
  printed duration, bytes, object and failure counts, and the throughput is the quotient of bytes
  and duration, zero when the duration is not positive.
\<close>

theorem parseE4Stats_emitted:
  assumes "list_all in_int64 [rc, dur, bytes, objs, failed]"
    and "\<forall>l \<in> set (pre @ post). CHR 0x0A \<notin> set l" and "\<forall>l \<in> set post. \<not> is_stats l"
  shows "parseE4Stats (Join (pre @ stats_line rc dur bytes objs failed # post) [CHR 0x0A]) =
    Some \<lparr>CompletedAt = zero_time, DurationSeconds = dur, BytesTransferred = bytes,
      ThroughputBytesPerSec = (if dur > 0 then go_div bytes dur else 0),
      ObjectsRetrieved = objs, FailedObjects = failed, fr_TriggerSource = TriggerSourceScheduled\<rparr>"
proof -
  let ?s = "stats_line rc dur bytes objs failed"
  have "Split (Join (pre @ ?s # post) [CHR 0x0A]) (CHR 0x0A) = pre @ ?s # post"
    using assms(2) no_newline_stats_line by (intro Split_Join) auto
  then have line: "statsLine (Join (pre @ ?s # post) [CHR 0x0A]) = ?s"
    unfolding statsLine_def
    by (simp only: statsLine_last [OF is_stats_stats_line assms(3)] TrimSpace_stats_line)
  have "foldl statsField Map.empty (Fields (TrimPrefix ?s ''STATS '')) =
      [''rc'' \<mapsto> rc, ''duration'' \<mapsto> dur, ''bytes'' \<mapsto> bytes, ''objects'' \<mapsto> objs, ''failed'' \<mapsto> failed]"
    unfolding Fields_stats_line
    using assms(1) statsField_tok [of "''rc''"] statsField_tok [of "''duration''"]
      statsField_tok [of "''bytes''"] statsField_tok [of "''objects''"] statsField_tok [of "''failed''"]
    by simp
  moreover have "?s \<noteq> []"
    by (simp add: stats_line_def)
  ultimately show ?thesis
    unfolding parseE4Stats_def line by (simp add: field_def Let_def)
qed

theorem parseE4Stats_emitted_witness:
  "parseE4Stats (Join ([''restoring'', ''STATS rc=1 duration=x''] @ stats_line 0 20 4096 3 0 # [''bye''])
      [CHR 0x0A]) =
    Some \<lparr>CompletedAt = zero_time, DurationSeconds = 20, BytesTransferred = 4096,
      ThroughputBytesPerSec = (if 20 > (0::int) then go_div 4096 20 else 0),
      ObjectsRetrieved = 3, FailedObjects = 0, fr_TriggerSource = TriggerSourceScheduled\<rparr>"
proof (rule parseE4Stats_emitted)
  show "list_all in_int64 [0, 20, 4096, 3, 0]" by code_simp
  show "\<forall>l \<in> set ([''restoring'', ''STATS rc=1 duration=x''] @ [''bye'']). CHR 0x0A \<notin> set l" by simp
  show "\<forall>l \<in> set [''bye'']. \<not> is_stats l" by code_simp
qed

text \<open>
  What \<^verbatim>\<open>extractBalanced\<close> returns, if it returns anything, is the prefix of the rest of the log
  that ends at the first position where the opening delimiter is closed: it is balanced when
  delimiters inside string literals are ignored, ends with the closing delimiter, and no shorter
  prefix closes.
\<close>

theorem extractBalanced_correct:
  assumes "extractBalanced logs start delim = r" "r \<noteq> []" "closer_of delim = k"
  shows "(\<exists>rest. drop start logs = r @ rest) \<and> last r = k \<and>
    scan_text delim k (0, False, False) r = (0, False, False) \<and>
    (\<forall>i < length r - 1. \<not> closes delim k (scan_text delim k (0, False, False) (take i r)) (r ! i))"
  using assms extractBalanced_balanced [of logs start delim] by auto

theorem extractBalanced_correct_witness:
  \<open>extractBalanced ''a ["]",[2]] b'' 2 (CHR ''['') = ''["]",[2]]'' \<and>
   scan_text (CHR ''['') (CHR '']'') (0, False, False) ''["]",[2]]'' = (0, False, False)\<close>
proof -
  have "extractBalanced ''a [\"]\",[2]] b'' 2 (CHR ''['') = ''[\"]\",[2]]''"
    by code_simp
  then show ?thesis
    using extractBalanced_correct [of "''a [\"]\",[2]] b''" 2 "CHR ''[''"] by (simp add: closer_of_def)
qed

text \<open>
  C33: the search finds the JSON document of a log. If a log contains a JSON array or object that the decoder accepts,
  and the decoder accepts no piece of the log that starts before it, the search returns exactly the decoded document,
  whatever precedes and follows it, brackets in progress lines and in the document's own string literals included.
  And whatever it returns was decoded from a piece of the log that starts with the delimiter, ends with the
  matching one, and is balanced when string literals are skipped.
\<close>

theorem findAndUnmarshalJSON_correct:
  "(json doc \<and> hd doc = d \<and> d \<in> {CHR ''['', CHR ''{''} \<and> (\<forall>o1. u doc o1 = (v, True)) \<and>
      (\<forall>i n o1. i < length pre \<longrightarrow> \<not> snd (u (take n (drop i (pre @ doc @ post))) o1)) \<longrightarrow>
      findAndUnmarshalJSON u (pre @ doc @ post) d out = (v, True)) \<and>
   (findAndUnmarshalJSON u logs d out = (out', True) \<longrightarrow>
      (\<exists>pre text post o1. logs = pre @ text @ post \<and> u text o1 = (out', True) \<and>
        hd text = d \<and> last text = closer_of d \<and>
        scan_text d (closer_of d) (0, False, False) text = (0, False, False)))"
proof (intro conjI impI)
  assume a: "json doc \<and> hd doc = d \<and> d \<in> {CHR ''['', CHR ''{''} \<and> (\<forall>o1. u doc o1 = (v, True)) \<and>
    (\<forall>i n o1. i < length pre \<longrightarrow> \<not> snd (u (take n (drop i (pre @ doc @ post))) o1))"
  then obtain s where s: "doc = d # s @ [closer_of d]"
    by (elim conjE) (rule json_body)
  have e: "extractBalanced (pre @ doc @ post) (length pre) d = doc"
    using a by (intro extractBalanced_json) simp_all
  show "findAndUnmarshalJSON u (pre @ doc @ post) d out = (v, True)"
    unfolding findAndUnmarshalJSON_def
    by (rule find_from_complete [of "length pre"]) (use a e s in auto)
next
  assume "findAndUnmarshalJSON u logs d out = (out', True)"
  then obtain start o1 where f: "start < length logs" "logs ! start = d" "extractBalanced logs start d \<noteq> []"
    "u (extractBalanced logs start d) o1 = (out', True)"
    unfolding findAndUnmarshalJSON_def by (blast dest: find_from_sound)
  obtain post where post: "drop start logs = extractBalanced logs start d @ post"
    using extractBalanced_balanced(3) [OF f(3)] by blast
  then have "logs = take start logs @ extractBalanced logs start d @ post"
    by (metis append_take_drop_id)
  moreover have "hd (extractBalanced logs start d) = d"
    using f(1-3) post by (metis hd_append2 hd_drop_conv_nth)
  ultimately show "\<exists>pre text post o1. logs = pre @ text @ post \<and> u text o1 = (out', True) \<and>
      hd text = d \<and> last text = closer_of d \<and> scan_text d (closer_of d) (0, False, False) text = (0, False, False)"
    using f(4) extractBalanced_balanced(1,2) [OF f(3)] by blast
qed

text \<open>A decoder that accepts only one document, with brackets in a string literal, after a bracketed progress line.\<close>

definition tricky_doc :: string where
  "tricky_doc = CHR ''['' # Join [quoted [CHR '']'', CHR 0x5C, CHR 0x22, CHR ''['']] '','' @ '']''"

definition accept_doc :: "string \<Rightarrow> nat \<Rightarrow> nat \<times> bool" where
  "accept_doc s n = (if s = tricky_doc then (7, True) else (n, False))"

lemma tricky_json: "json tricky_doc" "hd tricky_doc = CHR ''[''"
proof -
  have "json (CHR ''['' # Join (map (\<lambda>(w, v, w'). w @ v @ w') [([], quoted [CHR '']'', CHR 0x5C, CHR 0x22, CHR ''[''], [])]) '','' @ '']'')"
    by (rule json_array) (auto simp: blank_def intro!: json_string)
  then show "json tricky_doc"
    by (simp add: tricky_doc_def)
qed (simp add: tricky_doc_def)

lemma tricky_first:
  "i < 7 \<Longrightarrow> take n (drop i (''[0:00] '' @ tricky_doc @ '' ok'')) \<noteq> tricky_doc"
proof
  assume "i < 7" and eq: "take n (drop i (''[0:00] '' @ tricky_doc @ '' ok'')) = tricky_doc"
  have "length tricky_doc = 8"
    by code_simp
  then have "8 \<le> n"
    using arg_cong [OF eq, of length] by simp
  then have "take 2 (drop i (''[0:00] '' @ tricky_doc @ '' ok'')) = take 2 tricky_doc"
    using arg_cong [OF eq, of "take 2"] by (simp only: take_take) (simp only: min_absorb1)
  moreover have "list_all (\<lambda>i. take 2 (drop i (''[0:00] '' @ tricky_doc @ '' ok'')) \<noteq> take 2 tricky_doc) [0..<7]"
    by code_simp
  ultimately show False
    using \<open>i < 7\<close> by (auto simp: list_all_iff)
qed

theorem findAndUnmarshalJSON_correct_witness:
  "findAndUnmarshalJSON accept_doc (''[0:00] '' @ tricky_doc @ '' ok'') (CHR ''['') 0 = (7, True)"
  using findAndUnmarshalJSON_correct [of tricky_doc "CHR ''[''" accept_doc 7 "''[0:00] ''" "'' ok''" 0, THEN conjunct1]
    tricky_json tricky_first by (simp add: accept_doc_def)

text \<open>
  For a restic repository the claimed latest backup is the newest snapshot of the decoded list:
  no snapshot of the list is newer than the reported creation time, the name is the snapshot's
  short identifier (its long one if the short one is missing), and the other formats never report a backup
  from logs.
\<close>

theorem parseE2Output_newest:
  assumes "parseE2Output D format logs = Some b"
  shows "format = BackupFormatRestic \<and>
    (\<exists>snaps latest. findAndUnmarshalJSON (UnmarshalSnapshots D) logs (CHR ''['') [] = (snaps, True) \<and>
       latest \<in> set snaps \<and> lb_Name b = (if rs_ID latest = [] then rs_LongID latest else rs_ID latest) \<and>
       lb_CreatedAt b = parseResticTime (rs_Time latest) \<and>
       (\<forall>s \<in> set snaps. parseResticTime (rs_Time s) \<le> lb_CreatedAt b))"
proof -
  have f: "format = BackupFormatRestic" and "parseResticSnapshotsJSON D logs = Some b"
    using assms by (auto simp: parseE2Output_def split: BackupFormat.splits)
  then obtain snaps where
    snaps: "findAndUnmarshalJSON (UnmarshalSnapshots D) logs (CHR ''['') [] = (snaps, True)"
      "snaps \<noteq> []" "b = snapshotStatus D (latestSnapshot snaps)"
    by (auto simp: parseResticSnapshotsJSON_def split: if_splits prod.splits)
  then show ?thesis
    using f latestSnapshot_max [OF snaps(2)] by (auto simp: snapshotStatus_def)
qed

theorem parseE2Output_newest_witness:
  "\<exists>b. parseE2Output sample_deps BackupFormatRestic ''[0:00] 1/1 [1]'' = Some b \<and>
     lb_Name b = ''1a2b'' \<and>
     (\<exists>snaps. findAndUnmarshalJSON (UnmarshalSnapshots sample_deps) ''[0:00] 1/1 [1]'' (CHR ''['') [] =
        (snaps, True) \<and> (\<forall>s \<in> set snaps. parseResticTime (rs_Time s) \<le> lb_CreatedAt b))"
proof -
  define b where "b = snapshotStatus sample_deps (sample_snapshot ''2026-05-01T00:00:00Z'')"
  have "parseE2Output sample_deps BackupFormatRestic ''[0:00] 1/1 [1]'' = Some b"
    unfolding b_def by code_simp
  moreover have "lb_Name b = ''1a2b''"
    by (simp add: b_def snapshotStatus_def sample_snapshot_def)
  ultimately show ?thesis
    using parseE2Output_newest by blast
qed

end
