(* ===== verification/Jobs.thy ===== *)
theory Jobs
  imports Sample_Environment
begin

text \<open>
  Validation Jobs as all three levels use them (\<^verbatim>\<open>e2_job.go\<close>, \<^verbatim>\<open>e3_job.go\<close>, \<^verbatim>\<open>e4_job.go\<close>): the
  classification of a Job by its status, the choice of the most recent finished Job, the cadence
  rules, Job names, pod-log retrieval and the metrics of a finished run.
\<close>

section \<open>Job status\<close>

definition has_condition :: "Job \<Rightarrow> JobConditionType \<Rightarrow> bool" where
  "has_condition j t \<longleftrightarrow>
     list_ex (\<lambda>c. jc_Type c = t \<and> jc_Status c = ConditionTrue) (j_Conditions j)"

definition jobInFlight :: "Job \<Rightarrow> bool" where
  "jobInFlight j \<longleftrightarrow>
     \<not> list_ex (\<lambda>c. jc_Status c = ConditionTrue \<and> (jc_Type c = JobComplete \<or> jc_Type c = JobFailed))
         (j_Conditions j)"

definition jobSucceeded :: "Job \<Rightarrow> bool" where
  "jobSucceeded j \<longleftrightarrow> has_condition j JobComplete"

definition jobFailed :: "Job \<Rightarrow> bool" where
  "jobFailed j \<longleftrightarrow> has_condition j JobFailed"

definition jobCompletionTime :: "Job \<Rightarrow> time" where
  "jobCompletionTime j =
     (case j_CompletionTime j of Some t \<Rightarrow> t | None \<Rightarrow> j_CreationTimestamp j)"

definition firstActiveJob :: "Job list \<Rightarrow> Job option" where
  "firstActiveJob jobs = List.find jobInFlight jobs"

definition pickLatestCompletedJob :: "deps \<Rightarrow> Job list \<Rightarrow> Job option" where
  "pickLatestCompletedJob D jobs =
     (let finished = filter (\<lambda>j. jobSucceeded j \<or> jobFailed j) jobs
      in if finished = [] then None
         else (case SortJobs D (\<lambda>a b. After (jobCompletionTime a) (jobCompletionTime b)) finished of
                 j # _ \<Rightarrow> Some j
               | [] \<Rightarrow> None))"

lemma jobInFlight_iff [job_simps]: "jobInFlight j \<longleftrightarrow> \<not> (jobSucceeded j \<or> jobFailed j)"
  by (auto simp: jobInFlight_def jobSucceeded_def jobFailed_def has_condition_def list_ex_iff)

lemma firstActiveJob_iff [job_simps]: "firstActiveJob jobs \<noteq> None \<longleftrightarrow> (\<exists>j \<in> set jobs. jobInFlight j)"
  by (auto simp: firstActiveJob_def find_None_all)

abbreviation finishedJobs :: "Job list \<Rightarrow> Job list" where
  "finishedJobs jobs \<equiv> filter (\<lambda>j. jobSucceeded j \<or> jobFailed j) jobs"

lemma set_finishedJobs: "set (finishedJobs jobs) = {j \<in> set jobs. \<not> jobInFlight j}"
  by (auto simp: jobInFlight_iff)

lemma sorted_finishedJobs:
  fixes jobs
  assumes "sorts (SortJobs D)"
  defines "s \<equiv> SortJobs D (\<lambda>a b. After (jobCompletionTime a) (jobCompletionTime b)) (finishedJobs jobs)"
  shows "set s = {j \<in> set jobs. \<not> jobInFlight j}"
    "sorted_wrt (\<lambda>a b. jobCompletionTime b \<le> jobCompletionTime a) s"
proof -
  let ?less = "\<lambda>a b. After (jobCompletionTime a) (jobCompletionTime b)"
  have perm: "mset s = mset (finishedJobs jobs)" and sorted: "sorted_wrt (\<lambda>x y. \<not> ?less y x) s"
    unfolding s_def After_iff by (rule sortsD [OF assms(1) weak_order_key(2)])+
  from perm have "set s = set (finishedJobs jobs)"
    by (rule mset_eq_setD)
  then show "set s = {j \<in> set jobs. \<not> jobInFlight j}"
    by (simp only: set_finishedJobs)
  show "sorted_wrt (\<lambda>a b. jobCompletionTime b \<le> jobCompletionTime a) s"
    using sorted by (simp only: After_iff not_less)
qed

lemma pickLatest_None [job_simps]:
  assumes "sorts (SortJobs D)"
  shows "pickLatestCompletedJob D jobs = None \<longleftrightarrow> (\<forall>j \<in> set jobs. jobInFlight j)"
proof (cases "finishedJobs jobs = []")
  case True
  then have "\<forall>j \<in> set jobs. jobInFlight j"
    by (auto simp: filter_empty_conv jobInFlight_iff)
  with True show ?thesis
    by (simp add: pickLatestCompletedJob_def)
next
  case False
  then obtain j where "j \<in> set jobs" "\<not> jobInFlight j"
    by (auto simp: filter_empty_conv jobInFlight_iff)
  with False show ?thesis
    using sorted_finishedJobs(1) [OF assms, of jobs]
    by (auto simp: pickLatestCompletedJob_def split: list.split)
qed

lemma pickLatest_Some:
  assumes "sorts (SortJobs D)" "pickLatestCompletedJob D jobs = Some j"
  shows "j \<in> set jobs" "\<not> jobInFlight j"
    "\<And>k. k \<in> set jobs \<Longrightarrow> \<not> jobInFlight k \<Longrightarrow> jobCompletionTime k \<le> jobCompletionTime j"
proof -
  let ?s = "SortJobs D (\<lambda>a b. After (jobCompletionTime a) (jobCompletionTime b)) (finishedJobs jobs)"
  obtain rest where s: "?s = j # rest"
    using assms(2) by (auto simp: pickLatestCompletedJob_def Let_def split: if_splits list.splits)
  note sorted = sorted_finishedJobs [OF assms(1), of jobs, unfolded s]
  then show "j \<in> set jobs" "\<not> jobInFlight j"
    by auto
  show "jobCompletionTime k \<le> jobCompletionTime j" if "k \<in> set jobs" "\<not> jobInFlight k" for k
    using sorted that by fastforce
qed

section \<open>Labels, listing and cadence\<close>

definition labelOwnerName :: string where "labelOwnerName = ''arete.arete.io/backup-repository''"
definition labelLevel :: string where "labelLevel = ''arete.arete.io/level''"
definition labelLevelE2 :: string where "labelLevelE2 = ''e2''"
definition labelLevelE3 :: string where "labelLevelE3 = ''e3''"
definition labelLevelE4 :: string where "labelLevelE4 = ''e4''"
definition labelTriggerSource :: string where "labelTriggerSource = ''arete.arete.io/trigger-source''"

abbreviation jobNamespace :: "BackupRepository \<Rightarrow> string" where
  "jobNamespace br \<equiv> sr_Namespace (CredentialsSecret (S3 (Spec br)))"

definition levelLabels :: "BackupRepository \<Rightarrow> string \<Rightarrow> gomap" where
  "levelLabels br level = [(labelOwnerName, br_Name br), (labelLevel, level)]"

definition listE2Jobs :: "kube \<Rightarrow> BackupRepository \<Rightarrow> api_error + Job list" where
  "listE2Jobs K br = listJobs K (jobNamespace br) (levelLabels br labelLevelE2)"

definition listE3Jobs :: "kube \<Rightarrow> BackupRepository \<Rightarrow> api_error + Job list" where
  "listE3Jobs K br = listJobs K (jobNamespace br) (levelLabels br labelLevelE3)"

definition listE4Jobs :: "kube \<Rightarrow> BackupRepository \<Rightarrow> api_error + Job list" where
  "listE4Jobs K br = listJobs K (jobNamespace br) (levelLabels br labelLevelE4)"

definition shouldSpawnE2 :: "BackupRepository \<Rightarrow> time \<Rightarrow> bool" where
  "shouldSpawnE2 br now \<longleftrightarrow>
     (case VerifiedLastValidationAt (Status br) of
        None \<Rightarrow> True
      | Some t \<Rightarrow> MetadataValidationInterval (Spec br) \<le> Sub now t)"

definition shouldSpawnE3 :: "BackupRepository \<Rightarrow> time option \<Rightarrow> time \<Rightarrow> bool" where
  "shouldSpawnE3 br lastE3 now \<longleftrightarrow>
     (case SampledRetrievalInterval (Spec br) of
        None \<Rightarrow> False
      | Some interval \<Rightarrow> (case lastE3 of None \<Rightarrow> True | Some t \<Rightarrow> interval \<le> Sub now t))"

definition shouldSpawnE4 :: "BackupRepository \<Rightarrow> time option \<Rightarrow> time \<Rightarrow> bool" where
  "shouldSpawnE4 br lastE4 now \<longleftrightarrow>
     (case FullRetrievalInterval (Spec br) of
        None \<Rightarrow> False
      | Some interval \<Rightarrow> (case lastE4 of None \<Rightarrow> True | Some t \<Rightarrow> interval \<le> Sub now t))"

section \<open>Job names\<close>

definition hex_digit :: "int \<Rightarrow> char" where
  "hex_digit d = (if d < 10 then char_of (48 + d) else char_of (87 + d))"

definition EncodeToString :: "string \<Rightarrow> string" where
  "EncodeToString bs =
     concat (map (\<lambda>b. [hex_digit (of_char b div 16), hex_digit (of_char b mod 16)]) bs)"

definition jobName :: "deps \<Rightarrow> string \<Rightarrow> string \<Rightarrow> string" where
  "jobName D base input =
     (let short = EncodeToString (take 4 (Sum256 D input));
          base = (if length base > 40 then take 40 base else base)
      in base @ ''-'' @ short)"

definition e2JobName :: "deps \<Rightarrow> BackupRepository \<Rightarrow> time \<Rightarrow> string" where
  "e2JobName D br now =
     jobName D (''arete-e2-'' @ br_Name br)
       (br_Name br @ ''-'' @ itoa (Generation br) @ ''-'' @ format_minute now)"

definition e3JobName :: "deps \<Rightarrow> BackupRepository \<Rightarrow> time \<Rightarrow> string" where
  "e3JobName D br now =
     jobName D (''arete-e3-'' @ br_Name br)
       (br_Name br @ ''-e3-'' @ itoa (Generation br) @ ''-'' @ format_minute now)"

definition e4JobName :: "deps \<Rightarrow> BackupRepository \<Rightarrow> time \<Rightarrow> string" where
  "e4JobName D br now =
     jobName D (''arete-e4-'' @ br_Name br)
       (br_Name br @ ''-e4-'' @ itoa (Generation br) @ ''-'' @ format_minute now)"

definition e4PVCName :: "BackupRepository \<Rightarrow> string" where
  "e4PVCName br =
     (let base = ''arete-e4-'' @ br_Name br in if length base > 50 then take 50 base else base)"

lemma length_EncodeToString [simp]: "length (EncodeToString bs) = 2 * length bs"
  by (induction bs) (simp_all add: EncodeToString_def)

lemma length_jobName:
  "hash_ok D \<Longrightarrow> length (jobName D base input) = min (length base) 40 + 9"
  by (simp add: jobName_def hash_ok_def Let_def)

lemma mod_mult_div: "0 < b \<Longrightarrow> 0 < c \<Longrightarrow> s mod (b * c) div b = s div b mod c" for b c s :: int
  by (simp add: zmod_zmult2_eq)

lemma sec_fields:
  fixes s :: int
  shows "s mod 86400 div 3600 = s div 60 div 60 mod 24" "s mod 3600 div 60 = s div 60 mod 60"
proof -
  have "s mod (3600 * 24) div 3600 = s div 3600 mod 24"
    by (rule mod_mult_div) simp_all
  moreover have "s div (60 * 60) = s div 60 div 60"
    by (rule zdiv_zmult2_eq) simp
  ultimately show "s mod 86400 div 3600 = s div 60 div 60 mod 24"
    by (simp only: mult_numeral_1 arith_simps)
  have "s mod (60 * 60) div 60 = s div 60 mod 60"
    by (rule mod_mult_div) simp_all
  then show "s mod 3600 div 60 = s div 60 mod 60"
    by (simp only: arith_simps)
qed

lemma format_minute_eq:
  assumes "t div Minute = u div Minute"
  shows "format_minute t = format_minute u"
proof -
  have minute: "t div Second div 60 = u div Second div 60"
    using assms zdiv_zmult2_eq [of 60 _ "10 ^ 9 :: int"] by (simp add: time_defs)
  have day: "t div Second div 86400 = u div Second div 86400"
    using minute zdiv_zmult2_eq [of 1440 _ "60 :: int"] by simp
  show ?thesis
    unfolding format_minute_def Let_def sec_fields minute day ..
qed

lemma jobName_eq_base:
  assumes "jobName D b i = jobName D b' i'" "hash_ok D" "9 \<le> length b" "9 \<le> length b'"
  shows "take 9 b = take 9 b'"
proof -
  have "take 9 (jobName D b i) = take 9 b" if "9 \<le> length b" for b i
    using that by (simp add: jobName_def Let_def)
  then show ?thesis
    using assms by metis
qed

text \<open>
  C35: Job names of all three levels are at most 49 bytes (Kubernetes allows 63), the levels never share a name, and
  within one minute a level asks for the same name, so that a repeated request is answered with
  AlreadyExists instead of starting a second run.
\<close>

theorem job_names:
  assumes "hash_ok D" "t div Minute = u div Minute"
  shows "length (e2JobName D br t) \<le> 49 \<and> length (e3JobName D br t) \<le> 49 \<and> length (e4JobName D br t) \<le> 49 \<and>
    e2JobName D br t \<noteq> e3JobName D br' v \<and> e2JobName D br t \<noteq> e4JobName D br' v \<and>
    e3JobName D br t \<noteq> e4JobName D br' v \<and>
    e2JobName D br t = e2JobName D br u \<and> e3JobName D br t = e3JobName D br u \<and>
    e4JobName D br t = e4JobName D br u"
  using assms format_minute_eq [OF assms(2)]
  by (auto simp: e2JobName_def e3JobName_def e4JobName_def length_jobName dest!: jobName_eq_base)

theorem job_names_witness:
  "length (e2JobName sample_deps sample_br 0) \<le> 49 \<and>
   e2JobName sample_deps sample_br 0 = e2JobName sample_deps sample_br (59 * Second)"
  using job_names [of sample_deps 0 "59 * Second" sample_br sample_br 0] by (auto simp: time_defs)

section \<open>Logs of a Job\<close>

text \<open>\<^verbatim>\<open>io.ReadAll(io.LimitReader(r, n))\<close>.\<close>

definition readLimited :: "int \<Rightarrow> stream \<Rightarrow> string + string" where
  "readLimited n st =
     (if n \<le> int (length (st_bytes st)) then Inr (take (nat n) (st_bytes st))
      else case st_err st of None \<Rightarrow> Inr (st_bytes st) | Some e \<Rightarrow> Inl e)"

definition readJobOutput :: "kube \<Rightarrow> Job \<Rightarrow> string" where
  "readJobOutput K job =
     (case PodLogs K of
        None \<Rightarrow> ''(pod log retrieval not configured)''
      | Some podLogs \<Rightarrow>
          (case listPods K (j_Namespace job) [(''job-name'', j_Name job)] of
             Inr (pod # _) \<Rightarrow>
               (case podLogs (j_Namespace job) pod 20 of
                  Inl e \<Rightarrow> ''(log retrieval failed: '' @ e @ '')''
                | Inr st \<Rightarrow>
                    (case readLimited (64 * 1024) st of
                       Inl e \<Rightarrow> ''(log read failed: '' @ e @ '')''
                     | Inr body \<Rightarrow>
                         let out = TrimSpace body in if out = [] then ''(empty pod logs)'' else out))
           | _ \<Rightarrow> ''(no pod found for job)''))"

fun lastNonEmpty :: "string list \<Rightarrow> string" where
  "lastNonEmpty [] = ''(no output)''"
| "lastNonEmpty (line # lines) =
     (let l = TrimSpace line
      in if l \<noteq> [] then (if length l > 200 then take 200 l @ ''...'' else l) else lastNonEmpty lines)"

definition lastLine :: "string \<Rightarrow> string" where
  "lastLine s = lastNonEmpty (rev (Split (TrimSpace s) (CHR 0x0A)))"

lemma lastNonEmpty_bound: "lastNonEmpty lines \<noteq> [] \<and> length (lastNonEmpty lines) \<le> 203"
  by (induction lines) (auto simp: Let_def)

section \<open>Metrics of a finished run\<close>

definition ValidationRunsTotal :: string where
  "ValidationRunsTotal = ''arete_validation_runs_total''"
definition ValidationDurationSeconds :: string where
  "ValidationDurationSeconds = ''arete_validation_duration_seconds''"

definition recordValidationRun :: "BackupRepository \<Rightarrow> string \<Rightarrow> Job \<Rightarrow> effect list" where
  "recordValidationRun br level job =
     (let format = format_string (Format (Spec br));
          result = (if jobSucceeded job then ''success'' else ''failure'');
          observe =
            (case j_StartTime job of
               None \<Rightarrow> []
             | Some started \<Rightarrow>
                 let d = Sub (jobCompletionTime job) started in
                 if d > 0 then [HistogramObserve ValidationDurationSeconds [br_Name br, format, level] d]
                 else [])
      in CounterInc ValidationRunsTotal [br_Name br, format, level, result] # observe)"

end
