(* ===== verification/Probe.thy ===== *)
theory Probe
  imports Jobs Sample_Environment
begin

text \<open>
  The E1 probe (\<^verbatim>\<open>s3_probe.go\<close>): reachability, bucket security, the newest backup a producer claims,
  and the inventory of the prefix, over an S3 client whose responses are arbitrary.
\<close>

section \<open>The client\<close>

definition buildS3Client :: "deps \<Rightarrow> S3Source \<Rightarrow> S3Credentials \<Rightarrow> string + s3client" where
  "buildS3Client D src creds =
     (case ParseURL D (Endpoint src) of
        Inl e \<Rightarrow> Inl (''parse endpoint '' @ Quote D (Endpoint src) @ '': '' @ e)
      | Inr (scheme, host) \<Rightarrow>
          if host = [] then Inl (''endpoint '' @ Quote D (Endpoint src) @ '' has no host'')
          else MinioNew D host creds (scheme = ''https'') (Region src))"

section \<open>Reachability and bucket security\<close>

definition classifyS3Error :: "s3_error \<Rightarrow> string \<times> string" where
  "classifyS3Error err =
     (case ErrorResponse err of
        Some (code, message) \<Rightarrow>
          if code = ''NoSuchBucket'' then (ReasonBucketNotFound, message)
          else if code \<in> {''AccessDenied'', ''InvalidAccessKeyId'', ''SignatureDoesNotMatch''}
          then (ReasonCredentialsRejected, message)
          else if code \<noteq> [] then (ReasonS3APIError, code @ '': '' @ message)
          else (ReasonS3Unreachable, s3_text err)
      | None \<Rightarrow> (ReasonS3Unreachable, s3_text err))"

fun reach_loop :: "ObjectInfo list \<Rightarrow> int \<Rightarrow> s3_error + int" where
  "reach_loop [] cnt = Inr cnt"
| "reach_loop (obj # objs) cnt =
     (case oi_Err obj of
        Some e \<Rightarrow> Inl e
      | None \<Rightarrow> if cnt + 1 \<ge> 10 then Inr (cnt + 1) else reach_loop objs (cnt + 1))"

definition checkReachability :: "s3client \<Rightarrow> BackupRepositorySpec \<Rightarrow> bool \<times> string \<times> string" where
  "checkReachability client spec =
     (case reach_loop (ListObjects client (Bucket (S3 spec)) (Prefix (S3 spec) @ ''/'') False) 0 of
        Inl e \<Rightarrow> let (reason, msg) = classifyS3Error e in (False, reason, msg)
      | Inr cnt \<Rightarrow>
          (True, ReasonProbeSucceeded,
           ''prefix reachable, '' @ itoa cnt @ '' top-level entries sampled''))"

text \<open>\<^verbatim>\<open>_, err := call()\<close>: only the error of a call is looked at.\<close>

definition err_of :: "'e + 'a \<Rightarrow> 'e option" where
  "err_of r = (case r of Inl e \<Rightarrow> Some e | Inr _ \<Rightarrow> None)"

definition checkBucketSecurity :: "s3client \<Rightarrow> BackupRepositorySpec \<Rightarrow> bool \<times> string \<times> string" where
  "checkBucketSecurity client spec =
     (if \<not> HasPrefix (Endpoint (S3 spec)) ''https://''
      then (False, ReasonInsecureEndpoint, ''endpoint must use https://'')
      else
        case (if RequireObjectLock (S3 spec) then err_of (GetObjectLockConfig client (Bucket (S3 spec))) else None) of
          Some e \<Rightarrow>
            (False, ReasonObjectLockMissing,
             ''requireObjectLock=true but bucket reports: '' @ s3_text e)
        | None \<Rightarrow>
            (case (if RequireBucketEncryption (S3 spec) then err_of (GetBucketEncryption client (Bucket (S3 spec)))
                   else None) of
               Some e \<Rightarrow>
                 (False, ReasonBucketEncryptionMissing,
                  ''requireBucketEncryption=true but bucket reports: '' @ s3_text e)
             | None \<Rightarrow>
                 let checked = (if RequireObjectLock (S3 spec) then [''object-lock''] else [])
                             @ (if RequireBucketEncryption (S3 spec) then [''bucket-encryption''] else [])
                 in (True, ReasonProbeSucceeded,
                     if checked \<noteq> [] then ''https endpoint, verified: '' @ Join checked '', ''
                     else ''https endpoint'')))"

section \<open>What the producer claims\<close>

definition walg_layouts :: "chunk list list" where
  "walg_layouts =
     [RFC3339Nano, date_time @ [FracSecond0 6, Literal ''Z''], date_time @ [Literal ''Z'']]"

definition parseWalgTime :: "string \<Rightarrow> time \<Rightarrow> time" where
  "parseWalgTime raw fallback =
     (if raw = [] then fallback
      else case parse_first walg_layouts raw of Some t \<Rightarrow> t | None \<Rightarrow> fallback)"

definition formatPgVersion :: "int \<Rightarrow> string" where
  "formatPgVersion v =
     (if v = 0 then ''unknown'' else itoa (go_div v 10000) @ ''.0.'' @ itoa (go_mod v 100))"

definition getObjectBody :: "s3client \<Rightarrow> string \<Rightarrow> string \<Rightarrow> string + string" where
  "getObjectBody client bucket key =
     (case GetObject client bucket key of
        Inl e \<Rightarrow> Inl (s3_text e)
      | Inr obj \<Rightarrow> readLimited (64 * 1024) obj)"

definition sentinel_suffix :: string where
  "sentinel_suffix = ''_backup_stop_sentinel.json''"

fun sentinel_loop :: "ObjectInfo list \<Rightarrow> ObjectInfo list \<Rightarrow> ObjectInfo list option" where
  "sentinel_loop [] acc = Some acc"
| "sentinel_loop (obj # objs) acc =
     (if oi_Err obj \<noteq> None then None
      else sentinel_loop objs (if HasSuffix (oi_Key obj) sentinel_suffix then acc @ [obj] else acc))"

definition sentinelStatus ::
  "deps \<Rightarrow> string \<Rightarrow> ObjectInfo \<Rightarrow> walgSentinel \<Rightarrow> string \<times> time option \<times> LatestBackupStatus option" where
  "sentinelStatus D listPrefix obj s =
     (let version = ''sentinel-v'' @ itoa (ws_Version s) @ ''/pg-'' @ formatPgVersion (PgVersion s);
          ts = parseWalgTime (FinishTime s) (oi_LastModified obj);
          name = TrimSuffix (TrimPrefix (oi_Key obj) listPrefix) sentinel_suffix
      in (version, Some ts,
          Some \<lparr>lb_Name = name, lb_CreatedAt = ts, lb_SizeBytes = NewQuantity D (CompressedSize s),
                lb_UncompressedSizeBytes =
                  (if UncompressedSize s > 0 then Some (NewQuantity D (UncompressedSize s)) else None)\<rparr>))"

definition readWalgSentinel ::
  "deps \<Rightarrow> s3client \<Rightarrow> BackupRepositorySpec \<Rightarrow> string \<times> time option \<times> LatestBackupStatus option" where
  "readWalgSentinel D client spec =
     (let listPrefix = Prefix (S3 spec) @ ''/basebackups_005/'' in
      case sentinel_loop (ListObjects client (Bucket (S3 spec)) listPrefix False) [] of
        None \<Rightarrow> ([], None, None)
      | Some sentinels \<Rightarrow>
          if sentinels = [] then ([], None, None)
          else
            case SortObjects D (\<lambda>a b. After (oi_LastModified a) (oi_LastModified b)) sentinels of
              [] \<Rightarrow> ([], None, None)
            | obj # _ \<Rightarrow>
                (case getObjectBody client (Bucket (S3 spec)) (oi_Key obj) of
                   Inl e \<Rightarrow> ([], None, None)
                 | Inr body \<Rightarrow>
                     (case UnmarshalSentinel D body of
                        None \<Rightarrow> ([], None, None)
                      | Some s \<Rightarrow> sentinelStatus D listPrefix obj s)))"

fun restic_loop :: "ObjectInfo list \<Rightarrow> int \<Rightarrow> time \<Rightarrow> (int \<times> time) option" where
  "restic_loop [] cnt newest = Some (cnt, newest)"
| "restic_loop (obj # objs) cnt newest =
     (if oi_Err obj \<noteq> None then None
      else restic_loop objs (cnt + 1)
             (if After (oi_LastModified obj) newest then oi_LastModified obj else newest))"

definition readResticLatestSnapshotTime :: "s3client \<Rightarrow> BackupRepositorySpec \<Rightarrow> time option" where
  "readResticLatestSnapshotTime client spec =
     (case restic_loop (ListObjects client (Bucket (S3 spec)) (Prefix (S3 spec) @ ''/snapshots/'') False)
             0 zero_time of
        None \<Rightarrow> None
      | Some (cnt, newest) \<Rightarrow> if cnt = 0 then None else Some newest)"

definition detectFormatAndTimestamp ::
  "deps \<Rightarrow> s3client \<Rightarrow> BackupRepositorySpec \<Rightarrow>
   string \<times> string \<times> time option \<times> LatestBackupStatus option" where
  "detectFormatAndTimestamp D client spec =
     (case Format spec of
        BackupFormatWalg \<Rightarrow> (''walg'', readWalgSentinel D client spec)
      | BackupFormatRestic \<Rightarrow> (''restic'', [], readResticLatestSnapshotTime client spec, None)
      | BackupFormatBarman \<Rightarrow> (''barman'', [], None, None)
      | OtherFormat _ \<Rightarrow> ([], [], None, None))"

section \<open>Inventory\<close>

record inventory_acc =
  ia_count :: int
  ia_bytes :: int
  ia_oldest :: time
  ia_newest :: time
  ia_hasTime :: bool

fun inventory_loop :: "ObjectInfo list \<Rightarrow> inventory_acc \<Rightarrow> s3_error + inventory_acc" where
  "inventory_loop [] a = Inr a"
| "inventory_loop (obj # objs) a =
     (case oi_Err obj of
        Some e \<Rightarrow> Inl e
      | None \<Rightarrow>
          inventory_loop objs
            \<lparr>ia_count = wrap64 (ia_count a + 1),
             ia_bytes = wrap64 (ia_bytes a + oi_Size obj),
             ia_oldest = (if \<not> ia_hasTime a \<or> Before (oi_LastModified obj) (ia_oldest a)
                          then oi_LastModified obj else ia_oldest a),
             ia_newest = (if \<not> ia_hasTime a \<or> After (oi_LastModified obj) (ia_newest a)
                          then oi_LastModified obj else ia_newest a),
             ia_hasTime = True\<rparr>)"

definition runInventoryProbe :: "deps \<Rightarrow> s3client \<Rightarrow> BackupRepositorySpec \<Rightarrow> s3_error + InventoryStatus" where
  "runInventoryProbe D client spec =
     (case inventory_loop (ListObjects client (Bucket (S3 spec)) (Prefix (S3 spec) @ ''/'') True)
             \<lparr>ia_count = 0, ia_bytes = 0, ia_oldest = zero_time, ia_newest = zero_time, ia_hasTime = False\<rparr> of
        Inl e \<Rightarrow> Inl e
      | Inr a \<Rightarrow>
          Inr \<lparr>ObjectCount = ia_count a, TotalBytes = NewQuantity D (ia_bytes a),
               OldestObject = (if ia_hasTime a then Some (ia_oldest a) else None),
               NewestObject = (if ia_hasTime a then Some (ia_newest a) else None)\<rparr>)"

section \<open>One E1 cycle\<close>

record probeResult =
  pr_Reachable :: bool
  ReachableReason :: string
  ReachableMessage :: string
  pr_BucketSecurityValid :: bool
  BucketSecurityReason :: string
  BucketSecurityMessage :: string
  pr_DetectedFormat :: string
  pr_DetectedVersion :: string
  LastSuccessfulBackup :: "time option"
  LatestBackup :: "LatestBackupStatus option"
  Inventory :: "InventoryStatus option"

definition reachOnly :: "bool \<Rightarrow> string \<Rightarrow> string \<Rightarrow> probeResult" where
  "reachOnly r reason message =
     \<lparr>pr_Reachable = r, ReachableReason = reason, ReachableMessage = message,
      pr_BucketSecurityValid = False, BucketSecurityReason = [], BucketSecurityMessage = [],
      pr_DetectedFormat = [], pr_DetectedVersion = [], LastSuccessfulBackup = None,
      LatestBackup = None, Inventory = None\<rparr>"

definition probeRepository :: "deps \<Rightarrow> BackupRepositorySpec \<Rightarrow> S3Credentials \<Rightarrow> probeResult" where
  "probeRepository D spec creds =
     (case buildS3Client D (S3 spec) creds of
        Inl e \<Rightarrow> reachOnly False ReasonClientBuildFailed e
      | Inr client \<Rightarrow>
          let (reachable, rReason, rMsg) = checkReachability client spec;
              result = reachOnly reachable rReason rMsg
          in if \<not> reachable then result
             else
               let (secValid, secReason, secMsg) = checkBucketSecurity client spec;
                   (format, version, lastSuccess, latest) = detectFormatAndTimestamp D client spec
               in result
                    \<lparr>pr_BucketSecurityValid := secValid, BucketSecurityReason := secReason,
                     BucketSecurityMessage := secMsg, pr_DetectedFormat := format,
                     pr_DetectedVersion := version, LastSuccessfulBackup := lastSuccess,
                     LatestBackup := latest,
                     Inventory :=
                       (case runInventoryProbe D client spec of Inl e \<Rightarrow> None | Inr i \<Rightarrow> Some i)\<rparr>)"

section \<open>The loops in closed form\<close>

abbreviation listed_ok :: "ObjectInfo list \<Rightarrow> bool" where
  "listed_ok objs \<equiv> list_all (\<lambda>obj. oi_Err obj = None) objs"

definition first_error :: "ObjectInfo list \<Rightarrow> s3_error option" where
  "first_error objs = (case List.find (\<lambda>obj. oi_Err obj \<noteq> None) objs of None \<Rightarrow> None | Some obj \<Rightarrow> oi_Err obj)"

lemma first_error_simps [simp]:
  "first_error [] = None"
  "first_error (obj # objs) = (case oi_Err obj of Some e \<Rightarrow> Some e | None \<Rightarrow> first_error objs)"
  by (auto simp: first_error_def split: option.splits)

lemma first_error_None: "first_error objs = None \<longleftrightarrow> listed_ok objs"
  by (induction objs) (auto split: option.splits)

lemma reach_loop_eq:
  "0 \<le> n \<Longrightarrow> n < 10 \<Longrightarrow> reach_loop objs n =
     (case first_error (take (nat (10 - n)) objs) of
        Some e \<Rightarrow> Inl e
      | None \<Rightarrow> Inr (n + int (length (take (nat (10 - n)) objs))))"
proof (induction objs arbitrary: n)
  case (Cons obj objs)
  have "nat (10 - n) = Suc (nat (10 - (n + 1)))"
    using Cons.prems by simp
  then have take: "take (nat (10 - n)) (obj # objs) = obj # take (nat (10 - (n + 1))) objs"
    by simp
  show ?case
  proof (cases "n + 1 < 10")
    case True
    then show ?thesis
      using Cons.IH [of "n + 1"] Cons.prems unfolding take by (simp split: option.splits)
  next
    case False
    then have "n = 9" using Cons.prems by simp
    then show ?thesis unfolding take by (simp split: option.splits)
  qed
qed simp

lemma inventory_loop_started:
  "inventory_loop objs \<lparr>ia_count = wrap64 c, ia_bytes = wrap64 b, ia_oldest = old, ia_newest = new, ia_hasTime = True\<rparr> =
     (case first_error objs of
        Some e \<Rightarrow> Inl e
      | None \<Rightarrow>
          Inr \<lparr>ia_count = wrap64 (c + int (length objs)), ia_bytes = wrap64 (b + sum_list (map oi_Size objs)),
               ia_oldest = Min (insert old (oi_LastModified ` set objs)),
               ia_newest = Max (insert new (oi_LastModified ` set objs)), ia_hasTime = True\<rparr>)"
proof (induction objs arbitrary: c b old new)
  case (Cons obj objs)
  show ?case
    using Cons Min_keep [of "oi_LastModified ` set objs" "oi_LastModified obj" old]
      Max_keep [of "oi_LastModified ` set objs" new "oi_LastModified obj"]
    by (cases "oi_LastModified obj < old"; cases "new < oi_LastModified obj")
       (simp_all add: wrap64_wrap64_add add.assoc del: Min_insert Max_insert split: option.split)
qed simp

lemma inventory_loop_eq:
  "inventory_loop objs \<lparr>ia_count = 0, ia_bytes = 0, ia_oldest = z, ia_newest = z, ia_hasTime = False\<rparr> =
     (case first_error objs of
        Some e \<Rightarrow> Inl e
      | None \<Rightarrow>
          Inr \<lparr>ia_count = wrap64 (int (length objs)), ia_bytes = wrap64 (sum_list (map oi_Size objs)),
               ia_oldest = (if objs = [] then z else Min (oi_LastModified ` set objs)),
               ia_newest = (if objs = [] then z else Max (oi_LastModified ` set objs)),
               ia_hasTime = (objs \<noteq> [])\<rparr>)"
proof (cases objs)
  case (Cons obj rest)
  then show ?thesis
    using inventory_loop_started [of rest 1 "oi_Size obj"] by (simp add: algebra_simps split: option.split)
qed (simp add: wrap64_def)

lemma restic_loop_eq:
  "restic_loop objs n new =
     (if listed_ok objs
      then Some (n + int (length objs), Max (insert new (oi_LastModified ` set objs))) else None)"
proof (induction objs arbitrary: n new)
  case (Cons obj objs)
  then show ?case by (simp add: Max_keep del: Max_insert)
qed simp

lemma sentinel_loop_eq:
  "sentinel_loop objs acc =
     (if listed_ok objs then Some (acc @ filter (\<lambda>obj. HasSuffix (oi_Key obj) sentinel_suffix) objs) else None)"
  by (induction objs arbitrary: acc) auto

section \<open>Properties\<close>

text \<open>
  C29: the inventory is exact. The probe returns the first error of the recursive listing if there
  is one; otherwise the object count and the sum of all sizes, both as 64-bit integers, and the
  minimum and maximum modification times, absent for an empty prefix.
\<close>

theorem runInventoryProbe_exact:
  "runInventoryProbe D client spec =
     (let objs = ListObjects client (Bucket (S3 spec)) (Prefix (S3 spec) @ ''/'') True in
      case first_error objs of
        Some e \<Rightarrow> Inl e
      | None \<Rightarrow>
          Inr \<lparr>ObjectCount = wrap64 (int (length objs)),
               TotalBytes = NewQuantity D (wrap64 (sum_list (map oi_Size objs))),
               OldestObject = (if objs = [] then None else Some (Min (oi_LastModified ` set objs))),
               NewestObject = (if objs = [] then None else Some (Max (oi_LastModified ` set objs)))\<rparr>)"
  by (simp add: runInventoryProbe_def inventory_loop_eq Let_def split: option.split)

definition reachable_by :: "deps \<Rightarrow> BackupRepositorySpec \<Rightarrow> S3Credentials \<Rightarrow> s3client \<Rightarrow> bool" where
  "reachable_by D spec creds client \<longleftrightarrow>
     buildS3Client D (S3 spec) creds = Inr client \<and>
     listed_ok (take 10 (ListObjects client (Bucket (S3 spec)) (Prefix (S3 spec) @ ''/'') False))"

lemma checkReachability_iff:
  "fst (checkReachability client spec) \<longleftrightarrow>
     listed_ok (take 10 (ListObjects client (Bucket (S3 spec)) (Prefix (S3 spec) @ ''/'') False))"
  using reach_loop_eq [of 0]
  by (auto simp: checkReachability_def first_error_None [symmetric] split: option.split prod.split)

lemma checkBucketSecurity_iff:
  "fst (checkBucketSecurity client spec) \<longleftrightarrow>
     HasPrefix (Endpoint (S3 spec)) ''https://'' \<and>
     (RequireObjectLock (S3 spec) \<longrightarrow> (\<exists>reply. GetObjectLockConfig client (Bucket (S3 spec)) = Inr reply)) \<and>
     (RequireBucketEncryption (S3 spec) \<longrightarrow> (\<exists>reply. GetBucketEncryption client (Bucket (S3 spec)) = Inr reply))"
  by (auto simp: checkBucketSecurity_def err_of_def Let_def split: option.splits sum.splits)

lemma probeRepository_cases:
  obtains (noclient) e where "buildS3Client D (S3 spec) creds = Inl e"
      "probeRepository D spec creds = reachOnly False ReasonClientBuildFailed e"
  | (unreachable) client reason msg where "buildS3Client D (S3 spec) creds = Inr client"
      "checkReachability client spec = (False, reason, msg)"
      "probeRepository D spec creds = reachOnly False reason msg"
  | (reached) client where "buildS3Client D (S3 spec) creds = Inr client"
      "fst (checkReachability client spec)" "pr_Reachable (probeRepository D spec creds)"
      "pr_BucketSecurityValid (probeRepository D spec creds) = fst (checkBucketSecurity client spec)"
proof (cases "buildS3Client D (S3 spec) creds")
  case (Inl e)
  then show ?thesis
    by (intro noclient [of e]) (simp_all add: probeRepository_def)
next
  case (Inr client)
  obtain r reason msg where r: "checkReachability client spec = (r, reason, msg)"
    by (cases "checkReachability client spec")
  show ?thesis
  proof (cases r)
    case True
    with Inr r show ?thesis
      by (intro reached [of client]) (simp_all add: probeRepository_def reachOnly_def split: prod.split)
  next
    case False
    with Inr r show ?thesis
      by (intro unreachable [of client reason msg]) (simp_all add: probeRepository_def)
  qed
qed

text \<open>
  C30: the two E1 verdicts mean what their conditions claim. Reachable holds exactly if the client
  could be built and the first ten entries of the non-recursive listing came back without an error;
  BucketSecurityValid holds exactly if in addition the endpoint is https and the question after every security
  feature the spec requires was answered without an error. What the answer says is not looked at: a bucket that
  reports Object Lock as anything but enabled passes.
\<close>

theorem probeRepository_verdicts:
  "(pr_Reachable (probeRepository D spec creds) \<longleftrightarrow> (\<exists>client. reachable_by D spec creds client)) \<and>
   (pr_BucketSecurityValid (probeRepository D spec creds) \<longleftrightarrow>
      (\<exists>client. reachable_by D spec creds client \<and> HasPrefix (Endpoint (S3 spec)) ''https://'' \<and>
        (if RequireObjectLock (S3 spec) then \<exists>reply. GetObjectLockConfig client (Bucket (S3 spec)) = Inr reply else True) \<and>
        (if RequireBucketEncryption (S3 spec) then \<exists>reply. GetBucketEncryption client (Bucket (S3 spec)) = Inr reply
         else True)))"
proof (cases D spec creds rule: probeRepository_cases)
  case (unreachable client reason msg)
  then show ?thesis
    using checkReachability_iff [of client spec] by (auto simp: reachable_by_def reachOnly_def)
next
  case (reached client)
  then show ?thesis
    using checkReachability_iff [of client spec] checkBucketSecurity_iff [of client spec]
    by (auto simp: reachable_by_def)
qed (auto simp: reachable_by_def reachOnly_def)

text \<open>
  The restic probe reports the modification time of the newest snapshot file, and nothing if
  the listing failed or is empty.
\<close>

theorem readResticLatestSnapshotTime_max:
  "readResticLatestSnapshotTime client spec =
     (let objs = ListObjects client (Bucket (S3 spec)) (Prefix (S3 spec) @ ''/snapshots/'') False in
      if listed_ok objs \<and> objs \<noteq> []
      then Some (Max (insert zero_time (oi_LastModified ` set objs))) else None)"
  by (auto simp: readResticLatestSnapshotTime_def restic_loop_eq Let_def)

lemma strip_both:
  assumes "HasPrefix key p" "HasSuffix key s" "p \<noteq> []" "last p \<notin> set s"
  shows "key = p @ TrimSuffix (TrimPrefix key p) s @ s"
proof -
  obtain r q where r: "key = p @ r" and q: "key = q @ s"
    using assms(1,2) unfolding HasPrefix_iff HasSuffix_iff by blast
  then consider us where "p = q @ us" "us @ r = s" | us where "r = us @ s"
    by (auto simp: append_eq_append_conv2)
  then obtain us where us: "r = us @ s"
  proof cases
    case (1 us)
    have "us = []"
    proof (rule ccontr)
      assume "us \<noteq> []"
      then have "last p \<in> set us"
        using 1(1) by simp
      then show False
        using 1(2) assms(4) by auto
    qed
    with 1 that [of "[]"] show ?thesis by simp
  qed blast
  then show ?thesis
    by (simp add: r TrimPrefix_append TrimSuffix_append)
qed

lemma readWalgSentinel_SomeE:
  fixes spec
  defines "listPrefix \<equiv> Prefix (S3 spec) @ ''/basebackups_005/''"
  assumes "readWalgSentinel D client spec = (version, ts, Some b)"
  obtains obj rest body s where
    "listed_ok (ListObjects client (Bucket (S3 spec)) listPrefix False)"
    "SortObjects D (\<lambda>a b. After (oi_LastModified a) (oi_LastModified b))
       (filter (\<lambda>obj. HasSuffix (oi_Key obj) sentinel_suffix)
          (ListObjects client (Bucket (S3 spec)) listPrefix False)) = obj # rest"
    "getObjectBody client (Bucket (S3 spec)) (oi_Key obj) = Inr body" "UnmarshalSentinel D body = Some s"
    "(version, ts, Some b) = sentinelStatus D listPrefix obj s"
  using assms(2) unfolding readWalgSentinel_def sentinel_loop_eq Let_def listPrefix_def [symmetric]
  by (auto split: if_splits list.splits sum.splits option.splits)

text \<open>
  The claimed latest backup of a WAL-G repository comes from its newest sentinel. If the probe
  reports a backup, then among the listed sentinels none is newer than the one it was read from,
  the reported name is that sentinel's key without the listing prefix and the suffix, and the
  creation time is the finish time in the sentinel, or the object's modification time if that
  cannot be parsed.
\<close>

theorem readWalgSentinel_newest:
  assumes "sorts (SortObjects D)" and "readWalgSentinel D client spec = (version, ts, Some b)"
    and "objs = ListObjects client (Bucket (S3 spec)) (Prefix (S3 spec) @ ''/basebackups_005/'') False"
    and "list_all (\<lambda>obj. HasPrefix (oi_Key obj) (Prefix (S3 spec) @ ''/basebackups_005/'')) objs"
  shows "\<exists>obj body s. obj \<in> set objs \<and>
    oi_Key obj = Prefix (S3 spec) @ ''/basebackups_005/'' @ lb_Name b @ sentinel_suffix \<and>
    (\<forall>k \<in> set objs. HasSuffix (oi_Key k) sentinel_suffix \<longrightarrow> oi_LastModified k \<le> oi_LastModified obj) \<and>
    getObjectBody client (Bucket (S3 spec)) (oi_Key obj) = Inr body \<and> UnmarshalSentinel D body = Some s \<and>
    lb_CreatedAt b = parseWalgTime (FinishTime s) (oi_LastModified obj) \<and> ts = Some (lb_CreatedAt b)"
proof -
  let ?p = "Prefix (S3 spec) @ ''/basebackups_005/''"
  let ?lt = "\<lambda>a b. After (oi_LastModified a) (oi_LastModified b)"
  let ?S = "filter (\<lambda>obj. HasSuffix (oi_Key obj) sentinel_suffix) objs"
  obtain obj rest body s where s: "SortObjects D ?lt ?S = obj # rest"
    and g: "getObjectBody client (Bucket (S3 spec)) (oi_Key obj) = Inr body" "UnmarshalSentinel D body = Some s"
    and st: "(version, ts, Some b) = sentinelStatus D ?p obj s"
    using assms(2) unfolding assms(3) by (rule readWalgSentinel_SomeE)
  note sorted = sortsD [OF assms(1) weak_order_key(2), where f1 = oi_LastModified, folded After_iff, of ?S]
  have set: "set (obj # rest) = set ?S"
    using sorted(1) unfolding s by (rule mset_eq_setD)
  then have obj: "obj \<in> set objs" "HasSuffix (oi_Key obj) sentinel_suffix"
    by auto
  have newest: "oi_LastModified k \<le> oi_LastModified obj" if "k \<in> set ?S" for k
    using that sorted(2) unfolding s set [symmetric] by auto
  have "oi_Key obj = ?p @ TrimSuffix (TrimPrefix (oi_Key obj) ?p) sentinel_suffix @ sentinel_suffix"
    using obj assms(4) by (intro strip_both) (auto simp: list_all_iff sentinel_suffix_def)
  with obj g st newest show ?thesis
    by (intro exI [of _ obj] exI [of _ body] exI [of _ s]) (simp add: sentinelStatus_def Let_def)
qed

theorem readWalgSentinel_newest_witness:
  "\<exists>version ts b. readWalgSentinel sample_deps sample_client sample_spec = (version, ts, Some b) \<and>
     lb_Name b = ''base_1'' \<and>
     (\<exists>obj :: ObjectInfo. oi_Key obj = Prefix (S3 sample_spec) @ ''/basebackups_005/'' @ lb_Name b @ sentinel_suffix)"
proof -
  have "map_option lb_Name (snd (snd (readWalgSentinel sample_deps sample_client sample_spec))) =
      Some ''base_1''"
    by code_simp
  then obtain version ts b where
    *: "readWalgSentinel sample_deps sample_client sample_spec = (version, ts, Some b)" "lb_Name b = ''base_1''"
    by (cases "readWalgSentinel sample_deps sample_client sample_spec") auto
  have "list_all (\<lambda>obj. HasPrefix (oi_Key obj) (Prefix (S3 sample_spec) @ ''/basebackups_005/''))
      (ListObjects sample_client (Bucket (S3 sample_spec)) (Prefix (S3 sample_spec) @ ''/basebackups_005/'') False)"
    by code_simp
  from readWalgSentinel_newest [OF sample_deps_ok(3) *(1) refl this]
  obtain obj :: ObjectInfo where "oi_Key obj = Prefix (S3 sample_spec) @ ''/basebackups_005/'' @ lb_Name b @ sentinel_suffix"
    by blast
  with * show ?thesis
    by (intro exI conjI)
qed

end
