(* ===== verification/Validators.thy ===== *)
theory Validators
  imports Probe
begin

text \<open>
  What the validation Jobs run (\<^verbatim>\<open>e2_job.go\<close>, \<^verbatim>\<open>e3_job.go\<close>, \<^verbatim>\<open>e4_job.go\<close>): image, command line,
  environment and security context of each level, the choice of WAL segments to sample, and the
  three spawn functions with the requests they send to the API server. \<open>VI\<close> stands for the images the
  reconciler was configured with.
\<close>

section \<open>Images and command lines\<close>

definition validatorImageFor :: "deps \<Rightarrow> ValidatorImages \<Rightarrow> BackupFormat \<Rightarrow> go_error + string" where
  "validatorImageFor D VI format =
     (case format of
        BackupFormatWalg \<Rightarrow>
          if Walg VI = [] then Inl (GoError ''ARETE_VALIDATOR_WALG_IMAGE not configured'') else Inr (Walg VI)
      | BackupFormatRestic \<Rightarrow>
          if Restic VI = [] then Inl (GoError ''ARETE_VALIDATOR_RESTIC_IMAGE not configured'')
          else Inr (Restic VI)
      | BackupFormatBarman \<Rightarrow> Inl (GoError ''barman validator not yet implemented'')
      | OtherFormat s \<Rightarrow> Inl (GoError (''unknown format '' @ Quote D s)))"

definition e2ArgsFor :: "BackupFormat \<Rightarrow> string list" where
  "e2ArgsFor format = (case format of BackupFormatWalg \<Rightarrow> [''backup-list''] | _ \<Rightarrow> [])"

definition e2CommandFor :: "BackupFormat \<Rightarrow> bool \<Rightarrow> string list" where
  "e2CommandFor format cleanLocks =
     (case format of
        BackupFormatRestic \<Rightarrow>
          [''sh'', ''-c'',
           ''export RESTIC_CACHE_DIR=/tmp && ''
           @ (if cleanLocks then ''restic --retry-lock 15m unlock || true && '' else [])
           @ ''restic --retry-lock 15m check && '' @ ''restic --retry-lock 15m snapshots --json'']
      | _ \<Rightarrow> [])"

definition autoCleanStaleLocks :: "BackupRepository \<Rightarrow> bool" where
  "autoCleanStaleLocks br \<longleftrightarrow>
     (if Format (Spec br) \<noteq> BackupFormatRestic then False
      else AutoCleanStaleLocks (Spec br) = Some True)"

section \<open>Environment variables\<close>

definition secretKeyFor :: "string \<Rightarrow> gomap \<Rightarrow> string" where
  "secretKeyFor canonical mapping =
     (case map_of mapping canonical of
        Some k \<Rightarrow> if k \<noteq> [] then k else canonical
      | None \<Rightarrow> canonical)"

definition credEnv :: "string \<Rightarrow> string \<Rightarrow> gomap \<Rightarrow> bool \<Rightarrow> EnvVar" where
  "credEnv canonical secretName mapping isOptional =
     \<lparr>ev_Name = canonical,
      ev_Source = SecretKeyRef secretName (secretKeyFor canonical mapping) isOptional\<rparr>"

definition maps_key :: "string \<Rightarrow> SecretReference \<Rightarrow> bool" where
  "maps_key canonical ref \<longleftrightarrow> map_of (sr_KeyMapping ref) canonical \<noteq> None"

definition resolveCredEnv :: "string \<Rightarrow> bool \<Rightarrow> S3Source \<Rightarrow> EnvVar" where
  "resolveCredEnv canonical isOptional src =
     (case List.find (maps_key canonical) (CredentialsSecret src # AdditionalSecrets src) of
        Some ref \<Rightarrow> credEnv canonical (sr_Name ref) (sr_KeyMapping ref) isOptional
      | None \<Rightarrow>
          credEnv canonical (sr_Name (CredentialsSecret src)) (sr_KeyMapping (CredentialsSecret src))
            isOptional)"

definition canonicals :: "BackupFormat \<Rightarrow> (string \<times> bool) list" where
  "canonicals format =
     [(''AWS_ACCESS_KEY_ID'', False), (''AWS_SECRET_ACCESS_KEY'', False), (''AWS_SESSION_TOKEN'', True)]
     @ (case format of
          BackupFormatWalg \<Rightarrow> [(''WALG_LIBSODIUM_KEY'', True)]
        | BackupFormatRestic \<Rightarrow> [(''RESTIC_PASSWORD'', False)]
        | _ \<Rightarrow> [])"

definition credentialEnvVars :: "BackupRepositorySpec \<Rightarrow> EnvVar list" where
  "credentialEnvVars spec =
     map (\<lambda>(name, isOptional). resolveCredEnv name isOptional (S3 spec)) (canonicals (Format spec))"

abbreviation plainEnv :: "string \<Rightarrow> string \<Rightarrow> EnvVar" where
  "plainEnv n v \<equiv> \<lparr>ev_Name = n, ev_Source = EnvValue v\<rparr>"

definition e2EnvFor :: "BackupRepositorySpec \<Rightarrow> EnvVar list" where
  "e2EnvFor spec =
     (let base =
        (case Format spec of
           BackupFormatWalg \<Rightarrow>
             [plainEnv ''WALG_S3_PREFIX'' (''s3://'' @ Bucket (S3 spec) @ ''/'' @ Prefix (S3 spec)),
              plainEnv ''AWS_REGION'' (Region (S3 spec)),
              plainEnv ''AWS_ENDPOINT'' (Endpoint (S3 spec)),
              plainEnv ''AWS_S3_FORCE_PATH_STYLE'' ''true'']
         | BackupFormatRestic \<Rightarrow>
             [plainEnv ''RESTIC_REPOSITORY''
                (''s3:'' @ Endpoint (S3 spec) @ ''/'' @ Bucket (S3 spec) @ ''/'' @ Prefix (S3 spec)),
              plainEnv ''AWS_REGION'' (Region (S3 spec))]
         | _ \<Rightarrow> []);
          keys = sort (map fst (ExtraEnv (S3 spec)))
      in base @ map (\<lambda>k. plainEnv k (map_get (ExtraEnv (S3 spec)) k)) keys)"

definition baseEnv :: "BackupRepositorySpec \<Rightarrow> EnvVar list" where
  "baseEnv spec = credentialEnvVars spec @ e2EnvFor spec"

section \<open>Security contexts\<close>

definition restrictedPodSecurityContext :: PodSecurityContext where
  "restrictedPodSecurityContext =
     \<lparr>psc_RunAsNonRoot = True, psc_RunAsUser = 65532, psc_RunAsGroup = 65532, psc_FSGroup = 65532,
      psc_SeccompProfile = ''RuntimeDefault''\<rparr>"

definition restrictedContainerSecurityContext :: SecurityContext where
  "restrictedContainerSecurityContext =
     \<lparr>sc_AllowPrivilegeEscalation = False, sc_CapabilitiesDrop = [''ALL''], sc_RunAsNonRoot = True,
      sc_SeccompProfile = ''RuntimeDefault''\<rparr>"

section \<open>Sampling WAL segments\<close>

definition isHex :: "char \<Rightarrow> bool" where
  "isHex c \<longleftrightarrow>
     (CHR ''0'' \<le> c \<and> c \<le> CHR ''9'') \<or> (CHR ''A'' \<le> c \<and> c \<le> CHR ''F'') \<or> (CHR ''a'' \<le> c \<and> c \<le> CHR ''f'')"

definition walgSegmentName :: "string \<Rightarrow> string \<Rightarrow> string option" where
  "walgSegmentName key listPrefix =
     (let base = TrimPrefix key listPrefix;
          base = (case LastIndexByte base (CHR ''.'') of
                    Some dot \<Rightarrow> if dot > 0 then take dot base else base
                  | None \<Rightarrow> base)
      in if length base \<noteq> 24 then None
         else if \<not> list_all isHex base then None
         else Some base)"

fun segment_loop :: "ObjectInfo list \<Rightarrow> string \<Rightarrow> string list \<Rightarrow> s3_error + string list" where
  "segment_loop [] listPrefix acc = Inr acc"
| "segment_loop (obj # objs) listPrefix acc =
     (case oi_Err obj of
        Some e \<Rightarrow> Inl e
      | None \<Rightarrow>
          segment_loop objs listPrefix
            (case walgSegmentName (oi_Key obj) listPrefix of Some name \<Rightarrow> acc @ [name] | None \<Rightarrow> acc))"

text \<open>A negative sample size makes the slice expression \<^verbatim>\<open>segments[:n]\<close> panic.\<close>

definition pickWalgSamples ::
  "deps \<Rightarrow> BackupRepository \<Rightarrow> S3Credentials \<Rightarrow> int \<Rightarrow> (string + string list) go" where
  "pickWalgSamples D br creds n =
     (case buildS3Client D (S3 (Spec br)) creds of
        Inl e \<Rightarrow> Ret (Inl e)
      | Inr mc \<Rightarrow>
          let listPrefix = Prefix (S3 (Spec br)) @ ''/wal_005/'' in
          case segment_loop (ListObjects mc (Bucket (S3 (Spec br))) listPrefix True) listPrefix [] of
            Inl e \<Rightarrow> Ret (Inl (s3_text e))
          | Inr segments \<Rightarrow>
              if segments = [] then Ret (Inr [])
              else
                let n = (if n > int (length segments) then int (length segments) else n) in
                if n < 0 then Panic
                else Ret (Inr (sort (take (nat n) (Shuffle D segments)))))"

section \<open>Invocations of the deeper levels\<close>

type_synonym invocation = "string list \<times> string list \<times> EnvVar list"

definition walgSampleScript :: "string list \<Rightarrow> string" where
  "walgSampleScript samples =
     ''set +e; for s in '' @ Join samples '' '' @ ''; do '' @
     ''  echo fetching $s; '' @
     ''  rm -f /tmp/seg; '' @
     ''  for attempt in 1 2; do '' @
     ''    wal-g wal-fetch \"$s\" /tmp/seg >/dev/null 2>&1; '' @
     ''    [ -s /tmp/seg ] && break; '' @
     ''    rm -f /tmp/seg; '' @
     ''  done; '' @
     ''  if [ ! -s /tmp/seg ]; then '' @
     ''    echo FETCH_FAILED $s; exit 1; '' @
     ''  fi; '' @
     ''done; '' @
     ''rm -f /tmp/seg; '' @
     ''echo OK '' @ itoa (int (length samples)) @ '' WAL segments verified''"

definition e3CommandArgsEnv ::
  "deps \<Rightarrow> BackupRepository \<Rightarrow> S3Credentials \<Rightarrow> (go_error + invocation) go" where
  "e3CommandArgsEnv D br creds =
     (case SampledRetrievalObjects (Spec br) of
        None \<Rightarrow> Panic
      | Some target \<Rightarrow>
          (case Format (Spec br) of
             BackupFormatWalg \<Rightarrow>
               go_bind (pickWalgSamples D br creds target)
                 (\<lambda>r. Ret (case r of
                    Inl e \<Rightarrow> Inl (GoError (''pick wal samples: '' @ e))
                  | Inr samples \<Rightarrow>
                      if samples = [] then Inl (GoError ''no WAL segments to sample'')
                      else Inr ([''sh'', ''-c''], [walgSampleScript samples], baseEnv (Spec br))))
           | BackupFormatRestic \<Rightarrow>
               let subset = itoa (wrap64 (target * 16)) @ ''M'';
                   script = ''export RESTIC_CACHE_DIR=/tmp && ''
                     @ (if autoCleanStaleLocks br then ''restic --retry-lock 15m unlock || true && '' else [])
                     @ ''restic --retry-lock 15m check --read-data-subset '' @ subset
               in Ret (Inr ([''sh'', ''-c''], [script], baseEnv (Spec br)))
           | f \<Rightarrow> Ret (Inl (GoError (''E3 not implemented for format '' @ Quote D (format_string f))))))"

definition walgFetchScript :: string where
  "walgFetchScript =
     ''set -e; '' @
     ''rm -rf /work/extract /work/.wal-g; '' @
     ''mkdir -p /work/extract; '' @
     ''START=$(date +%s); '' @
     ''wal-g backup-fetch /work/extract LATEST 2>&1 | tail -10; '' @
     ''RC=$?; '' @
     ''END=$(date +%s); '' @
     ''DURATION=$((END - START)); '' @
     ''[ $DURATION -lt 1 ] && DURATION=1; '' @
     ''BYTES=$(du -sb /work/extract 2>/dev/null | awk '' @ [CHR 0x27] @ ''{print $1}'' @ [CHR 0x27] @ ''); '' @
     ''[ -z \"$BYTES\" ] && BYTES=0; '' @
     ''echo \"STATS rc=$RC duration=$DURATION bytes=$BYTES objects=1 failed=0\"; '' @
     ''exit $RC''"

definition resticReadDataScript :: string where
  "resticReadDataScript =
     ''set -e; '' @
     ''rm -rf /work/cache; '' @
     ''mkdir -p /work/cache; '' @
     ''export RESTIC_CACHE_DIR=/work/cache; '' @
     ''RX_BEFORE=$(cat /sys/class/net/eth0/statistics/rx_bytes 2>/dev/null || echo 0); '' @
     ''START=$(date +%s); '' @
     ''restic --retry-lock 15m check --read-data 2>&1 | tail -10; '' @
     ''RC=$?; '' @
     ''END=$(date +%s); '' @
     ''RX_AFTER=$(cat /sys/class/net/eth0/statistics/rx_bytes 2>/dev/null || echo 0); '' @
     ''BYTES=$((RX_AFTER - RX_BEFORE)); '' @
     ''[ $BYTES -lt 0 ] && BYTES=0; '' @
     ''DURATION=$((END - START)); '' @
     ''[ $DURATION -lt 1 ] && DURATION=1; '' @
     ''echo \"STATS rc=$RC duration=$DURATION bytes=$BYTES objects=1 failed=0\"; '' @
     ''exit $RC''"

definition e4CommandArgsEnv :: "deps \<Rightarrow> BackupRepository \<Rightarrow> go_error + invocation" where
  "e4CommandArgsEnv D br =
     (case Format (Spec br) of
        BackupFormatWalg \<Rightarrow> Inr ([''sh'', ''-c''], [walgFetchScript], baseEnv (Spec br))
      | BackupFormatRestic \<Rightarrow> Inr ([''sh'', ''-c''], [resticReadDataScript], baseEnv (Spec br))
      | f \<Rightarrow> Inl (GoError (''E4 not implemented for format '' @ Quote D (format_string f))))"

section \<open>Spawning\<close>

text \<open>The requests sent, and the Job that exists afterwards or the error.\<close>

type_synonym spawned = "effect list \<times> (go_error + Job)"

definition jobActiveDeadline :: duration where
  "jobActiveDeadline = 30 * Minute"

definition e4ActiveDeadline :: duration where
  "e4ActiveDeadline = 1 * Hour"

definition validatorContainer :: "string \<Rightarrow> invocation \<Rightarrow> (string \<times> string) list \<Rightarrow> Container" where
  "validatorContainer img ivc mounts =
     (case ivc of (cmd, args, env) \<Rightarrow>
        \<lparr>ct_Name = ''validator'', ct_Image = img, ct_Command = cmd, ct_Args = args,
         ct_SecurityContext = restrictedContainerSecurityContext, ct_Env = env, ct_VolumeMounts = mounts\<rparr>)"

definition validatorJob ::
  "BackupRepository \<Rightarrow> string \<Rightarrow> gomap \<Rightarrow> duration \<Rightarrow> Container \<Rightarrow> (string \<times> string) list \<Rightarrow> Job" where
  "validatorJob br name labels deadline container volumes =
     \<lparr>j_Name = name, j_Namespace = jobNamespace br, j_Labels = labels,
      j_CreationTimestamp = zero_time, j_Owner = None,
      j_Spec =
        \<lparr>TTLSecondsAfterFinished = 600, BackoffLimit = 0, ActiveDeadlineSeconds = go_div deadline Second,
         RestartPolicy = ''Never'', js_SecurityContext = restrictedPodSecurityContext,
         Containers = [container], Volumes = volumes\<rparr>,
      j_Conditions = [], j_StartTime = None, j_CompletionTime = None\<rparr>"

definition submitJob :: "kube \<Rightarrow> BackupRepository \<Rightarrow> string \<Rightarrow> Job \<Rightarrow> spawned" where
  "submitJob K br ownerErr job =
     (case setJobOwner K br job of
        Inl e \<Rightarrow> ([], Inl (GoError (ownerErr @ e)))
      | Inr job \<Rightarrow>
          ([CreateJob job],
           case createJob K job of
             None \<Rightarrow> Inr job
           | Some e \<Rightarrow> if IsAlreadyExists e then Inr job else Inl (GoError (''create job: '' @ api_text e))))"

definition spawnE2Job :: "deps \<Rightarrow> ValidatorImages \<Rightarrow> kube \<Rightarrow> time \<Rightarrow> BackupRepository \<Rightarrow> spawned" where
  "spawnE2Job D VI K now br =
     (case validatorImageFor D VI (Format (Spec br)) of
        Inl e \<Rightarrow> ([], Inl e)
      | Inr img \<Rightarrow>
          let ivc = (e2CommandFor (Format (Spec br)) (autoCleanStaleLocks br), e2ArgsFor (Format (Spec br)),
                     baseEnv (Spec br))
          in submitJob K br ''set owner reference: ''
               (validatorJob br (e2JobName D br now) (levelLabels br labelLevelE2) jobActiveDeadline
                  (validatorContainer img ivc []) []))"

definition spawnE3Job ::
  "deps \<Rightarrow> ValidatorImages \<Rightarrow> kube \<Rightarrow> time \<Rightarrow> BackupRepository \<Rightarrow> S3Credentials \<Rightarrow> spawned go" where
  "spawnE3Job D VI K now br creds =
     (case validatorImageFor D VI (Format (Spec br)) of
        Inl e \<Rightarrow> Ret ([], Inl e)
      | Inr img \<Rightarrow>
          go_bind (e3CommandArgsEnv D br creds)
            (\<lambda>r. Ret (case r of
               Inl e \<Rightarrow> ([], Inl e)
             | Inr ivc \<Rightarrow>
                 submitJob K br ''set owner reference: ''
                   (validatorJob br (e3JobName D br now) (levelLabels br labelLevelE3) jobActiveDeadline
                      (validatorContainer img ivc []) []))))"

definition ensureE4PVC :: "kube \<Rightarrow> BackupRepository \<Rightarrow> (effect list \<times> go_error option) go" where
  "ensureE4PVC K br =
     go_bind (deref (FullRetrievalPVCSize (Spec br)))
       (\<lambda>size. Ret
          (case setPVCOwner K br
                  \<lparr>pvc_Name = e4PVCName br, pvc_Namespace = jobNamespace br,
                   pvc_Labels = levelLabels br labelLevelE4, pvc_Owner = None,
                   pvc_AccessModes = [''ReadWriteOnce''],
                   pvc_StorageClassName = FullRetrievalStorageClass (Spec br), pvc_Storage = size\<rparr> of
             Inl e \<Rightarrow> ([], Some (GoError (''set pvc owner reference: '' @ e)))
           | Inr pvc \<Rightarrow>
               ([CreatePVC pvc],
                case createPVC K pvc of
                  None \<Rightarrow> None
                | Some e \<Rightarrow> if IsAlreadyExists e then None
                            else Some (GoError (''create pvc: '' @ api_text e)))))"

definition spawnE4Job ::
  "deps \<Rightarrow> ValidatorImages \<Rightarrow> kube \<Rightarrow> time \<Rightarrow> BackupRepository \<Rightarrow> bool \<Rightarrow> spawned go" where
  "spawnE4Job D VI K now br forced =
     (let triggerSource = trigger_string (if forced then TriggerSourceManual else TriggerSourceScheduled) in
      case validatorImageFor D VI (Format (Spec br)) of
        Inl e \<Rightarrow> Ret ([], Inl e)
      | Inr img \<Rightarrow>
          go_bind (ensureE4PVC K br)
            (\<lambda>(effs, err). Ret
               (case err of
                  Some e \<Rightarrow> (effs, Inl e)
                | None \<Rightarrow>
                    (case e4CommandArgsEnv D br of
                       Inl e \<Rightarrow> (effs, Inl e)
                     | Inr ivc \<Rightarrow>
                         let (effs', r) =
                           submitJob K br ''set job owner reference: ''
                             (validatorJob br (e4JobName D br now)
                                (levelLabels br labelLevelE4 @ [(labelTriggerSource, triggerSource)])
                                e4ActiveDeadline (validatorContainer img ivc [(''work'', ''/work'')])
                                [(''work'', e4PVCName br)])
                         in (effs @ effs', r)))))"

section \<open>Properties of sampling\<close>

lemma hex_no_dot: "list_all isHex s \<Longrightarrow> CHR ''.'' \<notin> set s"
  by (auto simp: list_all_iff isHex_def less_eq_char_def)

text \<open>
  \<^verbatim>\<open>walgSegmentName\<close> accepts exactly the WAL segments: after the listing prefix the key is 24
  hexadecimal digits, bare or followed by one extension. History, backup and partial files, whose
  names have a further dot or other characters, are rejected.
\<close>

theorem walgSegmentName_iff:
  "walgSegmentName key p = Some s \<longleftrightarrow>
     length s = 24 \<and> list_all isHex s \<and>
     (TrimPrefix key p = s \<or> (\<exists>ext. CHR ''.'' \<notin> set ext \<and> TrimPrefix key p = s @ CHR ''.'' # ext))"
proof -
  let ?b = "TrimPrefix key p"
  show ?thesis
  proof (cases "LastIndexByte ?b (CHR ''.'')")
    case None
    then have "CHR ''.'' \<notin> set ?b"
      by (simp add: LastIndexByte_None)
    with None show ?thesis
      by (auto simp: walgSegmentName_def Let_def)
  next
    case (Some dot)
    note d = LastIndexByte_Some [OF Some]
    then have split: "?b = take dot ?b @ CHR ''.'' # drop (Suc dot) ?b" "length (take dot ?b) = dot"
      using id_take_nth_drop [of dot ?b] by auto
    have dotted: "\<not> list_all isHex ?b"
      using d hex_no_dot nth_mem by metis
    have unique: "take dot ?b = s" if "?b = s @ CHR ''.'' # ext" "CHR ''.'' \<notin> set ext" for ext
      using Some LastIndexByte_append [OF that(2), of s] that(1) by auto
    show ?thesis
    proof (cases "dot > 0")
      case True
      then have "walgSegmentName key p = Some s \<longleftrightarrow> length s = 24 \<and> list_all isHex s \<and> take dot ?b = s"
        using Some by (auto simp: walgSegmentName_def Let_def)
      then show ?thesis
        using split d unique dotted by metis
    next
      case False
      then have "walgSegmentName key p = None"
        using Some dotted by (auto simp: walgSegmentName_def Let_def)
      moreover have False if "length s = 24" "?b = s @ CHR ''.'' # ext" "CHR ''.'' \<notin> set ext" for ext
        using unique [OF that(2,3)] that(1) False by auto
      ultimately show ?thesis
        using dotted by auto
    qed
  qed
qed

definition segmentsIn :: "ObjectInfo list \<Rightarrow> string \<Rightarrow> string list" where
  "segmentsIn objs listPrefix = List.map_filter (\<lambda>obj. walgSegmentName (oi_Key obj) listPrefix) objs"

lemma segment_loop_eq:
  "segment_loop objs p acc =
     (case first_error objs of Some e \<Rightarrow> Inl e | None \<Rightarrow> Inr (acc @ segmentsIn objs p))"
  by (induction objs arbitrary: acc) (auto simp: segmentsIn_def map_filter_simps split: option.splits)

text \<open>
  C34: the E3 sample of a WAL-G repository is drawn without replacement from the segments in the bucket,
  has the requested size or all segments if there are fewer, and is sorted; choosing it does
  not panic for any sample size that is not negative.
\<close>

theorem pickWalgSamples_sample:
  assumes "shuffles D" "0 \<le> n"
  shows "\<exists>r. pickWalgSamples D br creds n = Ret r \<and>
    (\<forall>samples mc. r = Inr samples \<longrightarrow> buildS3Client D (S3 (Spec br)) creds = Inr mc \<longrightarrow>
       (let p = Prefix (S3 (Spec br)) @ ''/wal_005/'';
            segments = segmentsIn (ListObjects mc (Bucket (S3 (Spec br))) p True) p
        in mset samples \<subseteq># mset segments \<and> int (length samples) = min n (int (length segments)) \<and>
           sorted samples))"
proof (cases "buildS3Client D (S3 (Spec br)) creds")
  case (Inr mc)
  let ?p = "Prefix (S3 (Spec br)) @ ''/wal_005/''"
  let ?objs = "ListObjects mc (Bucket (S3 (Spec br))) ?p True"
  let ?k = "nat (min n (int (length (segmentsIn ?objs ?p))))"
  have perm: "mset (Shuffle D xs) = mset xs" and len: "length (Shuffle D xs) = length xs" for xs
    using assms(1) by (auto simp: shuffles_def dest: spec [of _ xs] mset_eq_length)
  have sub: "mset (sort (take k (Shuffle D xs))) \<subseteq># mset xs" for k xs
    using mset_subset_eq_add_left [of "mset (take k (Shuffle D xs))" "mset (drop k (Shuffle D xs))"]
    by (simp add: perm flip: mset_append)
  show ?thesis
  proof (cases "first_error ?objs")
    case None
    then have "pickWalgSamples D br creds n =
        Ret (Inr (sort (take ?k (Shuffle D (segmentsIn ?objs ?p)))))"
      using Inr assms perm [of "[]"]
      by (auto simp: pickWalgSamples_def segment_loop_eq Let_def min_def)
    then show ?thesis
      using sub assms(2) Inr by (auto simp: len Let_def)
  qed (use Inr in \<open>simp add: pickWalgSamples_def segment_loop_eq Let_def\<close>)
qed (simp add: pickWalgSamples_def)

theorem pickWalgSamples_sample_witness:
  "pickWalgSamples sample_deps sample_br sample_creds 5 = Ret (Inr [''000000010000000000000001'']) \<and>
   mset [''000000010000000000000001''] \<subseteq>#
     mset (segmentsIn (ListObjects sample_client ''backups'' ''pg/wal_005/'' True) ''pg/wal_005/'')"
proof -
  have run: "pickWalgSamples sample_deps sample_br sample_creds 5 = Ret (Inr [''000000010000000000000001''])"
    by code_simp
  have "buildS3Client sample_deps (S3 (Spec sample_br)) sample_creds = Inr sample_client"
    by (simp add: buildS3Client_def sample_defs TrimPrefix_def HasPrefix_def)
  then show ?thesis
    using run pickWalgSamples_sample [of sample_deps 5 sample_br sample_creds]
    by (simp add: Let_def sample_br_def sample_spec_def)
qed

section \<open>Properties of the environment variables\<close>

lemma find_first: "\<forall>x \<in> set xs. \<not> P x \<Longrightarrow> P y \<Longrightarrow> List.find P (xs @ y # ys) = Some y"
  by (induction xs) auto

text \<open>
  Every credential variable of the format is passed to the validator, read from the first Secret, the
  primary before the additional ones in order, whose key mapping mentions it, under the mapped key; a mapping
  to the empty string keeps the canonical key.
\<close>

theorem credentialEnvVars_routing:
  assumes "(v, opt) \<in> set (canonicals (Format spec))"
    and "CredentialsSecret (S3 spec) # AdditionalSecrets (S3 spec) = earlier @ ref # later"
    and "\<forall>r \<in> set earlier. map_of (sr_KeyMapping r) v = None" and "map_of (sr_KeyMapping ref) v = Some k"
  shows "\<lparr>ev_Name = v, ev_Source = SecretKeyRef (sr_Name ref) (if k = [] then v else k) opt\<rparr>
    \<in> set (credentialEnvVars spec)"
proof -
  have "List.find (maps_key v) (CredentialsSecret (S3 spec) # AdditionalSecrets (S3 spec)) = Some ref"
    unfolding assms(2) using assms(3,4) by (intro find_first) (auto simp: maps_key_def)
  then have "resolveCredEnv v opt (S3 spec) =
      \<lparr>ev_Name = v, ev_Source = SecretKeyRef (sr_Name ref) (if k = [] then v else k) opt\<rparr>"
    using assms(4) by (simp add: resolveCredEnv_def credEnv_def secretKeyFor_def)
  then show ?thesis
    using assms(1) unfolding credentialEnvVars_def by force
qed

theorem credentialEnvVars_routing_witness:
  "\<lparr>ev_Name = ''RESTIC_PASSWORD'', ev_Source = SecretKeyRef ''restic'' ''pw'' False\<rparr>
    \<in> set (credentialEnvVars (sample_spec\<lparr>Format := BackupFormatRestic, S3 := (S3 sample_spec)
        \<lparr>AdditionalSecrets := [\<lparr>sr_Name = ''restic'', sr_Namespace = ''db'', sr_KeyMapping = [(''RESTIC_PASSWORD'', ''pw'')]\<rparr>]\<rparr>\<rparr>))"
  using credentialEnvVars_routing [of "''RESTIC_PASSWORD''" False "sample_spec\<lparr>Format := BackupFormatRestic, S3 := (S3 sample_spec)
        \<lparr>AdditionalSecrets := [\<lparr>sr_Name = ''restic'', sr_Namespace = ''db'', sr_KeyMapping = [(''RESTIC_PASSWORD'', ''pw'')]\<rparr>]\<rparr>\<rparr>"
      "[sample_secret]" "\<lparr>sr_Name = ''restic'', sr_Namespace = ''db'', sr_KeyMapping = [(''RESTIC_PASSWORD'', ''pw'')]\<rparr>"
      "[]" "''pw''"]
  by (simp add: canonicals_def sample_spec_def sample_secret_def)

text \<open>
  The environment of a Job does not depend on the iteration order of the \<^verbatim>\<open>extraEnv\<close> map: two maps with
  the same entries give the same list of variables.
\<close>

theorem e2EnvFor_deterministic:
  assumes "distinct (map fst (ExtraEnv (S3 spec)))" and "mset env = mset (ExtraEnv (S3 spec))"
  shows "e2EnvFor (spec\<lparr>S3 := (S3 spec)\<lparr>ExtraEnv := env\<rparr>\<rparr>) = e2EnvFor spec"
proof -
  have d: "distinct (map fst env)"
    using assms by (metis mset_map mset_eq_imp_distinct_iff)
  have "set env = set (ExtraEnv (S3 spec))"
    using assms(2) by (rule mset_eq_setD)
  then have "map_of env = map_of (ExtraEnv (S3 spec))"
    using d assms(1) by (simp add: map_of_inject_set)
  moreover have "sort (map fst env) = sort (map fst (ExtraEnv (S3 spec)))"
    using assms(2) by (intro properties_for_sort) simp_all
  ultimately show ?thesis
    by (simp add: e2EnvFor_def map_get_def Let_def cong: BackupFormat.case_cong)
qed

theorem e2EnvFor_deterministic_witness:
  "e2EnvFor ((sample_spec\<lparr>S3 := (S3 sample_spec)\<lparr>ExtraEnv := [(''A'', ''1''), (''B'', ''2'')]\<rparr>\<rparr>)
      \<lparr>S3 := (S3 (sample_spec\<lparr>S3 := (S3 sample_spec)\<lparr>ExtraEnv := [(''A'', ''1''), (''B'', ''2'')]\<rparr>\<rparr>))
        \<lparr>ExtraEnv := [(''B'', ''2''), (''A'', ''1'')]\<rparr>\<rparr>) =
   e2EnvFor (sample_spec\<lparr>S3 := (S3 sample_spec)\<lparr>ExtraEnv := [(''A'', ''1''), (''B'', ''2'')]\<rparr>\<rparr>)"
  by (rule e2EnvFor_deterministic) (simp_all add: add_mset_commute)

section \<open>Properties of the Jobs\<close>

text \<open>What \<^verbatim>\<open>controllerutil.SetControllerReference\<close> changes: the owner, nothing else.\<close>

definition owner_ok :: "kube \<Rightarrow> bool" where
  "owner_ok K \<longleftrightarrow> (\<forall>br j j'. setJobOwner K br j = Inr j' \<longrightarrow> (\<exists>ow. j' = j\<lparr>j_Owner := ow\<rparr>))"

definition createdJobs :: "effect list \<Rightarrow> Job list" where
  "createdJobs effs = List.map_filter (\<lambda>e. case e of CreateJob j \<Rightarrow> Some j | _ \<Rightarrow> None) effs"

lemma createdJobs_simps [simp]:
  "createdJobs [] = []" "createdJobs (CreateJob j # es) = j # createdJobs es"
  "createdJobs (CreatePVC p # es) = createdJobs es" "createdJobs (PatchMetadata k # es) = createdJobs es"
  "createdJobs (PatchStatus b # es) = createdJobs es" "createdJobs (CounterInc n l # es) = createdJobs es"
  "createdJobs (HistogramObserve n l d # es) = createdJobs es" "createdJobs (GaugeSet n l g # es) = createdJobs es"
  "createdJobs (xs @ ys) = createdJobs xs @ createdJobs ys"
  by (simp_all add: createdJobs_def List.map_filter_def)

text \<open>
  The shape all validation Jobs have: one unprivileged container in an unprivileged pod, no retries, a
  deadline, in the namespace of the credentials Secret, labelled with repository and level.
\<close>

definition hardened :: "BackupRepository \<Rightarrow> string \<Rightarrow> Job \<Rightarrow> bool" where
  "hardened br level job \<longleftrightarrow>
     j_Namespace job = jobNamespace br \<and>
     map_of (j_Labels job) labelOwnerName = Some (br_Name br) \<and> map_of (j_Labels job) labelLevel = Some level \<and>
     psc_RunAsNonRoot (js_SecurityContext (j_Spec job)) \<and>
     0 < psc_RunAsUser (js_SecurityContext (j_Spec job)) \<and>
     psc_SeccompProfile (js_SecurityContext (j_Spec job)) = ''RuntimeDefault'' \<and>
     BackoffLimit (j_Spec job) = 0 \<and> RestartPolicy (j_Spec job) = ''Never'' \<and>
     0 < ActiveDeadlineSeconds (j_Spec job) \<and> ActiveDeadlineSeconds (j_Spec job) \<le> 3600 \<and>
     Containers (j_Spec job) \<noteq> [] \<and>
     list_all (\<lambda>c. \<not> sc_AllowPrivilegeEscalation (ct_SecurityContext c) \<and>
         ''ALL'' \<in> set (sc_CapabilitiesDrop (ct_SecurityContext c)) \<and> sc_RunAsNonRoot (ct_SecurityContext c))
       (Containers (j_Spec job))"

lemma labels_neq: "labelOwnerName \<noteq> labelLevel" "labelTriggerSource \<noteq> labelLevel" "labelTriggerSource \<noteq> labelOwnerName"
  by (simp_all add: labelOwnerName_def labelLevel_def labelTriggerSource_def)

lemma hardened_validatorJob:
  assumes "deadline = jobActiveDeadline \<or> deadline = e4ActiveDeadline"
  shows "hardened br level ((validatorJob br name (levelLabels br level @ extra) deadline
    (validatorContainer img ivc mounts) vols)\<lparr>j_Owner := ow\<rparr>)"
  using assms labels_neq
  by (auto simp: hardened_def validatorJob_def validatorContainer_def levelLabels_def
      restrictedPodSecurityContext_def restrictedContainerSecurityContext_def jobActiveDeadline_def
      e4ActiveDeadline_def go_div_def time_defs split: prod.split)

lemma submitJob_created:
  "createdJobs (fst (submitJob K br m job)) = (case setJobOwner K br job of Inl e \<Rightarrow> [] | Inr j \<Rightarrow> [j])"
  by (simp add: submitJob_def split: sum.split)

lemma submitJob_hardened:
  assumes "owner_ok K" "deadline = jobActiveDeadline \<or> deadline = e4ActiveDeadline"
    "j \<in> set (createdJobs (fst (submitJob K br m (validatorJob br name (levelLabels br level @ extra) deadline
       (validatorContainer img ivc mounts) vols))))"
  shows "hardened br level j"
proof -
  let ?job = "validatorJob br name (levelLabels br level @ extra) deadline (validatorContainer img ivc mounts) vols"
  obtain ow where "setJobOwner K br ?job = Inr j" "j = ?job\<lparr>j_Owner := ow\<rparr>"
    using assms(1,3) unfolding submitJob_created owner_ok_def
    by (cases "setJobOwner K br ?job") (simp, fastforce)
  then show ?thesis
    using hardened_validatorJob [OF assms(2)] by simp
qed

lemmas submitJob_hardened_plain = submitJob_hardened [where extra = "[]", unfolded append_Nil2]

lemma submitJob_ok: "submitJob K br m job = (effs, Inr j) \<Longrightarrow> effs = [CreateJob j]"
  by (auto simp: submitJob_def split: sum.splits option.splits if_splits)

lemma submitJob_at_most_one: "length (createdJobs (fst (submitJob K br m job))) \<le> 1"
  by (simp add: submitJob_created split: sum.split)

text \<open>
  The contract of a spawn function: it sends at most one request to create a Job, that Job is hardened
  and carries the level's label, and if it reports a Job, that is the one it asked for. The arguments of the
  three levels differ; \<open>kube_of\<close> and \<open>repo_of\<close> select what the contract speaks about.
\<close>

locale job_spawner =
  fixes spawn :: "'x \<Rightarrow> spawned go" and kube_of :: "'x \<Rightarrow> kube" and repo_of :: "'x \<Rightarrow> BackupRepository"
    and level :: string
  assumes spawn_at_most_one: "spawn x = Ret (effs, r) \<Longrightarrow> length (createdJobs effs) \<le> 1"
    and spawn_hardened:
      "spawn x = Ret (effs, r) \<Longrightarrow> owner_ok (kube_of x) \<Longrightarrow> list_all (hardened (repo_of x) level) (createdJobs effs)"
    and spawn_reports: "spawn x = Ret (effs, Inr j) \<Longrightarrow> createdJobs effs = [j]"
begin

lemma spawned_label:
  assumes "spawn x = Ret (effs, Inr j)" "owner_ok (kube_of x)"
  shows "map_of (j_Labels j) labelLevel = Some level \<and> j_Namespace j = jobNamespace (repo_of x)"
  using spawn_hardened [OF assms] spawn_reports [OF assms(1)] by (simp add: hardened_def)

end

definition spawnE2_args :: "deps \<times> ValidatorImages \<times> kube \<times> time \<times> BackupRepository \<Rightarrow> spawned go" where
  "spawnE2_args = (\<lambda>(D, VI, K, now, br). Ret (spawnE2Job D VI K now br))"

definition spawnE3_args ::
  "deps \<times> ValidatorImages \<times> kube \<times> time \<times> BackupRepository \<times> S3Credentials \<Rightarrow> spawned go" where
  "spawnE3_args = (\<lambda>(D, VI, K, now, br, creds). spawnE3Job D VI K now br creds)"

definition spawnE4_args ::
  "deps \<times> ValidatorImages \<times> kube \<times> time \<times> BackupRepository \<times> bool \<Rightarrow> spawned go" where
  "spawnE4_args = (\<lambda>(D, VI, K, now, br, forced). spawnE4Job D VI K now br forced)"

inductive spawn_outcome :: "kube \<Rightarrow> BackupRepository \<Rightarrow> string \<Rightarrow> spawned \<Rightarrow> bool"
  for K br level where
  failed: "createdJobs effs = [] \<Longrightarrow> spawn_outcome K br level (effs, Inl e)"
| submitted: "createdJobs effs = [] \<Longrightarrow> deadline = jobActiveDeadline \<or> deadline = e4ActiveDeadline \<Longrightarrow>
    submitJob K br m (validatorJob br name (levelLabels br level @ extra) deadline
      (validatorContainer img ivc mounts) vols) = (effs', r) \<Longrightarrow>
    spawn_outcome K br level (effs @ effs', r)"

lemmas submitted_plain = submitted [where extra = "[]" and effs = "[]", simplified]

lemma spawn_outcome_contract:
  assumes "spawn_outcome K br level (effs, r)"
  shows "length (createdJobs effs) \<le> 1" "owner_ok K \<Longrightarrow> list_all (hardened br level) (createdJobs effs)"
    "r = Inr j \<Longrightarrow> createdJobs effs = [j]"
proof -
  have "length (createdJobs effs) \<le> 1 \<and> (owner_ok K \<longrightarrow> list_all (hardened br level) (createdJobs effs)) \<and>
      (r = Inr j \<longrightarrow> createdJobs effs = [j])"
    using assms
  proof (cases rule: spawn_outcome.cases)
    case (submitted effs1 deadline m name extra img ivc mounts vols effs2)
    let ?job = "validatorJob br name (levelLabels br level @ extra) deadline (validatorContainer img ivc mounts) vols"
    have eq: "createdJobs effs = createdJobs (fst (submitJob K br m ?job))"
      using submitted by simp
    have "r = Inr j \<longrightarrow> createdJobs effs = [j]"
      using submitJob_ok [of K br m ?job effs2 j] submitted(4) eq by auto
    moreover have "owner_ok K \<longrightarrow> list_all (hardened br level) (createdJobs effs)"
      using submitJob_hardened [OF _ submitted(3), of K _ br m name level extra img ivc mounts vols] eq
      by (auto simp: list_all_iff)
    ultimately show ?thesis
      using submitJob_at_most_one [of K br m ?job] eq by simp
  qed simp
  then show "length (createdJobs effs) \<le> 1" "owner_ok K \<Longrightarrow> list_all (hardened br level) (createdJobs effs)"
    "r = Inr j \<Longrightarrow> createdJobs effs = [j]"
    by simp_all
qed

lemma submitted_only:
  "deadline = jobActiveDeadline \<or> deadline = e4ActiveDeadline \<Longrightarrow>
   spawn_outcome K br level (submitJob K br m (validatorJob br name (levelLabels br level) deadline
      (validatorContainer img ivc mounts) vols))"
  using submitted_plain by (metis prod.collapse)

lemma spawnE2_outcome: "spawn_outcome K br labelLevelE2 (spawnE2Job D VI K now br)"
  unfolding spawnE2Job_def Let_def
  by (cases "validatorImageFor D VI (Format (Spec br))") (simp_all only: sum.case failed createdJobs_simps submitted_only simp_thms)

lemma spawnE3_outcome:
  assumes "spawnE3Job D VI K now br creds = Ret p"
  shows "spawn_outcome K br labelLevelE3 p"
proof (cases "validatorImageFor D VI (Format (Spec br))")
  case (Inr img)
  then obtain r where "e3CommandArgsEnv D br creds = Ret r"
    using assms by (auto simp: spawnE3Job_def go_simps)
  with assms Inr show ?thesis
    unfolding spawnE3Job_def by (cases r) (auto simp: failed submitted_only)
qed (use assms in \<open>auto simp: spawnE3Job_def failed\<close>)

lemma ensureE4PVC_creates_no_job:
  "ensureE4PVC K br = Ret (effs, r) \<Longrightarrow> createdJobs effs = []"
  unfolding ensureE4PVC_def
  by (cases "FullRetrievalPVCSize (Spec br)") (auto split: sum.split_asm)

lemma spawnE4_outcome:
  assumes "spawnE4Job D VI K now br forced = Ret p"
  shows "spawn_outcome K br labelLevelE4 p"
proof (cases "validatorImageFor D VI (Format (Spec br))")
  case (Inr img)
  then obtain effs err where pvc: "ensureE4PVC K br = Ret (effs, err)"
    using assms by (auto simp: spawnE4Job_def Let_def go_simps)
  note none = ensureE4PVC_creates_no_job [OF pvc]
  show ?thesis
    using assms Inr pvc none unfolding spawnE4Job_def Let_def
    by (auto simp: failed split: option.splits sum.splits prod.splits intro: submitted)
qed (use assms in \<open>auto simp: spawnE4Job_def failed\<close>)

interpretation e2_spawner: job_spawner spawnE2_args "\<lambda>(D, VI, K, now, br). K" "\<lambda>(D, VI, K, now, br). br" labelLevelE2
  by unfold_locales
     (use spawn_outcome_contract spawnE2_outcome in \<open>auto simp: spawnE2_args_def split: prod.splits; metis\<close>)+

interpretation e3_spawner: job_spawner spawnE3_args
  "\<lambda>(D, VI, K, now, br, creds). K" "\<lambda>(D, VI, K, now, br, creds). br" labelLevelE3
  by unfold_locales
     (use spawn_outcome_contract [OF spawnE3_outcome] in \<open>auto simp: spawnE3_args_def split: prod.splits\<close>)

interpretation e4_spawner: job_spawner spawnE4_args
  "\<lambda>(D, VI, K, now, br, forced). K" "\<lambda>(D, VI, K, now, br, forced). br" labelLevelE4
  by unfold_locales
     (use spawn_outcome_contract [OF spawnE4_outcome] in \<open>auto simp: spawnE4_args_def split: prod.splits\<close>)

text \<open>
  C31: every Job a level asks the API server for is hardened (non-root, no privilege escalation, all capabilities
  dropped, runtime seccomp profile), is never retried, has a deadline of at most an hour, runs in the
  namespace of the credentials Secret and carries the labels by which the level finds it again; a
  spawn function asks for at most one.
\<close>

theorem spawned_jobs_hardened:
  assumes "owner_ok K"
    and "spawnE2Job D VI K now br = (effs2, r2)"
    and "spawnE3Job D VI K now br creds = Ret (effs3, r3)"
    and "spawnE4Job D VI K now br forced = Ret (effs4, r4)"
  shows "list_all (hardened br labelLevelE2) (createdJobs effs2) \<and> length (createdJobs effs2) \<le> 1 \<and>
    list_all (hardened br labelLevelE3) (createdJobs effs3) \<and> length (createdJobs effs3) \<le> 1 \<and>
    list_all (hardened br labelLevelE4) (createdJobs effs4) \<and> length (createdJobs effs4) \<le> 1"
  using assms e2_spawner.spawn_hardened [of "(D, VI, K, now, br)"]
    e2_spawner.spawn_at_most_one [of "(D, VI, K, now, br)"]
    e3_spawner.spawn_hardened [of "(D, VI, K, now, br, creds)"]
    e3_spawner.spawn_at_most_one [of "(D, VI, K, now, br, creds)"]
    e4_spawner.spawn_hardened [of "(D, VI, K, now, br, forced)"]
    e4_spawner.spawn_at_most_one [of "(D, VI, K, now, br, forced)"]
  by (simp add: spawnE2_args_def spawnE3_args_def spawnE4_args_def)

definition sample_images :: ValidatorImages where
  "sample_images = \<lparr>Walg = ''walg:3'', Restic = ''restic:0.18''\<rparr>"

lemma sample_owner_ok [simp]: "owner_ok sample_kube"
  by (auto simp: owner_ok_def sample_kube_def)

definition sample_e4_br :: BackupRepository where
  "sample_e4_br = sample_br\<lparr>Spec := sample_spec\<lparr>FullRetrievalPVCSize := Some (Quantity 1)\<rparr>\<rparr>"

lemma sample_spawns:
  "\<exists>r. spawnE3Job sample_deps sample_images sample_kube 0 sample_e4_br sample_creds = Ret r"
  "\<exists>r. spawnE4Job sample_deps sample_images sample_kube 0 sample_e4_br True = Ret r"
  "length (createdJobs (fst (spawnE2Job sample_deps sample_images sample_kube 0 sample_e4_br))) = 1"
proof -
  have "returns (spawnE3Job sample_deps sample_images sample_kube 0 sample_e4_br sample_creds)"
    "returns (spawnE4Job sample_deps sample_images sample_kube 0 sample_e4_br True)"
    by code_simp+
  then show "\<exists>r. spawnE3Job sample_deps sample_images sample_kube 0 sample_e4_br sample_creds = Ret r"
    "\<exists>r. spawnE4Job sample_deps sample_images sample_kube 0 sample_e4_br True = Ret r"
    by (simp_all add: returns_iff)
  show "length (createdJobs (fst (spawnE2Job sample_deps sample_images sample_kube 0 sample_e4_br))) = 1"
    by code_simp
qed

theorem spawned_jobs_hardened_witness:
  "createdJobs (fst (spawnE2Job sample_deps sample_images sample_kube 0 sample_e4_br)) \<noteq> [] \<and>
   list_all (hardened sample_e4_br labelLevelE2)
     (createdJobs (fst (spawnE2Job sample_deps sample_images sample_kube 0 sample_e4_br)))"
proof -
  obtain r3 r4 where
    "spawnE3Job sample_deps sample_images sample_kube 0 sample_e4_br sample_creds = Ret r3"
    "spawnE4Job sample_deps sample_images sample_kube 0 sample_e4_br True = Ret r4"
    using sample_spawns by blast
  then show ?thesis
    using spawned_jobs_hardened [of sample_kube sample_deps sample_images 0 sample_e4_br
        "fst (spawnE2Job sample_deps sample_images sample_kube 0 sample_e4_br)" _
        sample_creds "fst r3" "snd r3" True "fst r4" "snd r4"] sample_spawns(3)
    by (metis list.size(3) prod.collapse sample_owner_ok zero_neq_one)
qed

end
