(* ===== verification/Force.thy ===== *)
theory Force
  imports Sample_Environment
begin

text \<open>
  The operator's annotations \<^verbatim>\<open>arete.io/force-revalidate\<close> and \<^verbatim>\<open>arete.io/force-e4\<close>
  (\<^verbatim>\<open>backuprepository_controller.go\<close>): parsing their value, deciding whether it is fresh, and clearing
  the second one. Both follow the same contract, stated by the locale \<open>force_annotation\<close>.
\<close>

definition parseForceTimestamp :: "string \<Rightarrow> time option" where
  "parseForceTimestamp s =
     (case Parse RFC3339 s of
        Some ts \<Rightarrow> Some ts
      | None \<Rightarrow>
          (case Parse RFC3339Nano s of
             Some ts \<Rightarrow> Some ts
           | None \<Rightarrow>
               (case ParseInt s of
                  Some i \<Rightarrow> if i \<ge> 1000000000 \<and> i < 100000000000 then Some (Unix i) else None
                | None \<Rightarrow> None)))"

definition levelVerifiedAfter :: "time option \<Rightarrow> time \<Rightarrow> bool" where
  "levelVerifiedAfter verified ref = (case verified of None \<Rightarrow> False | Some t \<Rightarrow> After t ref)"

definition resolveForceRevalidate :: "BackupRepository \<Rightarrow> time option" where
  "resolveForceRevalidate br =
     (let ann = map_get (Annotations br) AnnotationForceRevalidate in
      if ann = [] then None
      else case parseForceTimestamp ann of
          None \<Rightarrow> None
        | Some ts \<Rightarrow>
            (case LastForceRevalidatedAt (Status br) of
               Some honored \<Rightarrow> if \<not> After ts honored then None else Some ts
             | None \<Rightarrow> Some ts))"

definition resolveForceE4 :: "BackupRepository \<Rightarrow> time option" where
  "resolveForceE4 br =
     (let ann = map_get (Annotations br) AnnotationForceE4 in
      if ann = [] then None
      else case parseForceTimestamp ann of
          None \<Rightarrow> None
        | Some ts \<Rightarrow>
            (case LastForcedE4At (Status br) of
               Some honored \<Rightarrow> if \<not> After ts honored then None else Some ts
             | None \<Rightarrow> Some ts))"

text \<open>
  The patch request, and the repository object afterwards: the client overwrites it with the server's
  answer.
\<close>

definition clearForceE4Annotation ::
  "kube \<Rightarrow> BackupRepository \<Rightarrow> effect list \<times> BackupRepository \<times> api_error option" where
  "clearForceE4Annotation K br =
     (if map_of (Annotations br) AnnotationForceE4 = None then ([], br, None)
      else ([PatchMetadata AnnotationForceE4],
            case patchMetadata K br AnnotationForceE4 of
              Inl e \<Rightarrow> (br, Some e)
            | Inr br' \<Rightarrow> (br', None)))"

section \<open>The contract of an annotation\<close>

text \<open>
  An annotation is honored once per value: it is live only while its timestamp is newer than the one last
  honored, so recording the timestamp switches it off, and only a newer value switches it on
  again.
\<close>

locale force_annotation =
  fixes resolve :: "BackupRepository \<Rightarrow> time option"
    and ann :: "BackupRepository \<Rightarrow> string"
    and honored :: "BackupRepository \<Rightarrow> time option"
    and honor :: "time \<Rightarrow> BackupRepository \<Rightarrow> BackupRepository"
  assumes resolve_Some_iff:
      "resolve br = Some ts \<longleftrightarrow>
         ann br \<noteq> [] \<and> parseForceTimestamp (ann br) = Some ts \<and>
         (case honored br of None \<Rightarrow> True | Some t \<Rightarrow> t < ts)"
    and ann_honor: "ann (honor t br) = ann br"
    and honored_honor: "honored (honor t br) = Some t"
begin

lemma honor_once: "resolve br = Some ts \<Longrightarrow> resolve (honor ts br) = None"
proof (rule ccontr)
  assume live: "resolve br = Some ts" and "resolve (honor ts br) \<noteq> None"
  then obtain u where "resolve (honor ts br) = Some u"
    by blast
  then have "parseForceTimestamp (ann br) = Some u" "ts < u"
    by (simp_all add: resolve_Some_iff ann_honor honored_honor)
  moreover have "parseForceTimestamp (ann br) = Some ts"
    using live by (simp add: resolve_Some_iff)
  ultimately show False
    by simp
qed

lemma live_again:
  assumes "ann br' \<noteq> []" "parseForceTimestamp (ann br') = Some ts'" "honored br' = Some ts"
  shows "resolve br' = Some ts' \<longleftrightarrow> ts < ts'"
  using assms resolve_Some_iff [of br' ts'] by simp

lemma malformed: "parseForceTimestamp (ann br) = None \<Longrightarrow> resolve br = None"
  by (cases "resolve br") (simp_all add: resolve_Some_iff)

end

definition honorRevalidate :: "time \<Rightarrow> BackupRepository \<Rightarrow> BackupRepository" where
  "honorRevalidate t br = br\<lparr>Status := (Status br)\<lparr>LastForceRevalidatedAt := Some t\<rparr>\<rparr>"

definition honorE4 :: "time \<Rightarrow> BackupRepository \<Rightarrow> BackupRepository" where
  "honorE4 t br = br\<lparr>Status := (Status br)\<lparr>LastForcedE4At := Some t\<rparr>\<rparr>"

interpretation revalidate: force_annotation resolveForceRevalidate
  "\<lambda>br. map_get (Annotations br) AnnotationForceRevalidate"
  "\<lambda>br. LastForceRevalidatedAt (Status br)" honorRevalidate
  by unfold_locales
     (auto simp: resolveForceRevalidate_def honorRevalidate_def Let_def split: option.splits)

interpretation force_e4: force_annotation resolveForceE4
  "\<lambda>br. map_get (Annotations br) AnnotationForceE4"
  "\<lambda>br. LastForcedE4At (Status br)" honorE4
  by unfold_locales
     (auto simp: resolveForceE4_def honorE4_def Let_def split: option.splits)

section \<open>Properties\<close>

lemma digits_itoa: "0 \<le> i \<Longrightarrow> list_all isDigit (itoa i)"
  using dec_str_digits by (simp add: itoa_def)

lemma Parse_negative: "Parse RFC3339 (CHR ''-'' # s) = None" "Parse RFC3339Nano (CHR ''-'' # s) = None"
  by (simp_all add: Parse_def RFC3339_def RFC3339Nano_def digit_at_def isDigit_def)

lemma Parse_itoa: "Parse RFC3339 (itoa i) = None" "Parse RFC3339Nano (itoa i) = None"
  using Parse_digits [OF digits_itoa, of i] Parse_negative [of "dec_str (- i)"]
  by (cases "i < 0"; simp add: itoa_def)+

text \<open>
  The annotation value \<^verbatim>\<open>$(date +%s)\<close> is understood: the decimal digits of any number of seconds
  between 2001 and the year 5138 denote that instant, and an integer outside this range is rejected.
\<close>

theorem parseForceTimestamp_epoch:
  assumes "in_int64 i"
  shows "parseForceTimestamp (itoa i) = (if 10 ^ 9 \<le> i \<and> i < 10 ^ 11 then Some (Unix i) else None)"
  using Parse_itoa [of i] ParseInt_itoa [OF assms] by (simp add: parseForceTimestamp_def)

theorem parseForceTimestamp_epoch_witness:
  "parseForceTimestamp (itoa 1782484523) = Some (Unix 1782484523) \<and> parseForceTimestamp (itoa 1) = None"
  using parseForceTimestamp_epoch [of 1782484523] parseForceTimestamp_epoch [of 1]
  by (simp add: int64_defs)

text \<open>
  Both annotations are honored once per value. Once its timestamp is recorded as honored, an annotation
  that was live is not any more, and it becomes live again exactly if it is replaced by a value
  that denotes a later instant.
\<close>

theorem force_honored_once:
  assumes "resolveForceRevalidate br = Some ts" and "resolveForceE4 br = Some ts4"
  shows "resolveForceRevalidate (honorRevalidate ts br) = None \<and> resolveForceE4 (honorE4 ts4 br) = None \<and>
    (resolveForceRevalidate ((honorRevalidate ts br)\<lparr>Annotations := anns\<rparr>) \<noteq> None \<longleftrightarrow>
       map_get anns AnnotationForceRevalidate \<noteq> [] \<and>
       (\<exists>ts'. parseForceTimestamp (map_get anns AnnotationForceRevalidate) = Some ts' \<and> ts < ts')) \<and>
    (resolveForceE4 ((honorE4 ts4 br)\<lparr>Annotations := anns\<rparr>) \<noteq> None \<longleftrightarrow>
       map_get anns AnnotationForceE4 \<noteq> [] \<and>
       (\<exists>ts'. parseForceTimestamp (map_get anns AnnotationForceE4) = Some ts' \<and> ts4 < ts'))"
  using revalidate.honor_once [OF assms(1)] force_e4.honor_once [OF assms(2)]
    revalidate.resolve_Some_iff [of "(honorRevalidate ts br)\<lparr>Annotations := anns\<rparr>"]
    force_e4.resolve_Some_iff [of "(honorE4 ts4 br)\<lparr>Annotations := anns\<rparr>"]
  by (auto simp: honorRevalidate_def honorE4_def)

definition forced_br :: BackupRepository where
  "forced_br = sample_br\<lparr>Annotations := [(AnnotationForceRevalidate, ''1782484523''), (AnnotationForceE4, ''1782484523'')]\<rparr>"

lemma forced_br_live:
  "resolveForceRevalidate forced_br = Some (Unix 1782484523)" "resolveForceE4 forced_br = Some (Unix 1782484523)"
  by code_simp+

theorem force_honored_once_witness:
  "resolveForceRevalidate (honorRevalidate (Unix 1782484523) forced_br) = None \<and>
   resolveForceE4 (honorE4 (Unix 1782484523) forced_br) = None"
  using force_honored_once [OF forced_br_live] by blast

end
