(* ===== verification/Levels.thy ===== *)
theory Levels
  imports Conditions Output_Parsing Validators Force
begin

text \<open>
  The Job lifecycle of the validation levels E2, E3 and E4 (\<^verbatim>\<open>processE2\<close>, \<^verbatim>\<open>processE3\<close>, \<^verbatim>\<open>processE4\<close>
  and the ingest functions of \<^verbatim>\<open>backuprepository_controller.go\<close>): find the level's Jobs, ingest the
  newest finished one that was not seen before, and start another one when it is due and none is
  running. The three levels meet one contract, the locale \<open>validation_level\<close>.
\<close>

section \<open>Ingesting a finished Job\<close>

definition ingestE2Result ::
  "deps \<Rightarrow> kube \<Rightarrow> BackupRepository \<Rightarrow> Job \<Rightarrow> Condition \<times> LatestBackupStatus option" where
  "ingestE2Result D K br job =
     (let logs = readJobOutput K job in
      if \<not> jobSucceeded job
      then (condFalse ReasonMetadataValidationFailed (''validator failed; last log: '' @ lastLine logs), None)
      else (condTrue ReasonProbeSucceeded (''validator exit 0; last log: '' @ lastLine logs),
            parseE2Output D (Format (Spec br)) logs))"

definition ingestE3Result :: "kube \<Rightarrow> Job \<Rightarrow> Condition" where
  "ingestE3Result K job =
     (let logs = readJobOutput K job in
      if \<not> jobSucceeded job
      then condFalse ReasonSampledIntegrityFailed (''sampled retrieval failed; last log: '' @ lastLine logs)
      else condTrue ReasonProbeSucceeded (''sampled retrieval ok; last log: '' @ lastLine logs))"

definition ingestE4Result :: "kube \<Rightarrow> Job \<Rightarrow> Condition \<times> FullRetrievalStatus option" where
  "ingestE4Result K job =
     (let logs = readJobOutput K job;
          source = (if map_get (j_Labels job) labelTriggerSource = trigger_string TriggerSourceManual
                    then TriggerSourceManual else TriggerSourceScheduled);
          stats = map_option (\<lambda>s. s\<lparr>fr_TriggerSource := source\<rparr>) (parseE4Stats logs)
      in if \<not> jobSucceeded job
         then (condFalse ReasonFullRetrievalFailed (''full retrieval failed; last log: '' @ lastLine logs), stats)
         else (condTrue ReasonProbeSucceeded (''full retrieval ok; last log: '' @ lastLine logs), stats))"

text \<open>
  The newest finished Job, unless the marker says it was ingested already: the test the three process
  functions share.
\<close>

definition newResult :: "deps \<Rightarrow> Job list \<Rightarrow> time option \<Rightarrow> Job option" where
  "newResult D jobs marker =
     (case pickLatestCompletedJob D jobs of
        None \<Rightarrow> None
      | Some latest \<Rightarrow>
          let alreadyIngested =
                (case marker of None \<Rightarrow> False | Some m \<Rightarrow> \<not> After (jobCompletionTime latest) m)
          in if alreadyIngested then None else Some latest)"

section \<open>One cycle of a level\<close>

record e2Outcome =
  e2_jobActive :: bool
  e2_completedResult :: "Condition option"
  e2_completedAt :: "time option"
  e2_latestBackup :: "LatestBackupStatus option"

record e3Outcome =
  e3_jobActive :: bool
  e3_completedResult :: "Condition option"
  e3_completedAt :: "time option"

record e4Outcome =
  e4_jobActive :: bool
  e4_completedResult :: "Condition option"
  e4_stats :: "FullRetrievalStatus option"

definition noE2 :: e2Outcome where
  "noE2 = \<lparr>e2_jobActive = False, e2_completedResult = None, e2_completedAt = None, e2_latestBackup = None\<rparr>"

definition noE3 :: e3Outcome where
  "noE3 = \<lparr>e3_jobActive = False, e3_completedResult = None, e3_completedAt = None\<rparr>"

definition noE4 :: e4Outcome where
  "noE4 = \<lparr>e4_jobActive = False, e4_completedResult = None, e4_stats = None\<rparr>"

text \<open>The first half of each process function: look for an active Job, ingest a new result.\<close>

definition collectE2 :: "deps \<Rightarrow> kube \<Rightarrow> BackupRepository \<Rightarrow> Job list \<Rightarrow> effect list \<times> e2Outcome" where
  "collectE2 D K br jobs =
     (let out = noE2\<lparr>e2_jobActive := (firstActiveJob jobs \<noteq> None)\<rparr> in
      case newResult D jobs (VerifiedLastValidationAt (Status br)) of
        None \<Rightarrow> ([], out)
      | Some latest \<Rightarrow>
          let (cond, latestBackup) = ingestE2Result D K br latest in
          (recordValidationRun br ''e2'' latest,
           out\<lparr>e2_completedResult := Some cond, e2_completedAt := Some (jobCompletionTime latest),
               e2_latestBackup := latestBackup\<rparr>))"

definition collectE3 :: "deps \<Rightarrow> kube \<Rightarrow> BackupRepository \<Rightarrow> Job list \<Rightarrow> effect list \<times> e3Outcome" where
  "collectE3 D K br jobs =
     (let out = noE3\<lparr>e3_jobActive := (firstActiveJob jobs \<noteq> None)\<rparr> in
      case newResult D jobs (VerifiedLastSampledRetrievalAt (Status br)) of
        None \<Rightarrow> ([], out)
      | Some latest \<Rightarrow>
          (recordValidationRun br ''e3'' latest,
           out\<lparr>e3_completedResult := Some (ingestE3Result K latest),
               e3_completedAt := Some (jobCompletionTime latest)\<rparr>))"

definition collectE4 :: "deps \<Rightarrow> kube \<Rightarrow> BackupRepository \<Rightarrow> Job list \<Rightarrow> effect list \<times> e4Outcome" where
  "collectE4 D K br jobs =
     (let out = noE4\<lparr>e4_jobActive := (firstActiveJob jobs \<noteq> None)\<rparr> in
      case newResult D jobs (map_option CompletedAt (LastFullRetrieval (Status br))) of
        None \<Rightarrow> ([], out)
      | Some latest \<Rightarrow>
          let (cond, stats) = ingestE4Result K latest in
          (recordValidationRun br ''e4'' latest,
           out\<lparr>e4_completedResult := Some cond,
               e4_stats := map_option (\<lambda>s. s\<lparr>CompletedAt := jobCompletionTime latest\<rparr>) stats\<rparr>))"

definition processE2 ::
  "deps \<Rightarrow> ValidatorImages \<Rightarrow> kube \<Rightarrow> clock \<Rightarrow> BackupRepository \<Rightarrow> bool \<Rightarrow> effect list \<times> e2Outcome" where
  "processE2 D VI K clk br force =
     (case listE2Jobs K br of
        Inl e \<Rightarrow> ([], noE2)
      | Inr jobs \<Rightarrow>
          let (effs, out) = collectE2 D K br jobs in
          if \<not> e2_jobActive out \<and> (force \<or> shouldSpawnE2 br (now_e2 clk))
          then let (effs', r) = spawnE2Job D VI K (now_e2_name clk) br
               in (effs @ effs', case r of Inl e \<Rightarrow> out | Inr job \<Rightarrow> out\<lparr>e2_jobActive := True\<rparr>)
          else (effs, out))"

definition processE3 ::
  "deps \<Rightarrow> ValidatorImages \<Rightarrow> kube \<Rightarrow> clock \<Rightarrow> BackupRepository \<Rightarrow> S3Credentials \<Rightarrow> bool \<Rightarrow>
   (effect list \<times> e3Outcome) go" where
  "processE3 D VI K clk br creds force =
     (if SampledRetrievalInterval (Spec br) = None then Ret ([], noE3)
      else
        case listE3Jobs K br of
          Inl e \<Rightarrow> Ret ([], noE3)
        | Inr jobs \<Rightarrow>
            let (effs, out) = collectE3 D K br jobs in
            if \<not> e3_jobActive out \<and>
               (force \<or> shouldSpawnE3 br (VerifiedLastSampledRetrievalAt (Status br)) (now_e3 clk))
            then go_bind (spawnE3Job D VI K (now_e3_name clk) br creds)
                   (\<lambda>(effs', r). Ret
                      (effs @ effs', case r of Inl e \<Rightarrow> out | Inr job \<Rightarrow> out\<lparr>e3_jobActive := True\<rparr>))
            else Ret (effs, out))"

text \<open>The third component is the repository object, which clearing the annotation may replace.\<close>

definition processE4 ::
  "deps \<Rightarrow> ValidatorImages \<Rightarrow> kube \<Rightarrow> clock \<Rightarrow> BackupRepository \<Rightarrow> bool \<Rightarrow>
   (effect list \<times> e4Outcome \<times> BackupRepository) go" where
  "processE4 D VI K clk br forceNeeded =
     (case listE4Jobs K br of
        Inl e \<Rightarrow> Ret ([], noE4, br)
      | Inr jobs \<Rightarrow>
          let (effs, out) = collectE4 D K br jobs in
          if FullRetrievalInterval (Spec br) = None \<and> \<not> forceNeeded then Ret (effs, out, br)
          else
            let lastE4 = map_option CompletedAt (LastFullRetrieval (Status br));
                scheduledDue = shouldSpawnE4 br lastE4 (now_e4 clk)
            in if \<not> e4_jobActive out \<and> (scheduledDue \<or> forceNeeded)
               then (if FullRetrievalStorageClass (Spec br) = None \<or> FullRetrievalPVCSize (Spec br) = None
                     then Ret (effs, out, br)
                     else
                       go_bind (spawnE4Job D VI K (now_e4_name clk) br forceNeeded)
                         (\<lambda>(effs', r). Ret
                            (case r of
                               Inl e \<Rightarrow> (effs @ effs', out, br)
                             | Inr job \<Rightarrow>
                                 let out = out\<lparr>e4_jobActive := True\<rparr> in
                                 if forceNeeded
                                 then let (effs'', br', err) = clearForceE4Annotation K br
                                      in (effs @ effs' @ effs'', out, br')
                                 else (effs @ effs', out, br))))
               else Ret (effs, out, br))"

section \<open>The contract of a level\<close>

text \<open>
  A level works on the list of its Jobs (\<open>jobs_of\<close>, an error if it cannot be read), a marker of the last
  result it ingested, and a predicate \<open>due\<close> that says when a new run is wanted. Its outcome says
  whether a Job is active and carries the condition ingested in this cycle.
\<close>

locale validation_level =
  fixes process :: "'x \<Rightarrow> (effect list \<times> 'o) go"
    and deps_of :: "'x \<Rightarrow> deps"
    and jobs_of :: "'x \<Rightarrow> api_error + Job list"
    and marker_of :: "'x \<Rightarrow> time option"
    and due :: "'x \<Rightarrow> bool"
    and active :: "'o \<Rightarrow> bool"
    and result :: "'o \<Rightarrow> Condition option"
  assumes unlisted:
      "jobs_of x = Inl e \<Longrightarrow> process x = Ret (effs, out) \<Longrightarrow> effs = [] \<and> \<not> active out \<and> result out = None"
    and in_flight_active:
      "jobs_of x = Inr jobs \<Longrightarrow> process x = Ret (effs, out) \<Longrightarrow> \<exists>j \<in> set jobs. jobInFlight j \<Longrightarrow>
       active out \<and> createdJobs effs = []"
    and starts_when_due:
      "process x = Ret (effs, out) \<Longrightarrow> createdJobs effs \<noteq> [] \<Longrightarrow>
       due x \<and> (\<exists>jobs. jobs_of x = Inr jobs \<and> (\<forall>j \<in> set jobs. \<not> jobInFlight j))"
    and starts_one: "process x = Ret (effs, out) \<Longrightarrow> length (createdJobs effs) \<le> 1"
    and active_accounted:
      "jobs_of x = Inr jobs \<Longrightarrow> process x = Ret (effs, out) \<Longrightarrow> active out \<Longrightarrow>
       (\<exists>j \<in> set jobs. jobInFlight j) \<or> createdJobs effs \<noteq> []"
    and result_of_job:
      "jobs_of x = Inr jobs \<Longrightarrow> process x = Ret (effs, out) \<Longrightarrow>
       map_option cStatus (result out) =
         map_option (\<lambda>j. if jobSucceeded j then ConditionTrue else ConditionFalse)
           (newResult (deps_of x) jobs (marker_of x))"
begin

lemma never_two:
  assumes "process x = Ret (effs, out)" "createdJobs effs \<noteq> []" "jobs_of x = Inr jobs"
  shows "length (createdJobs effs) = 1 \<and> (\<forall>j \<in> set jobs. \<not> jobInFlight j) \<and> due x"
proof -
  have "length (createdJobs effs) = 1"
    using starts_one [OF assms(1)] assms(2) by (cases "createdJobs effs") auto
  then show ?thesis
    using starts_when_due [OF assms(1,2)] assms(3) by auto
qed

lemma result_newest:
  assumes "sorts (SortJobs (deps_of x))" "jobs_of x = Inr jobs" "process x = Ret (effs, out)"
    "result out = Some c"
  shows "\<exists>j \<in> set jobs. \<not> jobInFlight j \<and>
    (\<forall>k \<in> set jobs. \<not> jobInFlight k \<longrightarrow> jobCompletionTime k \<le> jobCompletionTime j) \<and>
    (\<forall>m. marker_of x = Some m \<longrightarrow> m < jobCompletionTime j) \<and>
    cStatus c = (if jobSucceeded j then ConditionTrue else ConditionFalse)"
proof -
  obtain j where j: "newResult (deps_of x) jobs (marker_of x) = Some j"
    "cStatus c = (if jobSucceeded j then ConditionTrue else ConditionFalse)"
    using result_of_job [OF assms(2,3)] assms(4)
    by (cases "newResult (deps_of x) jobs (marker_of x)") auto
  then have "pickLatestCompletedJob (deps_of x) jobs = Some j" "\<forall>m. marker_of x = Some m \<longrightarrow> m < jobCompletionTime j"
    by (auto simp: newResult_def Let_def split: option.splits if_splits)
  then show ?thesis
    using pickLatest_Some [OF assms(1)] j(2) by blast
qed

lemma ingested_once:
  assumes "sorts (SortJobs (deps_of x))" "jobs_of x = Inr jobs" "process x = Ret (effs, out)"
    "marker_of x = Some m" "\<forall>k \<in> set jobs. \<not> jobInFlight k \<longrightarrow> jobCompletionTime k \<le> m"
  shows "result out = None"
proof (rule ccontr)
  assume "result out \<noteq> None"
  then obtain c where "result out = Some c"
    by blast
  from result_newest [OF assms(1-3) this] show False
    using assms(4,5) by fastforce
qed

end

section \<open>The three levels meet the contract\<close>

lemma recordValidationRun_creates_none [simp]: "createdJobs (recordValidationRun br l job) = []"
  by (simp add: recordValidationRun_def Let_def split: option.split)

lemma clearForceE4_creates_none: "createdJobs (fst (clearForceE4Annotation K br)) = []"
  by (simp add: clearForceE4Annotation_def)

abbreviation inFlight :: "Job list \<Rightarrow> bool" where
  "inFlight jobs \<equiv> firstActiveJob jobs \<noteq> None"

fun is_Inr :: "'a + 'b \<Rightarrow> bool" where
  "is_Inr (Inr b) = True"
| "is_Inr (Inl a) = False"

definition e2Due :: "clock \<Rightarrow> BackupRepository \<Rightarrow> bool \<Rightarrow> bool" where
  "e2Due clk br force \<longleftrightarrow> force \<or> shouldSpawnE2 br (now_e2 clk)"

definition e3Due :: "clock \<Rightarrow> BackupRepository \<Rightarrow> bool \<Rightarrow> bool" where
  "e3Due clk br force \<longleftrightarrow>
     SampledRetrievalInterval (Spec br) \<noteq> None \<and>
     (force \<or> shouldSpawnE3 br (VerifiedLastSampledRetrievalAt (Status br)) (now_e3 clk))"

definition e4Due :: "clock \<Rightarrow> BackupRepository \<Rightarrow> bool \<Rightarrow> bool" where
  "e4Due clk br forceNeeded \<longleftrightarrow>
     (forceNeeded \<or> shouldSpawnE4 br (map_option CompletedAt (LastFullRetrieval (Status br))) (now_e4 clk)) \<and>
     FullRetrievalStorageClass (Spec br) \<noteq> None \<and> FullRetrievalPVCSize (Spec br) \<noteq> None"

lemma collectE2_fields:
  assumes "collectE2 D K br jobs = (effs, out)"
  shows "createdJobs effs = []" "e2_jobActive out \<longleftrightarrow> inFlight jobs"
    "e2_completedResult out =
      map_option (\<lambda>j. fst (ingestE2Result D K br j)) (newResult D jobs (VerifiedLastValidationAt (Status br)))"
    "e2_completedAt out = map_option jobCompletionTime (newResult D jobs (VerifiedLastValidationAt (Status br)))"
  using assms by (auto simp: collectE2_def noE2_def Let_def split: option.splits prod.splits)

lemma collectE3_fields:
  assumes "collectE3 D K br jobs = (effs, out)"
  shows "createdJobs effs = []" "e3_jobActive out \<longleftrightarrow> inFlight jobs"
    "e3_completedResult out =
      map_option (ingestE3Result K) (newResult D jobs (VerifiedLastSampledRetrievalAt (Status br)))"
    "e3_completedAt out =
      map_option jobCompletionTime (newResult D jobs (VerifiedLastSampledRetrievalAt (Status br)))"
  using assms by (auto simp: collectE3_def noE3_def Let_def split: option.splits)

lemma collectE4_fields:
  assumes "collectE4 D K br jobs = (effs, out)"
  shows "createdJobs effs = []" "e4_jobActive out \<longleftrightarrow> inFlight jobs"
    "e4_completedResult out =
      map_option (\<lambda>j. fst (ingestE4Result K j))
        (newResult D jobs (map_option CompletedAt (LastFullRetrieval (Status br))))"
  using assms by (auto simp: collectE4_def noE4_def Let_def split: option.splits prod.splits)

lemma processE3_disabled:
  "SampledRetrievalInterval (Spec br) = None \<Longrightarrow> processE3 D VI K clk br creds force = Ret ([], noE3)"
  by (simp add: processE3_def)

text \<open>The start of a Job as the second half of each function performs it.\<close>

definition launch :: "Job list \<Rightarrow> bool \<Rightarrow> spawned \<Rightarrow> effect list \<Rightarrow> bool \<Rightarrow> bool" where
  "launch jobs isDue s effs isActive \<longleftrightarrow>
     (if \<not> inFlight jobs \<and> isDue then createdJobs effs = createdJobs (fst s) \<and> isActive = is_Inr (snd s)
      else createdJobs effs = [] \<and> isActive = inFlight jobs)"

lemma processE2_eqs:
  assumes "listE2Jobs K br = Inr jobs" "processE2 D VI K clk br force = (effs, out)"
  shows "e2_completedResult out =
      map_option (\<lambda>j. fst (ingestE2Result D K br j)) (newResult D jobs (VerifiedLastValidationAt (Status br)))"
    "launch jobs (e2Due clk br force) (spawnE2Job D VI K (now_e2_name clk) br) effs (e2_jobActive out)"
    "e2_completedAt out = map_option jobCompletionTime (newResult D jobs (VerifiedLastValidationAt (Status br)))"
proof -
  obtain effs0 out0 where c: "collectE2 D K br jobs = (effs0, out0)"
    by fastforce
  obtain effs1 r where s: "spawnE2Job D VI K (now_e2_name clk) br = (effs1, r)"
    by fastforce
  show "e2_completedResult out =
      map_option (\<lambda>j. fst (ingestE2Result D K br j)) (newResult D jobs (VerifiedLastValidationAt (Status br)))"
    "launch jobs (e2Due clk br force) (spawnE2Job D VI K (now_e2_name clk) br) effs (e2_jobActive out)"
    "e2_completedAt out = map_option jobCompletionTime (newResult D jobs (VerifiedLastValidationAt (Status br)))"
    using assms c s collectE2_fields [OF c]
    by (cases r; auto simp: processE2_def e2Due_def launch_def split: if_splits)+
qed

lemma processE3_eqs:
  assumes "listE3Jobs K br = Inr jobs" "processE3 D VI K clk br creds force = Ret (effs, out)"
    "SampledRetrievalInterval (Spec br) \<noteq> None"
  shows "e3_completedResult out =
      map_option (ingestE3Result K) (newResult D jobs (VerifiedLastSampledRetrievalAt (Status br)))"
    "\<exists>s. spawn_outcome K br labelLevelE3 s \<and> launch jobs (e3Due clk br force) s effs (e3_jobActive out)"
proof -
  obtain effs0 out0 where c: "collectE3 D K br jobs = (effs0, out0)"
    by fastforce
  have "e3_completedResult out = e3_completedResult out0 \<and>
     (\<exists>s. spawn_outcome K br labelLevelE3 s \<and> launch jobs (e3Due clk br force) s effs (e3_jobActive out))"
  proof (cases "\<not> inFlight jobs \<and> e3Due clk br force")
    case True
    then obtain effs1 r where s: "spawnE3Job D VI K (now_e3_name clk) br creds = Ret (effs1, r)"
      using assms c collectE3_fields [OF c] by (auto simp: processE3_def e3Due_def go_simps)
    have "launch jobs (e3Due clk br force) (effs1, r) effs (e3_jobActive out)"
      "e3_completedResult out = e3_completedResult out0"
      using True assms c s collectE3_fields [OF c]
      by (cases r; auto simp: processE3_def e3Due_def launch_def)+
    with spawnE3_outcome [OF s] show ?thesis by blast
  next
    case False
    have "launch jobs (e3Due clk br force) s effs (e3_jobActive out)"
      "e3_completedResult out = e3_completedResult out0" for s
      using False assms c collectE3_fields [OF c]
      by (auto simp: processE3_def e3Due_def launch_def)
    moreover have "spawn_outcome K br labelLevelE3 ([], Inl (GoError []))"
      by (simp add: spawn_outcome.failed)
    ultimately show ?thesis by blast
  qed
  then show "e3_completedResult out =
      map_option (ingestE3Result K) (newResult D jobs (VerifiedLastSampledRetrievalAt (Status br)))"
    "\<exists>s. spawn_outcome K br labelLevelE3 s \<and> launch jobs (e3Due clk br force) s effs (e3_jobActive out)"
    using collectE3_fields [OF c] by simp_all
qed

lemma processE4_eqs:
  assumes "listE4Jobs K br = Inr jobs" "processE4 D VI K clk br force = Ret (effs, out, br')"
  shows "e4_completedResult out =
      map_option (\<lambda>j. fst (ingestE4Result K j))
        (newResult D jobs (map_option CompletedAt (LastFullRetrieval (Status br))))"
    "\<exists>s. spawn_outcome K br labelLevelE4 s \<and> launch jobs (e4Due clk br force) s effs (e4_jobActive out)"
proof -
  obtain effs0 out0 where c: "collectE4 D K br jobs = (effs0, out0)"
    by fastforce
  have "e4_completedResult out = e4_completedResult out0 \<and>
     (\<exists>s. spawn_outcome K br labelLevelE4 s \<and> launch jobs (e4Due clk br force) s effs (e4_jobActive out))"
  proof (cases "\<not> inFlight jobs \<and> e4Due clk br force")
    case True
    then obtain effs1 r where s: "spawnE4Job D VI K (now_e4_name clk) br force = Ret (effs1, r)"
      using assms c collectE4_fields [OF c]
      by (auto simp: processE4_def e4Due_def shouldSpawnE4_def go_simps Let_def split: option.splits)
    have "launch jobs (e4Due clk br force) (effs1, r) effs (e4_jobActive out)"
      "e4_completedResult out = e4_completedResult out0"
      using True assms c s collectE4_fields [OF c] clearForceE4_creates_none [of K br]
      by (cases r; auto simp: processE4_def e4Due_def shouldSpawnE4_def launch_def Let_def
          split: option.splits if_splits prod.splits)+
    with spawnE4_outcome [OF s] show ?thesis by blast
  next
    case False
    have "launch jobs (e4Due clk br force) s effs (e4_jobActive out)"
      "e4_completedResult out = e4_completedResult out0" for s
      using False assms c collectE4_fields [OF c]
      by (auto simp: processE4_def e4Due_def launch_def Let_def split: if_splits)
    moreover have "spawn_outcome K br labelLevelE4 ([], Inl (GoError []))"
      by (simp add: spawn_outcome.failed)
    ultimately show ?thesis by blast
  qed
  then show "e4_completedResult out =
      map_option (\<lambda>j. fst (ingestE4Result K j))
        (newResult D jobs (map_option CompletedAt (LastFullRetrieval (Status br))))"
    "\<exists>s. spawn_outcome K br labelLevelE4 s \<and> launch jobs (e4Due clk br force) s effs (e4_jobActive out)"
    using collectE4_fields [OF c] by simp_all
qed

lemma launch_facts:
  assumes "spawn_outcome K br level s" "launch jobs isDue s effs isActive"
  shows "length (createdJobs effs) \<le> 1" "inFlight jobs \<Longrightarrow> isActive \<and> createdJobs effs = []"
    "createdJobs effs \<noteq> [] \<Longrightarrow> isDue \<and> \<not> inFlight jobs"
    "isActive \<Longrightarrow> inFlight jobs \<or> createdJobs effs \<noteq> []"
proof -
  obtain es r where s: "s = (es, r)"
    by fastforce
  note c = spawn_outcome_contract [OF assms(1) [unfolded s]]
  show "length (createdJobs effs) \<le> 1" "inFlight jobs \<Longrightarrow> isActive \<and> createdJobs effs = []"
    "createdJobs effs \<noteq> [] \<Longrightarrow> isDue \<and> \<not> inFlight jobs"
    using assms(2) c(1) by (auto simp: launch_def s split: if_splits)
  show "inFlight jobs \<or> createdJobs effs \<noteq> []" if isActive
    using assms(2) c(3) that by (cases r) (auto simp: launch_def s split: if_splits)
qed

lemma ingest_status:
  "cStatus (fst (ingestE2Result D K br j)) = (if jobSucceeded j then ConditionTrue else ConditionFalse)"
  "cStatus (ingestE3Result K j) = (if jobSucceeded j then ConditionTrue else ConditionFalse)"
  "cStatus (fst (ingestE4Result K j)) = (if jobSucceeded j then ConditionTrue else ConditionFalse)"
  by (simp_all add: ingestE2Result_def ingestE3Result_def ingestE4Result_def Let_def cond_simps)

type_synonym 'a level_args = "deps \<times> ValidatorImages \<times> kube \<times> clock \<times> BackupRepository \<times> 'a"

definition processE2_args :: "bool level_args \<Rightarrow> (effect list \<times> e2Outcome) go" where
  "processE2_args = (\<lambda>(D, VI, K, clk, br, force). Ret (processE2 D VI K clk br force))"

definition processE3_args :: "(S3Credentials \<times> bool) level_args \<Rightarrow> (effect list \<times> e3Outcome) go" where
  "processE3_args = (\<lambda>(D, VI, K, clk, br, creds, force). processE3 D VI K clk br creds force)"

definition processE4_args :: "bool level_args \<Rightarrow> (effect list \<times> e4Outcome \<times> BackupRepository) go" where
  "processE4_args = (\<lambda>(D, VI, K, clk, br, force). processE4 D VI K clk br force)"

text \<open>The E3 Jobs that \<^verbatim>\<open>processE3\<close> asks for: none as long as sampled retrieval is switched off.\<close>

definition e3Jobs :: "kube \<Rightarrow> BackupRepository \<Rightarrow> api_error + Job list" where
  "e3Jobs K br = (if SampledRetrievalInterval (Spec br) = None then Inr [] else listE3Jobs K br)"

lemmas process_args_defs = processE2_args_def processE3_args_def processE4_args_def

lemma newResult_Nil [simp]: "newResult D [] m = None"
  by (simp add: newResult_def pickLatestCompletedJob_def)

lemma firstActiveJob_None: "firstActiveJob jobs = None \<longleftrightarrow> (\<forall>j \<in> set jobs. \<not> jobInFlight j)"
  using firstActiveJob_iff [of jobs] by blast

lemma firstActiveJob_Nil [simp]: "firstActiveJob [] = None"
  by (simp add: firstActiveJob_def)

text \<open>What the contract needs of a level, in terms of its equations.\<close>

definition level_equations ::
  "(api_error + Job list) \<Rightarrow> Job option \<Rightarrow> bool \<Rightarrow> effect list \<Rightarrow> bool \<Rightarrow> Condition option \<Rightarrow> bool" where
  "level_equations jobs new isDue effs isActive res \<longleftrightarrow>
     (case jobs of
        Inl e \<Rightarrow> effs = [] \<and> \<not> isActive \<and> res = None
      | Inr js \<Rightarrow>
          map_option cStatus res =
            map_option (\<lambda>j. if jobSucceeded j then ConditionTrue else ConditionFalse) new \<and>
          length (createdJobs effs) \<le> 1 \<and> (inFlight js \<longrightarrow> isActive \<and> createdJobs effs = []) \<and>
          (createdJobs effs \<noteq> [] \<longrightarrow> isDue \<and> \<not> inFlight js) \<and>
          (isActive \<longrightarrow> inFlight js \<or> createdJobs effs \<noteq> []))"

lemma level_equations_launch:
  assumes "map_option cStatus res =
      map_option (\<lambda>j. if jobSucceeded j then ConditionTrue else ConditionFalse) new"
    "spawn_outcome K br level s" "launch js isDue s effs isActive"
  shows "level_equations (Inr js) new isDue effs isActive res"
  using assms(1) launch_facts [OF assms(2,3)] unfolding level_equations_def by simp

lemma processE2_level:
  assumes "processE2 D VI K clk br force = (effs, out)"
  shows "level_equations (listE2Jobs K br)
    (newResult D (case listE2Jobs K br of Inr js \<Rightarrow> js | Inl _ \<Rightarrow> []) (VerifiedLastValidationAt (Status br)))
    (e2Due clk br force) effs (e2_jobActive out) (e2_completedResult out)"
proof (cases "listE2Jobs K br")
  case (Inr js)
  show ?thesis
    using processE2_eqs [OF Inr assms] spawnE2_outcome unfolding Inr
    by (auto intro!: level_equations_launch simp: option.map_comp comp_def ingest_status)
qed (use assms in \<open>auto simp: processE2_def level_equations_def noE2_def\<close>)

lemma processE3_level:
  assumes "processE3 D VI K clk br creds force = Ret (effs, out)"
  shows "level_equations (e3Jobs K br)
    (newResult D (case e3Jobs K br of Inr js \<Rightarrow> js | Inl _ \<Rightarrow> []) (VerifiedLastSampledRetrievalAt (Status br)))
    (e3Due clk br force) effs (e3_jobActive out) (e3_completedResult out)"
proof (cases "SampledRetrievalInterval (Spec br) = None")
  case True
  with assms show ?thesis
    by (auto simp: processE3_def level_equations_def noE3_def e3Jobs_def)
next
  case False
  then have jobs: "e3Jobs K br = listE3Jobs K br"
    by (auto simp: e3Jobs_def)
  show ?thesis
  proof (cases "listE3Jobs K br")
    case (Inr js)
    show ?thesis
      using processE3_eqs [OF Inr assms False] unfolding jobs Inr
      by (auto intro!: level_equations_launch simp: option.map_comp comp_def ingest_status)
  qed (use assms False jobs in \<open>auto simp: processE3_def level_equations_def noE3_def\<close>)
qed

lemma processE4_level:
  assumes "processE4 D VI K clk br force = Ret (effs, out, br')"
  shows "level_equations (listE4Jobs K br)
    (newResult D (case listE4Jobs K br of Inr js \<Rightarrow> js | Inl _ \<Rightarrow> [])
      (map_option CompletedAt (LastFullRetrieval (Status br))))
    (e4Due clk br force) effs (e4_jobActive out) (e4_completedResult out)"
proof (cases "listE4Jobs K br")
  case (Inr js)
  show ?thesis
    using processE4_eqs [OF Inr assms] unfolding Inr
    by (auto intro!: level_equations_launch simp: option.map_comp comp_def ingest_status)
qed (use assms in \<open>auto simp: processE4_def level_equations_def noE4_def\<close>)

text \<open>The equations give the contract, whatever the level.\<close>

lemma validation_levelI:
  assumes "\<And>x effs out. process x = Ret (effs, out) \<Longrightarrow>
    level_equations (jobs_of x) (newResult (deps_of x) (case jobs_of x of Inr js \<Rightarrow> js | Inl _ \<Rightarrow> []) (marker_of x))
      (due x) effs (active out) (result out)"
  shows "validation_level process deps_of jobs_of marker_of due active result"
proof
  fix x effs out
  show "effs = [] \<and> \<not> active out \<and> result out = None" if "jobs_of x = Inl e" "process x = Ret (effs, out)" for e
    using assms [OF that(2)] that(1) by (simp add: level_equations_def)
  show "active out \<and> createdJobs effs = []"
    if "jobs_of x = Inr jobs" "process x = Ret (effs, out)" "\<exists>j \<in> set jobs. jobInFlight j" for jobs
    using assms [OF that(2)] that(1,3) by (auto simp: level_equations_def firstActiveJob_iff [symmetric])
  show "due x \<and> (\<exists>jobs. jobs_of x = Inr jobs \<and> (\<forall>j \<in> set jobs. \<not> jobInFlight j))"
    if "process x = Ret (effs, out)" "createdJobs effs \<noteq> []"
    using assms [OF that(1)] that(2) by (cases "jobs_of x") (auto simp: level_equations_def firstActiveJob_None)
  show "length (createdJobs effs) \<le> 1" if "process x = Ret (effs, out)"
    using assms [OF that] by (cases "jobs_of x") (simp_all add: level_equations_def)
  show "(\<exists>j \<in> set jobs. jobInFlight j) \<or> createdJobs effs \<noteq> []"
    if "jobs_of x = Inr jobs" "process x = Ret (effs, out)" "active out" for jobs
    using assms [OF that(2)] that(1,3) by (auto simp: level_equations_def firstActiveJob_iff [symmetric])
  show "map_option cStatus (result out) =
      map_option (\<lambda>j. if jobSucceeded j then ConditionTrue else ConditionFalse)
        (newResult (deps_of x) jobs (marker_of x))"
    if "jobs_of x = Inr jobs" "process x = Ret (effs, out)" for jobs
    using assms [OF that(2)] that(1) by (simp add: level_equations_def)
qed

interpretation e2: validation_level processE2_args "\<lambda>(D, VI, K, clk, br, f). D"
  "\<lambda>(D, VI, K, clk, br, f). listE2Jobs K br" "\<lambda>(D, VI, K, clk, br, f). VerifiedLastValidationAt (Status br)"
  "\<lambda>(D, VI, K, clk, br, f). e2Due clk br f" e2_jobActive e2_completedResult
  by (rule validation_levelI) (auto simp: processE2_args_def dest: processE2_level)

interpretation e3: validation_level processE3_args "\<lambda>(D, VI, K, clk, br, c, f). D"
  "\<lambda>(D, VI, K, clk, br, c, f). e3Jobs K br"
  "\<lambda>(D, VI, K, clk, br, c, f). VerifiedLastSampledRetrievalAt (Status br)"
  "\<lambda>(D, VI, K, clk, br, c, f). e3Due clk br f" e3_jobActive e3_completedResult
  by (rule validation_levelI) (auto simp: processE3_args_def dest: processE3_level)

interpretation e4: validation_level processE4_args "\<lambda>(D, VI, K, clk, br, f). D"
  "\<lambda>(D, VI, K, clk, br, f). listE4Jobs K br"
  "\<lambda>(D, VI, K, clk, br, f). map_option CompletedAt (LastFullRetrieval (Status br))"
  "\<lambda>(D, VI, K, clk, br, f). e4Due clk br f" "\<lambda>(out, br). e4_jobActive out" "\<lambda>(out, br). e4_completedResult out"
  by (rule validation_levelI) (auto simp: processE4_args_def dest: processE4_level)

section \<open>Properties\<close>

text \<open>The start condition of a level, over its own Job list.\<close>

abbreviation startsAlone :: "(api_error + Job list) \<Rightarrow> bool \<Rightarrow> effect list \<Rightarrow> bool" where
  "startsAlone jobs isDue effs \<equiv>
     length (createdJobs effs) = 1 \<and> isDue \<and> (\<exists>js. jobs = Inr js \<and> (\<forall>j \<in> set js. \<not> jobInFlight j))"

text \<open>
  C11: no level ever starts a run beside another one. If a process function asks for a Job, it asks for
  exactly one, the level's Jobs could be listed, none of them was in flight, and the run was due (by
  the cadence of the spec or by the annotation; for E4 only with a storage class and a volume size).
\<close>

theorem levels_never_overlap:
  assumes "processE2 D VI K clk br f2 = (effs2, out2)"
    and "processE3 D VI K clk br creds f3 = Ret (effs3, out3)"
    and "processE4 D VI K clk br f4 = Ret (effs4, out4, br')"
  shows "(createdJobs effs2 \<noteq> [] \<longrightarrow> startsAlone (listE2Jobs K br) (e2Due clk br f2) effs2) \<and>
    (createdJobs effs3 \<noteq> [] \<longrightarrow> startsAlone (e3Jobs K br) (e3Due clk br f3) effs3) \<and>
    (createdJobs effs4 \<noteq> [] \<longrightarrow> startsAlone (listE4Jobs K br) (e4Due clk br f4) effs4)"
proof -
  have p: "processE2_args (D, VI, K, clk, br, f2) = Ret (effs2, out2)"
    "processE3_args (D, VI, K, clk, br, creds, f3) = Ret (effs3, out3)"
    "processE4_args (D, VI, K, clk, br, f4) = Ret (effs4, out4, br')"
    using assms by (simp_all add: process_args_defs)
  have "startsAlone (listE2Jobs K br) (e2Due clk br f2) effs2" if "createdJobs effs2 \<noteq> []"
    using e2.starts_when_due [OF p(1) that] e2.never_two [OF p(1) that] by auto
  moreover have "startsAlone (e3Jobs K br) (e3Due clk br f3) effs3" if "createdJobs effs3 \<noteq> []"
    using e3.starts_when_due [OF p(2) that] e3.never_two [OF p(2) that] by auto
  moreover have "startsAlone (listE4Jobs K br) (e4Due clk br f4) effs4" if "createdJobs effs4 \<noteq> []"
    using e4.starts_when_due [OF p(3) that] e4.never_two [OF p(3) that] by auto
  ultimately show ?thesis
    by blast
qed

lemma sample_levels:
  "createdJobs (fst (processE2 sample_deps sample_images sample_kube (frozen 0) sample_br False)) \<noteq> []"
  "returns (processE3 sample_deps sample_images sample_kube (frozen 0) sample_br sample_creds False)"
  "returns (processE4 sample_deps sample_images sample_kube (frozen 0) sample_br False)"
  by code_simp+

theorem levels_never_overlap_witness:
  "createdJobs (fst (processE2 sample_deps sample_images sample_kube (frozen 0) sample_br False)) \<noteq> [] \<and>
   startsAlone (listE2Jobs sample_kube sample_br) (e2Due (frozen 0) sample_br False)
     (fst (processE2 sample_deps sample_images sample_kube (frozen 0) sample_br False))"
proof -
  obtain p3 p4 where p:
    "processE3 sample_deps sample_images sample_kube (frozen 0) sample_br sample_creds False = Ret p3"
    "processE4 sample_deps sample_images sample_kube (frozen 0) sample_br False = Ret p4"
    using sample_levels(2,3) by (auto simp: returns_iff)
  show ?thesis
    using sample_levels(1)
      levels_never_overlap [of sample_deps sample_images sample_kube "frozen 0" sample_br False _ _
        sample_creds False "fst p3" "snd p3" False "fst p4" "fst (snd p4)" "snd (snd p4)",
        OF prod.collapse [symmetric]] p
    by simp
qed

abbreviation newestOf :: "Job list \<Rightarrow> time option \<Rightarrow> Condition \<Rightarrow> bool" where
  "newestOf js marker c \<equiv>
     (\<exists>j \<in> set js. \<not> jobInFlight j \<and>
        (\<forall>k \<in> set js. \<not> jobInFlight k \<longrightarrow> jobCompletionTime k \<le> jobCompletionTime j) \<and>
        (\<forall>m. marker = Some m \<longrightarrow> m < jobCompletionTime j) \<and>
        cStatus c = (if jobSucceeded j then ConditionTrue else ConditionFalse))"

text \<open>
  C13: the condition a level reports is that of its newest finished Job. If E2 ingests a result in a cycle, then
  it comes from a finished Job that completed after the one recorded in the status, no finished Job
  is newer, and the condition is True exactly if that Job succeeded; the same holds for E3 and E4.
\<close>

theorem ingest_newest:
  assumes "sorts (SortJobs D)"
    and "listE2Jobs K br = Inr js2" "processE2 D VI K clk br f2 = (effs2, out2)"
    and "e3Jobs K br = Inr js3" "processE3 D VI K clk br creds f3 = Ret (effs3, out3)"
    and "listE4Jobs K br = Inr js4" "processE4 D VI K clk br f4 = Ret (effs4, out4, br')"
  shows "(\<forall>c. e2_completedResult out2 = Some c \<longrightarrow> newestOf js2 (VerifiedLastValidationAt (Status br)) c) \<and>
    (\<forall>c. e3_completedResult out3 = Some c \<longrightarrow> newestOf js3 (VerifiedLastSampledRetrievalAt (Status br)) c) \<and>
    (\<forall>c. e4_completedResult out4 = Some c \<longrightarrow>
       newestOf js4 (map_option CompletedAt (LastFullRetrieval (Status br))) c)"
  using assms e2.result_newest [of "(D, VI, K, clk, br, f2)" js2 effs2 out2]
    e3.result_newest [of "(D, VI, K, clk, br, creds, f3)" js3 effs3 out3]
    e4.result_newest [of "(D, VI, K, clk, br, f4)" js4 effs4 "(out4, br')"]
  by (simp add: process_args_defs)

text \<open>An API server that reports one succeeded and one failed Job under every selector.\<close>

definition sample_job :: "string \<Rightarrow> JobConditionType \<Rightarrow> time \<Rightarrow> Job" where
  "sample_job name jc t =
     (validatorJob sample_br name [] jobActiveDeadline (validatorContainer [] ([], [], []) []) [])
       \<lparr>j_Conditions := [\<lparr>jc_Type = jc, jc_Status = ConditionTrue\<rparr>], j_CompletionTime := Some t\<rparr>"

definition sample_kube_done :: kube where
  "sample_kube_done =
     sample_kube\<lparr>listJobs := (\<lambda>ns ls. Inr [sample_job ''a'' JobComplete 7, sample_job ''b'' JobFailed 5])\<rparr>"

theorem ingest_newest_witness:
  "\<exists>c. e2_completedResult
      (snd (processE2 sample_deps sample_images sample_kube_done (frozen 9) sample_br False)) = Some c \<and>
    cStatus c = ConditionTrue \<and>
    newestOf [sample_job ''a'' JobComplete 7, sample_job ''b'' JobFailed 5] None c"
proof -
  have "returns (processE3 sample_deps sample_images sample_kube_done (frozen 9) sample_br sample_creds False)"
    "returns (processE4 sample_deps sample_images sample_kube_done (frozen 9) sample_br False)"
    by code_simp+
  then obtain p3 p4 where p:
    "processE3 sample_deps sample_images sample_kube_done (frozen 9) sample_br sample_creds False = Ret p3"
    "processE4 sample_deps sample_images sample_kube_done (frozen 9) sample_br False = Ret p4"
    by (auto simp: returns_iff)
  have jobs: "listE2Jobs sample_kube_done sample_br = Inr [sample_job ''a'' JobComplete 7, sample_job ''b'' JobFailed 5]"
    "e3Jobs sample_kube_done sample_br = Inr [sample_job ''a'' JobComplete 7, sample_job ''b'' JobFailed 5]"
    "listE4Jobs sample_kube_done sample_br = Inr [sample_job ''a'' JobComplete 7, sample_job ''b'' JobFailed 5]"
    by (simp_all add: listE2Jobs_def e3Jobs_def listE3Jobs_def listE4Jobs_def sample_kube_done_def sample_br_def sample_spec_def)
  have "VerifiedLastValidationAt (Status sample_br) = None"
    by (simp add: sample_br_def sample_status_def)
  moreover have "map_option cStatus (e2_completedResult
      (snd (processE2 sample_deps sample_images sample_kube_done (frozen 9) sample_br False))) = Some ConditionTrue"
    by code_simp
  then obtain c where "e2_completedResult
      (snd (processE2 sample_deps sample_images sample_kube_done (frozen 9) sample_br False)) = Some c"
    "cStatus c = ConditionTrue"
    by auto
  ultimately show ?thesis
    using ingest_newest [OF sample_deps_ok(2) jobs(1) prod.collapse [symmetric] jobs(2) _ jobs(3),
        where VI = sample_images and clk = "frozen 9" and ?f2.0 = False and creds = sample_creds and ?f3.0 = False
          and ?effs3.0 = "fst p3" and ?out3.0 = "snd p3" and ?f4.0 = False and ?effs4.0 = "fst p4"
          and ?out4.0 = "fst (snd p4)" and br' = "snd (snd p4)"] p
    by simp
qed

end
