(* ===== verification/Reconciler.thy ===== *)
theory Reconciler
  imports Levels
begin

text \<open>
  One \<^verbatim>\<open>Reconcile\<close> of a BackupRepository (\<^verbatim>\<open>backuprepository_controller.go\<close>): credentials and their
  tolerance window, the force gates, the sequence E1, E2, E3, E4, the status update, the metrics, and
  the watches that trigger it. The state the reconciler keeps between calls is the map
  \<^verbatim>\<open>credsTransient\<close>; everything it changes outside is in the effect list it returns.
\<close>

section \<open>Credentials\<close>

definition resolveCredentials :: "deps \<Rightarrow> kube \<Rightarrow> BackupRepository \<Rightarrow> go_error + S3Credentials" where
  "resolveCredentials D K br =
     (let ref = CredentialsSecret (S3 (Spec br));
          key = \<lparr>nn_Namespace = sr_Namespace ref, nn_Name = sr_Name ref\<rparr> in
      case getSecret K key of
        Inl e \<Rightarrow>
          if IsNotFound e then Inl (ErrCredentialsSecretNotFound ('': '' @ KeyString D key))
          else Inl (GoError (''get secret '' @ KeyString D key @ '': '' @ api_text e))
      | Inr secret \<Rightarrow>
          let mapping = sr_KeyMapping ref;
              access = map_get secret (secretKeyFor ''AWS_ACCESS_KEY_ID'' mapping);
              secretKey = map_get secret (secretKeyFor ''AWS_SECRET_ACCESS_KEY'' mapping)
          in if access = [] \<or> secretKey = []
             then Inl (GoError (''secret '' @ KeyString D key @
                    '' missing data for AWS_ACCESS_KEY_ID and/or AWS_SECRET_ACCESS_KEY (after keyMapping)''))
             else Inr \<lparr>AccessKeyID = access, SecretAccessKey = secretKey,
                       SessionToken = map_get secret (secretKeyFor ''AWS_SESSION_TOKEN'' mapping)\<rparr>)"

definition credentialsTransientTolerance :: duration where
  "credentialsTransientTolerance = 60 * Second"

definition credentialsTransientRequeue :: duration where
  "credentialsTransientRequeue = 30 * Second"

section \<open>Status\<close>

text \<open>\<^verbatim>\<open>ctrl.Result\<close> with its requeue delay (0 for none), and the error.\<close>

type_synonym outcome = "duration \<times> api_error option"

definition preservedCondition :: "deps \<Rightarrow> BackupRepository \<Rightarrow> string \<Rightarrow> Condition option" where
  "preservedCondition D br conditionType =
     (case FindStatusCondition D (Conditions (Status br)) conditionType of
        None \<Rightarrow> None
      | Some existing \<Rightarrow> if cReason existing = ReasonLayerTwoNotYetAvailable then None else Some existing)"

definition touch :: "time \<Rightarrow> BackupRepository \<Rightarrow> BackupRepository" where
  "touch now br = br\<lparr>Status := (Status br)\<lparr>LastProbedAt := Some now, ObservedGeneration := Generation br\<rparr>\<rparr>"

definition credentialInputs :: "deps \<Rightarrow> BackupRepository \<Rightarrow> go_error \<Rightarrow> conditionInputs" where
  "credentialInputs D br credErr =
     \<lparr>reachable = Some (condFalse ReasonCredentialsUnavailable (Error credErr)),
      bucketSecurityValid = None, backupCurrent = None,
      metadataValid = preservedCondition D br ConditionMetadataValid, e2JobActive = False,
      sampledIntegrityValid = preservedCondition D br ConditionSampledIntegrityValid, e3JobActive = False,
      fullRetrievalCompleted = preservedCondition D br ConditionFullRetrievalCompleted, e4JobActive = False\<rparr>"

definition failureStatus :: "deps \<Rightarrow> time \<Rightarrow> BackupRepository \<Rightarrow> go_error \<Rightarrow> BackupRepository" where
  "failureStatus D now br credErr =
     (let br = touch now br in applyConditions D br (credentialInputs D br credErr))"

definition recordCredentialsFailure ::
  "deps \<Rightarrow> kube \<Rightarrow> clock \<Rightarrow> BackupRepository \<Rightarrow> go_error \<Rightarrow> effect list \<times> outcome" where
  "recordCredentialsFailure D K clk br credErr =
     (let br' = failureStatus D (now_status clk) br credErr in
      ([PatchStatus br'],
       case patchStatus K br br' of
         Inl e \<Rightarrow> (0, Some e)
       | Inr br'' \<Rightarrow> (ProbeInterval (Spec br''), None)))"

definition recordE2 :: "deps \<Rightarrow> e2Outcome \<Rightarrow> BackupRepository \<Rightarrow> BackupRepository \<times> Condition option" where
  "recordE2 D e2 br =
     (case e2_completedResult e2 of
        Some c \<Rightarrow>
          (br\<lparr>Status := (Status br)
             \<lparr>VerifiedLastValidationAt := e2_completedAt e2,
              ClaimedLatestBackup :=
                (if e2_latestBackup e2 \<noteq> None then e2_latestBackup e2 else ClaimedLatestBackup (Status br))\<rparr>\<rparr>,
           Some c)
      | None \<Rightarrow>
          if VerifiedLastValidationAt (Status br) \<noteq> None
          then (case preservedCondition D br ConditionMetadataValid of
                  Some c \<Rightarrow> (br, Some c)
                | None \<Rightarrow> (br\<lparr>Status := (Status br)\<lparr>VerifiedLastValidationAt := None\<rparr>\<rparr>, None))
          else (br, None))"

definition recordE3 :: "deps \<Rightarrow> e3Outcome \<Rightarrow> BackupRepository \<Rightarrow> BackupRepository \<times> Condition option" where
  "recordE3 D e3 br =
     (case e3_completedResult e3 of
        Some c \<Rightarrow>
          (br\<lparr>Status := (Status br)\<lparr>VerifiedLastSampledRetrievalAt := e3_completedAt e3\<rparr>\<rparr>, Some c)
      | None \<Rightarrow>
          if VerifiedLastSampledRetrievalAt (Status br) \<noteq> None
          then (case preservedCondition D br ConditionSampledIntegrityValid of
                  Some c \<Rightarrow> (br, Some c)
                | None \<Rightarrow> (br\<lparr>Status := (Status br)\<lparr>VerifiedLastSampledRetrievalAt := None\<rparr>\<rparr>, None))
          else (br, None))"

definition recordE4 :: "deps \<Rightarrow> e4Outcome \<Rightarrow> BackupRepository \<Rightarrow> BackupRepository \<times> Condition option" where
  "recordE4 D e4 br =
     (case e4_completedResult e4 of
        Some c \<Rightarrow>
          (br\<lparr>Status := (Status br)
             \<lparr>LastFullRetrieval := (if e4_stats e4 \<noteq> None then e4_stats e4 else LastFullRetrieval (Status br))\<rparr>\<rparr>,
           Some c)
      | None \<Rightarrow>
          if LastFullRetrieval (Status br) \<noteq> None
          then (case preservedCondition D br ConditionFullRetrievalCompleted of
                  Some c \<Rightarrow> (br, Some c)
                | None \<Rightarrow> (br\<lparr>Status := (Status br)\<lparr>LastFullRetrieval := None\<rparr>\<rparr>, None))
          else (br, None))"

definition recordProbe :: "probeResult \<Rightarrow> time option \<Rightarrow> time option \<Rightarrow> BackupRepository \<Rightarrow> BackupRepository" where
  "recordProbe p honoredForceAt honoredForceE4At br =
     br\<lparr>Status := (Status br)
       \<lparr>LastForceRevalidatedAt :=
          (if honoredForceAt \<noteq> None then honoredForceAt else LastForceRevalidatedAt (Status br)),
        LastForcedE4At := (if honoredForceE4At \<noteq> None then honoredForceE4At else LastForcedE4At (Status br)),
        DetectedFormat := pr_DetectedFormat p, DetectedVersion := pr_DetectedVersion p,
        ClaimedLastSuccessfulBackup := LastSuccessfulBackup p,
        ClaimedLatestBackup :=
          (if LatestBackup p \<noteq> None then LatestBackup p else ClaimedLatestBackup (Status br)),
        ObservedInventory := (if Inventory p \<noteq> None then Inventory p else ObservedInventory (Status br))\<rparr>\<rparr>"

text \<open>The status a reconcile computes, before it is sent.\<close>

definition nextStatus ::
  "deps \<Rightarrow> time \<Rightarrow> BackupRepository \<Rightarrow> probeResult \<Rightarrow> e2Outcome \<Rightarrow> e3Outcome \<Rightarrow> e4Outcome \<Rightarrow>
   time option \<Rightarrow> time option \<Rightarrow> BackupRepository" where
  "nextStatus D now br p e2 e3 e4 honoredForceAt honoredForceE4At =
     (let br = recordProbe p honoredForceAt honoredForceE4At (touch now br);
          (br, mv) = recordE2 D e2 br;
          (br, siv) = recordE3 D e3 br;
          (br, frc) = recordE4 D e4 br
      in applyConditions D br
           \<lparr>reachable = Some (condFromBool (pr_Reachable p) (ReachableReason p) (ReachableMessage p)),
            bucketSecurityValid =
              Some (ifReachable (pr_Reachable p)
                (condFromBool (pr_BucketSecurityValid p) (BucketSecurityReason p) (BucketSecurityMessage p))),
            backupCurrent = Some (ifReachable (pr_Reachable p) (computeBackupCurrent br now)),
            metadataValid = mv, e2JobActive = e2_jobActive e2,
            sampledIntegrityValid = siv, e3JobActive = e3_jobActive e3,
            fullRetrievalCompleted = frc, e4JobActive = e4_jobActive e4\<rparr>)"

definition applyStatus ::
  "deps \<Rightarrow> kube \<Rightarrow> clock \<Rightarrow> BackupRepository \<Rightarrow> probeResult \<Rightarrow> e2Outcome \<Rightarrow> e3Outcome \<Rightarrow> e4Outcome \<Rightarrow>
   time option \<Rightarrow> time option \<Rightarrow> effect list \<times> (api_error + BackupRepository)" where
  "applyStatus D K clk br p e2 e3 e4 honoredForceAt honoredForceE4At =
     (let br' = nextStatus D (now_status clk) br p e2 e3 e4 honoredForceAt honoredForceE4At
      in ([PatchStatus br'], patchStatus K br br'))"

section \<open>Metrics\<close>

definition BackupAgeSeconds :: string where "BackupAgeSeconds = ''arete_backup_age_seconds''"
definition E4ThroughputBPS :: string where "E4ThroughputBPS = ''arete_e4_throughput_bytes_per_sec''"
definition E4BytesTransferred :: string where "E4BytesTransferred = ''arete_e4_bytes_transferred''"
definition InventoryObjects :: string where "InventoryObjects = ''arete_inventory_objects''"
definition InventoryBytes :: string where "InventoryBytes = ''arete_inventory_bytes''"
definition ConditionState :: string where "ConditionState = ''arete_condition_state''"

fun status_gauge :: "ConditionStatus \<Rightarrow> int" where
  "status_gauge ConditionTrue = 1"
| "status_gauge ConditionFalse = 0"
| "status_gauge ConditionUnknown = - 1"

definition publishMetrics :: "deps \<Rightarrow> time \<Rightarrow> BackupRepository \<Rightarrow> effect list" where
  "publishMetrics D now br =
     (let ls = [br_Name br, format_string (Format (Spec br))] in
      (case ClaimedLastSuccessfulBackup (Status br) of
         None \<Rightarrow> [] | Some t \<Rightarrow> [GaugeSet BackupAgeSeconds ls (GaugeSeconds (Sub now t))]) @
      (case LastFullRetrieval (Status br) of
         None \<Rightarrow> []
       | Some e4 \<Rightarrow>
           [GaugeSet E4ThroughputBPS ls (GaugeInt (ThroughputBytesPerSec e4)),
            GaugeSet E4BytesTransferred ls (GaugeInt (BytesTransferred e4))]) @
      (case ObservedInventory (Status br) of
         None \<Rightarrow> []
       | Some i \<Rightarrow>
           GaugeSet InventoryObjects ls (GaugeInt (ObjectCount i)) #
           (case AsInt64 D (TotalBytes i) of
              None \<Rightarrow> [] | Some v \<Rightarrow> [GaugeSet InventoryBytes ls (GaugeInt v)])) @
      map (\<lambda>c. GaugeSet ConditionState (ls @ [cType c]) (GaugeInt (status_gauge (cStatus c))))
        (Conditions (Status br)))"

section \<open>Reconcile\<close>

type_synonym credsTransient = "NamespacedName \<rightharpoonup> time"

type_synonym reconciled = "credsTransient \<times> effect list \<times> outcome"

record force_gates =
  fg_forceTS :: "time option"
  fg_e2 :: bool
  fg_e3 :: bool
  fg_forceE4TS :: "time option"
  fg_e4 :: bool

definition forceGates :: "BackupRepository \<Rightarrow> force_gates" where
  "forceGates br =
     (let force = resolveForceRevalidate br; forceE4 = resolveForceE4 br in
      \<lparr>fg_forceTS = force,
       fg_e2 =
         (case force of None \<Rightarrow> False
          | Some ts \<Rightarrow> \<not> levelVerifiedAfter (VerifiedLastValidationAt (Status br)) ts),
       fg_e3 =
         (case force of None \<Rightarrow> False
          | Some ts \<Rightarrow> SampledRetrievalInterval (Spec br) \<noteq> None \<and>
              \<not> levelVerifiedAfter (VerifiedLastSampledRetrievalAt (Status br)) ts),
       fg_forceE4TS = forceE4,
       fg_e4 =
         (case forceE4 of None \<Rightarrow> False
          | Some ts \<Rightarrow> \<not> levelVerifiedAfter (map_option CompletedAt (LastFullRetrieval (Status br))) ts)\<rparr>)"

definition honoredForce :: "force_gates \<Rightarrow> time option" where
  "honoredForce g = (if \<not> fg_e2 g \<and> \<not> fg_e3 g then fg_forceTS g else None)"

definition honoredForceE4 :: "force_gates \<Rightarrow> time option" where
  "honoredForceE4 g = (if \<not> fg_e4 g then fg_forceE4TS g else None)"

text \<open>The levels in their order: E3 only if no E2 Job is active, E4 only if neither is.\<close>

definition runLevels ::
  "deps \<Rightarrow> ValidatorImages \<Rightarrow> kube \<Rightarrow> clock \<Rightarrow> BackupRepository \<Rightarrow> S3Credentials \<Rightarrow> force_gates \<Rightarrow>
   (effect list \<times> e2Outcome \<times> e3Outcome \<times> e4Outcome \<times> BackupRepository) go" where
  "runLevels D VI K clk br creds g =
     (let (effs2, e2) = processE2 D VI K clk br (fg_e2 g) in
      go_bind (if \<not> e2_jobActive e2 then processE3 D VI K clk br creds (fg_e3 g) else Ret ([], noE3))
        (\<lambda>(effs3, e3).
           go_bind (if \<not> e2_jobActive e2 \<and> \<not> e3_jobActive e3 then processE4 D VI K clk br (fg_e4 g)
                    else Ret ([], noE4, br))
             (\<lambda>(effs4, e4, br'). Ret (effs2 @ effs3 @ effs4, e2, e3, e4, br'))))"

definition validateAndPublish ::
  "deps \<Rightarrow> ValidatorImages \<Rightarrow> kube \<Rightarrow> clock \<Rightarrow> BackupRepository \<Rightarrow> S3Credentials \<Rightarrow>
   (effect list \<times> outcome) go" where
  "validateAndPublish D VI K clk br creds =
     (let g = forceGates br; probe = probeRepository D (Spec br) creds in
      go_bind (runLevels D VI K clk br creds g)
        (\<lambda>(effs, e2, e3, e4, br').
           let (effs', r) = applyStatus D K clk br' probe e2 e3 e4 (honoredForce g) (honoredForceE4 g)
           in Ret (case r of
                Inl e \<Rightarrow> (effs @ effs', 0, Some e)
              | Inr br'' \<Rightarrow>
                  (effs @ effs' @ publishMetrics D (now_metrics clk) br'', ProbeInterval (Spec br''), None))))"

definition Reconcile ::
  "deps \<Rightarrow> ValidatorImages \<Rightarrow> kube \<Rightarrow> clock \<Rightarrow> NamespacedName \<Rightarrow> credsTransient \<Rightarrow> reconciled go" where
  "Reconcile D VI K clk req seen =
     (case getBackupRepository K req of
        Inl e \<Rightarrow> Ret (seen(req := None), [], 0, if IsNotFound e then None else Some e)
      | Inr br \<Rightarrow>
          (case resolveCredentials D K br of
             Inl err \<Rightarrow>
               let firstSeen = (case seen req of Some t \<Rightarrow> t | None \<Rightarrow> now_stored clk);
                   elapsed = Sub (now_since clk) firstSeen
               in if is_ErrCredentialsSecretNotFound err
                  then (if elapsed < credentialsTransientTolerance
                        then Ret (seen(req \<mapsto> firstSeen), [], credentialsTransientRequeue, None)
                        else Ret (seen(req \<mapsto> firstSeen), recordCredentialsFailure D K clk br err))
                  else Ret (seen, recordCredentialsFailure D K clk br err)
           | Inr creds \<Rightarrow>
               go_bind (validateAndPublish D VI K clk br creds) (\<lambda>r. Ret (seen(req := None), r))))"

section \<open>Watches\<close>

text \<open>The object of a watch event, as far as a handler looks at it.\<close>

datatype watched =
    WatchedSecret NamespacedName
  | WatchedConfigMap NamespacedName
  | WatchedRepository BackupRepository
  | WatchedOther

definition ObjectKey :: "BackupRepository \<Rightarrow> NamespacedName" where
  "ObjectKey br = \<lparr>nn_Namespace = br_Namespace br, nn_Name = br_Name br\<rparr>"

definition mapSecretToRepositories :: "kube \<Rightarrow> watched \<Rightarrow> NamespacedName list" where
  "mapSecretToRepositories K obj =
     (case obj of
        WatchedSecret secret \<Rightarrow>
          (case listBackupRepositories K of
             Inl e \<Rightarrow> []
           | Inr items \<Rightarrow>
               map ObjectKey
                 (filter (\<lambda>br. let ref = CredentialsSecret (S3 (Spec br)) in
                    sr_Name ref = nn_Name secret \<and> sr_Namespace ref = nn_Namespace secret) items))
      | _ \<Rightarrow> [])"

datatype watch_event =
    CreateEvent
  | UpdateEvent (ObjectOld: "gomap option") (ObjectNew: "gomap option")
  | DeleteEvent
  | GenericEvent

fun forceRevalidatePredicate :: "watch_event \<Rightarrow> bool" where
  "forceRevalidatePredicate CreateEvent = False"
| "forceRevalidatePredicate (UpdateEvent old new) =
     (case (old, new) of
        (Some o1, Some n1) \<Rightarrow>
          if map_get o1 AnnotationForceRevalidate \<noteq> map_get n1 AnnotationForceRevalidate then True
          else map_get o1 AnnotationForceE4 \<noteq> map_get n1 AnnotationForceE4
      | _ \<Rightarrow> False)"
| "forceRevalidatePredicate DeleteEvent = False"
| "forceRevalidatePredicate GenericEvent = False"

section \<open>One Job per reconcile\<close>

text \<open>The requests that leave a Job behind: created now, or already there.\<close>

definition accepted :: "kube \<Rightarrow> Job \<Rightarrow> bool" where
  "accepted K j \<longleftrightarrow> (case createJob K j of None \<Rightarrow> True | Some e \<Rightarrow> IsAlreadyExists e)"

definition acceptedJobs :: "kube \<Rightarrow> effect list \<Rightarrow> Job list" where
  "acceptedJobs K effs = filter (accepted K) (createdJobs effs)"

lemma acceptedJobs_append [simp]: "acceptedJobs K (xs @ ys) = acceptedJobs K xs @ acceptedJobs K ys"
  by (simp add: acceptedJobs_def)

lemma acceptedJobs_none: "createdJobs effs = [] \<Longrightarrow> acceptedJobs K effs = []"
  by (simp add: acceptedJobs_def)

lemma submitJob_accepted:
  "acceptedJobs K (fst (submitJob K br m job)) = (case snd (submitJob K br m job) of Inr j \<Rightarrow> [j] | Inl _ \<Rightarrow> [])"
  by (auto simp: submitJob_def acceptedJobs_def accepted_def split: sum.split option.split)

lemma spawn_outcome_accepted:
  assumes "spawn_outcome K br level s"
  shows "acceptedJobs K (fst s) = (case snd s of Inr j \<Rightarrow> [j] | Inl _ \<Rightarrow> [])"
  using assms
proof cases
  case (submitted effs deadline m name extra img ivc mounts vols effs' r)
  then show ?thesis
    using submitJob_accepted [of K br m] acceptedJobs_none [of effs K] by (metis acceptedJobs_append append_Nil fst_conv snd_conv)
qed (simp add: acceptedJobs_none)

lemma launch_accepted:
  assumes "spawn_outcome K br level s" "launch jobs isDue s effs isActive"
  shows "length (acceptedJobs K effs) \<le> 1" "acceptedJobs K effs \<noteq> [] \<Longrightarrow> isActive"
  using assms(2) spawn_outcome_accepted [OF assms(1)]
  by (auto simp: launch_def acceptedJobs_def split: if_splits sum.splits)

lemma process_accepted:
  "processE2 D VI K clk br f = (effs2, out2) \<Longrightarrow>
     length (acceptedJobs K effs2) \<le> 1 \<and> (acceptedJobs K effs2 \<noteq> [] \<longrightarrow> e2_jobActive out2)"
  "processE3 D VI K clk br creds f = Ret (effs3, out3) \<Longrightarrow>
     length (acceptedJobs K effs3) \<le> 1 \<and> (acceptedJobs K effs3 \<noteq> [] \<longrightarrow> e3_jobActive out3)"
  "processE4 D VI K clk br f = Ret (effs4, out4, br') \<Longrightarrow> length (acceptedJobs K effs4) \<le> 1"
proof -
  show "length (acceptedJobs K effs2) \<le> 1 \<and> (acceptedJobs K effs2 \<noteq> [] \<longrightarrow> e2_jobActive out2)"
    if "processE2 D VI K clk br f = (effs2, out2)"
    using that processE2_eqs(2) [OF _ that] launch_accepted [OF spawnE2_outcome]
    by (cases "listE2Jobs K br") (auto simp: processE2_def acceptedJobs_def)
  show "length (acceptedJobs K effs3) \<le> 1 \<and> (acceptedJobs K effs3 \<noteq> [] \<longrightarrow> e3_jobActive out3)"
    if "processE3 D VI K clk br creds f = Ret (effs3, out3)"
    using that processE3_eqs(2) [OF _ that] launch_accepted
    by (cases "SampledRetrievalInterval (Spec br)"; cases "listE3Jobs K br")
       (auto simp: processE3_def acceptedJobs_none, blast+)
  show "length (acceptedJobs K effs4) \<le> 1" if "processE4 D VI K clk br f = Ret (effs4, out4, br')"
    using that processE4_eqs(2) [OF _ that] launch_accepted(1)
    by (cases "listE4Jobs K br") (auto simp: processE4_def acceptedJobs_none)
qed

lemma runLevels_cases:
  assumes "runLevels D VI K clk br creds g = Ret (effs, e2, e3, e4, br')"
  obtains effs2 effs3 effs4 where "effs = effs2 @ effs3 @ effs4"
    "processE2 D VI K clk br (fg_e2 g) = (effs2, e2)"
    "if e2_jobActive e2 then (effs3, e3) = ([], noE3) else processE3 D VI K clk br creds (fg_e3 g) = Ret (effs3, e3)"
    "if e2_jobActive e2 \<or> e3_jobActive e3 then (effs4, e4, br') = ([], noE4, br)
     else processE4 D VI K clk br (fg_e4 g) = Ret (effs4, e4, br')"
proof -
  obtain effs2 o2 where p2: "processE2 D VI K clk br (fg_e2 g) = (effs2, o2)"
    by fastforce
  with assms obtain effs3 o3 where
    p3: "(if \<not> e2_jobActive o2 then processE3 D VI K clk br creds (fg_e3 g) else Ret ([], noE3)) = Ret (effs3, o3)"
    by (auto simp: runLevels_def go_simps)
  with assms p2 obtain effs4 o4 b4 where
    p4: "(if \<not> e2_jobActive o2 \<and> \<not> e3_jobActive o3 then processE4 D VI K clk br (fg_e4 g)
          else Ret ([], noE4, br)) = Ret (effs4, o4, b4)"
    by (auto simp: runLevels_def go_simps)
  have "effs = effs2 @ effs3 @ effs4" "e2 = o2" "e3 = o3" "e4 = o4" "br' = b4"
    using assms p2 p3 p4 by (auto simp: runLevels_def)
  then show thesis
    using that [of effs2 effs3 effs4] p2 p3 p4 by (auto split: if_splits)
qed

lemma runLevels_one_job:
  assumes "runLevels D VI K clk br creds g = Ret (effs, e2, e3, e4, br')"
  shows "length (acceptedJobs K effs) \<le> 1"
  using assms
proof (cases rule: runLevels_cases)
  case (1 effs2 effs3 effs4)
  note a = process_accepted(1) [OF 1(2)]
  show ?thesis
  proof (cases "e2_jobActive e2")
    case True
    with 1 a show ?thesis by (simp add: acceptedJobs_none)
  next
    case False
    then have "processE3 D VI K clk br creds (fg_e3 g) = Ret (effs3, e3)"
      using 1(3) by simp
    note b = process_accepted(2) [OF this]
    show ?thesis
    proof (cases "e3_jobActive e3")
      case True
      with False 1 a b show ?thesis by (simp add: acceptedJobs_none)
    next
      case act3: False
      with False have "processE4 D VI K clk br (fg_e4 g) = Ret (effs4, e4, br')"
        using 1(4) by simp
      from process_accepted(3) [OF this] show ?thesis
        using False act3 a b 1(1) by simp
    qed
  qed
qed

lemma publishMetrics_creates_none [simp]: "createdJobs (publishMetrics D now br) = []"
  by (auto simp: publishMetrics_def Let_def createdJobs_def List.map_filter_def split: option.split)

lemma validateAndPublish_cases:
  assumes "validateAndPublish D VI K clk br creds = Ret (effs, res)"
  obtains levels e2 e3 e4 br' b where "runLevels D VI K clk br creds (forceGates br) = Ret (levels, e2, e3, e4, br')"
    "b = nextStatus D (now_status clk) br' (probeRepository D (Spec br) creds) e2 e3 e4
           (honoredForce (forceGates br)) (honoredForceE4 (forceGates br))"
    "case patchStatus K br' b of
       Inl e \<Rightarrow> effs = levels @ [PatchStatus b] \<and> res = (0, Some e)
     | Inr br'' \<Rightarrow> effs = levels @ [PatchStatus b] @ publishMetrics D (now_metrics clk) br'' \<and>
         res = (ProbeInterval (Spec br''), None)"
proof -
  obtain levels e2 e3 e4 br' where l: "runLevels D VI K clk br creds (forceGates br) = Ret (levels, e2, e3, e4, br')"
    using assms by (auto simp: validateAndPublish_def Let_def go_simps)
  show thesis
    using assms l by (intro that [OF l refl])
      (auto simp: validateAndPublish_def applyStatus_def Let_def split: sum.splits)
qed

lemma createdJobs_validateAndPublish:
  assumes "validateAndPublish D VI K clk br creds = Ret (effs, res)"
  obtains levels e2 e3 e4 br' where "runLevels D VI K clk br creds (forceGates br) = Ret (levels, e2, e3, e4, br')"
    "createdJobs effs = createdJobs levels"
  using assms by (cases rule: validateAndPublish_cases) (auto split: sum.splits)

text \<open>The four ways a reconcile can go.\<close>

lemma Reconcile_cases:
  assumes "Reconcile D VI K clk req seen = Ret (seen', effs, res)"
  obtains (gone) e where "getBackupRepository K req = Inl e" "seen' = seen(req := None)" "effs = []"
      "res = (0, if IsNotFound e then None else Some e)"
  | (waiting) br err first where "getBackupRepository K req = Inr br" "resolveCredentials D K br = Inl err"
      "is_ErrCredentialsSecretNotFound err" "first = (case seen req of Some t \<Rightarrow> t | None \<Rightarrow> now_stored clk)"
      "Sub (now_since clk) first < credentialsTransientTolerance" "seen' = seen(req \<mapsto> first)" "effs = []"
      "res = (credentialsTransientRequeue, None)"
  | (failed) br err where "getBackupRepository K req = Inr br" "resolveCredentials D K br = Inl err"
      "(effs, res) = recordCredentialsFailure D K clk br err"
  | (ran) br creds where "getBackupRepository K req = Inr br" "resolveCredentials D K br = Inr creds"
      "validateAndPublish D VI K clk br creds = Ret (effs, res)" "seen' = seen(req := None)"
proof (cases "getBackupRepository K req")
  case (Inl e)
  then show ?thesis
    using assms by (intro gone) (auto simp: Reconcile_def)
next
  case br: (Inr br)
  show ?thesis
  proof (cases "resolveCredentials D K br")
    case (Inl err)
    let ?first = "case seen req of Some t \<Rightarrow> t | None \<Rightarrow> now_stored clk"
    show ?thesis
    proof (cases "is_ErrCredentialsSecretNotFound err \<and> Sub (now_since clk) ?first < credentialsTransientTolerance")
      case True
      then show ?thesis
        using assms br Inl by (intro waiting [of br err ?first]) (auto simp: Reconcile_def Let_def)
    next
      case False
      then show ?thesis
        using assms br Inl by (intro failed [of br err]) (auto simp: Reconcile_def Let_def split: if_splits)
    qed
  next
    case (Inr creds)
    then show ?thesis
      using assms br by (intro ran [of br creds]) (auto simp: Reconcile_def go_simps)
  qed
qed

section \<open>Properties of one reconcile\<close>

text \<open>
  C8: a reconcile leaves at most one new validation Job behind, whatever is due or forced: the levels are
  sequenced, and a level that has a Job, running or just accepted, keeps the deeper ones from starting.
\<close>

theorem reconcile_one_job:
  assumes "Reconcile D VI K clk req seen = Ret (seen', effs, res)"
  shows "length (acceptedJobs K effs) \<le> 1"
  using assms
proof (cases rule: Reconcile_cases)
  case (failed br err)
  then show ?thesis
    by (auto simp: recordCredentialsFailure_def Let_def acceptedJobs_def)
next
  case (ran br creds)
  from ran(3) obtain levels e2 e3 e4 br' where
    "runLevels D VI K clk br creds (forceGates br) = Ret (levels, e2, e3, e4, br')"
    "createdJobs effs = createdJobs levels"
    by (rule createdJobs_validateAndPublish)
  then show ?thesis
    using runLevels_one_job by (fastforce simp: acceptedJobs_def)
qed (simp_all add: acceptedJobs_def)

definition sample_kube_br :: "BackupRepository \<Rightarrow> kube" where
  "sample_kube_br br =
     sample_kube\<lparr>getBackupRepository := (\<lambda>n. Inr br),
       getSecret := (\<lambda>n. Inr [(''AWS_ACCESS_KEY_ID'', ''key''), (''AWS_SECRET_ACCESS_KEY'', ''secret'')])\<rparr>"

definition sample_req :: NamespacedName where
  "sample_req = \<lparr>nn_Namespace = [], nn_Name = ''pg''\<rparr>"

definition sample_now :: time where
  "sample_now = 1777597200 * Second"

definition sample_run :: "reconciled go" where
  "sample_run = Reconcile sample_deps sample_images (sample_kube_br sample_br) (frozen sample_now) sample_req Map.empty"

lemma sample_run_parts:
  "resolveCredentials sample_deps (sample_kube_br sample_br) sample_br = Inr sample_creds"
  "e2_jobActive (snd (processE2 sample_deps sample_images (sample_kube_br sample_br) (frozen sample_now) sample_br False))"
  "length (acceptedJobs (sample_kube_br sample_br)
     (fst (processE2 sample_deps sample_images (sample_kube_br sample_br) (frozen sample_now) sample_br False))) = 1"
  "fg_e2 (forceGates sample_br) = False"
  by code_simp+

lemma sample_run_returns:
  "\<exists>seen' effs res. sample_run = Ret (seen', effs, res) \<and>
     length (acceptedJobs (sample_kube_br sample_br) effs) = 1"
proof -
  let ?K = "sample_kube_br sample_br" and ?g = "forceGates sample_br"
  obtain effs2 e2 where p:
    "processE2 sample_deps sample_images ?K (frozen sample_now) sample_br False = (effs2, e2)"
    by fastforce
  have "runLevels sample_deps sample_images ?K (frozen sample_now) sample_br sample_creds ?g =
      Ret (effs2, e2, noE3, noE4, sample_br)"
    using sample_run_parts(2,4) p by (simp add: runLevels_def)
  moreover have "getBackupRepository ?K sample_req = Inr sample_br" "patchStatus ?K = (\<lambda>b br. Inr br)"
    by (simp_all add: sample_kube_br_def sample_kube_def)
  moreover have "length (acceptedJobs ?K effs2) = 1"
    using sample_run_parts(3) p by simp
  ultimately show ?thesis
    using sample_run_parts(1)
    by (simp add: sample_run_def Reconcile_def validateAndPublish_def applyStatus_def Let_def
        acceptedJobs_none acceptedJobs_def)
qed

theorem reconcile_one_job_witness:
  "\<exists>seen' effs res. sample_run = Ret (seen', effs, res) \<and>
     length (acceptedJobs (sample_kube_br sample_br) effs) = 1 \<and>
     length (acceptedJobs (sample_kube_br sample_br) effs) \<le> 1"
  using sample_run_returns reconcile_one_job unfolding sample_run_def by blast

lemma level_labels_neq: "labelLevelE2 \<noteq> labelLevelE3" "labelLevelE2 \<noteq> labelLevelE4" "labelLevelE3 \<noteq> labelLevelE4"
  by (simp_all add: labelLevelE2_def labelLevelE3_def labelLevelE4_def)

lemma launch_labels:
  assumes "owner_ok K" "spawn_outcome K br level s" "launch jobs isDue s effs isActive" "j \<in> set (createdJobs effs)"
  shows "map_of (j_Labels j) labelLevel = Some level"
proof -
  obtain es r where s: "s = (es, r)"
    by fastforce
  have "list_all (hardened br level) (createdJobs es)"
    using spawn_outcome_contract(2) [OF assms(2) [unfolded s] assms(1)] .
  moreover have "createdJobs effs = [] \<or> createdJobs effs = createdJobs es"
    using assms(3) by (auto simp: launch_def s split: if_splits)
  ultimately show ?thesis
    using assms(4) by (auto simp: list_all_iff hardened_def)
qed

lemma process_labels:
  assumes "owner_ok K"
  shows "processE2 D VI K clk br f = (effs2, out2) \<Longrightarrow> j \<in> set (createdJobs effs2) \<Longrightarrow>
      map_of (j_Labels j) labelLevel = Some labelLevelE2"
    "processE3 D VI K clk br creds f = Ret (effs3, out3) \<Longrightarrow> j \<in> set (createdJobs effs3) \<Longrightarrow>
      map_of (j_Labels j) labelLevel = Some labelLevelE3"
    "processE4 D VI K clk br f = Ret (effs4, out4, br') \<Longrightarrow> j \<in> set (createdJobs effs4) \<Longrightarrow>
      map_of (j_Labels j) labelLevel = Some labelLevelE4"
proof -
  show "map_of (j_Labels j) labelLevel = Some labelLevelE2"
    if p: "processE2 D VI K clk br f = (effs2, out2)" "j \<in> set (createdJobs effs2)"
  proof (cases "listE2Jobs K br")
    case (Inr js)
    show ?thesis
      using launch_labels [OF assms spawnE2_outcome processE2_eqs(2) [OF Inr p(1)] p(2)] .
  qed (use p in \<open>simp add: processE2_def\<close>)
  show "map_of (j_Labels j) labelLevel = Some labelLevelE3"
    if p: "processE3 D VI K clk br creds f = Ret (effs3, out3)" "j \<in> set (createdJobs effs3)"
  proof -
    have en: "SampledRetrievalInterval (Spec br) \<noteq> None"
      using p processE3_disabled [of br D VI K clk creds f]
      by (cases "SampledRetrievalInterval (Spec br)") auto
    then obtain js where js: "listE3Jobs K br = Inr js"
      using p by (cases "listE3Jobs K br") (auto simp: processE3_def)
    show ?thesis
      using processE3_eqs(2) [OF js p(1) en] launch_labels [OF assms _ _ p(2)] by blast
  qed
  show "map_of (j_Labels j) labelLevel = Some labelLevelE4"
    if p: "processE4 D VI K clk br f = Ret (effs4, out4, br')" "j \<in> set (createdJobs effs4)"
  proof (cases "listE4Jobs K br")
    case (Inr js)
    show ?thesis
      using processE4_eqs(2) [OF Inr p(1)] launch_labels [OF assms _ _ p(2)] by blast
  qed (use p in \<open>simp add: processE4_def\<close>)
qed

text \<open>
  C12: the order E2, E3, E4. If the lists of E2 and E3 Jobs can be read, a sampled retrieval is requested only when no
  E2 Job is in flight, and a full retrieval only when no E2 Job and, unless sampled retrieval is switched off, no E3
  Job is. (Once it is switched off, \<^verbatim>\<open>processE3\<close> does not look for E3 Jobs that still run.)
\<close>

theorem levels_in_order:
  assumes "owner_ok K" and "runLevels D VI K clk br creds g = Ret (effs, e2, e3, e4, br')"
    and "listE2Jobs K br = Inr js2" "listE3Jobs K br = Inr js3"
    and "j \<in> set (createdJobs effs)" "map_of (j_Labels j) labelLevel \<noteq> Some labelLevelE2"
  shows "list_all (\<lambda>k. \<not> jobInFlight k) js2 \<and>
    (map_of (j_Labels j) labelLevel = Some labelLevelE3 \<or>
     map_of (j_Labels j) labelLevel = Some labelLevelE4 \<and>
       (SampledRetrievalInterval (Spec br) = None \<or> list_all (\<lambda>k. \<not> jobInFlight k) js3))"
  using assms(2)
proof (cases rule: runLevels_cases)
  case (1 effs2 effs3 effs4)
  have j: "j \<in> set (createdJobs effs3) \<or> j \<in> set (createdJobs effs4)"
    using assms(5,6) 1(1) process_labels(1) [OF assms(1) 1(2)] by auto
  then have idle2: "\<not> e2_jobActive e2"
    using 1(3,4) by (auto split: if_splits)
  then have p3: "processE3 D VI K clk br creds (fg_e3 g) = Ret (effs3, e3)"
    using 1(3) by simp
  have "list_all (\<lambda>k. \<not> jobInFlight k) js2"
    using idle2 e2.in_flight_active [of "(D, VI, K, clk, br, fg_e2 g)" js2 effs2 e2] assms(3) 1(2)
    by (auto simp: process_args_defs list_all_iff)
  moreover have "map_of (j_Labels j) labelLevel = Some labelLevelE3" if "j \<in> set (createdJobs effs3)"
    using process_labels(2) [OF assms(1) p3 that] .
  moreover have "map_of (j_Labels j) labelLevel = Some labelLevelE4 \<and>
      (SampledRetrievalInterval (Spec br) = None \<or> list_all (\<lambda>k. \<not> jobInFlight k) js3)"
    if "j \<in> set (createdJobs effs4)"
  proof -
    have idle3: "\<not> e3_jobActive e3"
      using that 1(4) by (auto split: if_splits)
    then have "processE4 D VI K clk br (fg_e4 g) = Ret (effs4, e4, br')"
      using idle2 1(4) by simp
    then have "map_of (j_Labels j) labelLevel = Some labelLevelE4"
      using process_labels(3) [OF assms(1) _ that] by blast
    moreover have "list_all (\<lambda>k. \<not> jobInFlight k) js3" if on: "SampledRetrievalInterval (Spec br) \<noteq> None"
    proof -
      have "e3Jobs K br = Inr js3"
        unfolding e3Jobs_def if_not_P [OF on] by (rule assms(4))
      then show ?thesis
        using idle3 p3 e3.in_flight_active [of "(D, VI, K, clk, br, creds, fg_e3 g)" js3 effs3 e3]
        by (auto simp: process_args_defs list_all_iff)
    qed
    ultimately show ?thesis
      by blast
  qed
  ultimately show ?thesis
    using j by blast
qed

definition e3_due_br :: BackupRepository where
  "e3_due_br = sample_br\<lparr>Status := sample_status\<lparr>VerifiedLastValidationAt := Some sample_now\<rparr>\<rparr>"

definition sample_levels_run :: "(effect list \<times> e2Outcome \<times> e3Outcome \<times> e4Outcome \<times> BackupRepository) go" where
  "sample_levels_run =
     runLevels sample_deps sample_images sample_kube (frozen sample_now) e3_due_br sample_creds (forceGates e3_due_br)"

lemma sample_levels_run_eval:
  "\<exists>effs e2 e3 e4 br' j. sample_levels_run = Ret (effs, e2, e3, e4, br') \<and> j \<in> set (createdJobs effs) \<and>
     map_of (j_Labels j) labelLevel = Some labelLevelE3"
proof -
  have "(case sample_levels_run of Ret (effs, e2, e3, e4, br') \<Rightarrow>
      list_ex (\<lambda>j. map_of (j_Labels j) labelLevel = Some labelLevelE3) (createdJobs effs) | Panic \<Rightarrow> False)"
    by code_simp
  then obtain effs e2 e3 e4 br' where "sample_levels_run = Ret (effs, e2, e3, e4, br')"
    "list_ex (\<lambda>j. map_of (j_Labels j) labelLevel = Some labelLevelE3) (createdJobs effs)"
    by (auto split: go.splits)
  then show ?thesis
    unfolding list_ex_iff by blast
qed

theorem levels_in_order_witness:
  "\<exists>effs e2 e3 e4 br' j. sample_levels_run = Ret (effs, e2, e3, e4, br') \<and> j \<in> set (createdJobs effs) \<and>
     map_of (j_Labels j) labelLevel = Some labelLevelE3 \<and> list_all (\<lambda>k. \<not> jobInFlight k) ([] :: Job list)"
proof -
  obtain effs e2 e3 e4 br' j where run: "sample_levels_run = Ret (effs, e2, e3, e4, br')"
    and j: "j \<in> set (createdJobs effs)" "map_of (j_Labels j) labelLevel = Some labelLevelE3"
    using sample_levels_run_eval by blast
  have "listE2Jobs sample_kube e3_due_br = Inr []" "listE3Jobs sample_kube e3_due_br = Inr []"
    by (simp_all add: listE2Jobs_def listE3Jobs_def sample_kube_def)
  from levels_in_order [OF sample_owner_ok run [unfolded sample_levels_run_def] this j(1)] j(2)
  have "list_all (\<lambda>k. \<not> jobInFlight k) ([] :: Job list)"
    using level_labels_neq by simp
  with run j show ?thesis
    by blast
qed

definition sampling_configured :: "BackupRepositorySpec \<Rightarrow> bool" where
  "sampling_configured spec \<longleftrightarrow>
     SampledRetrievalInterval spec = None \<or>
     (case SampledRetrievalObjects spec of None \<Rightarrow> False | Some n \<Rightarrow> 0 \<le> n)"

lemma pickWalgSamples_returns: "0 \<le> n \<Longrightarrow> \<exists>r. pickWalgSamples D br creds n = Ret r"
  by (auto simp: pickWalgSamples_def Let_def split: sum.split)

lemma spawnE3_returns:
  assumes "SampledRetrievalObjects (Spec br) = Some n" "0 \<le> n"
  shows "\<exists>s. spawnE3Job D VI K now br creds = Ret s"
proof -
  obtain r where "pickWalgSamples D br creds n = Ret r"
    using pickWalgSamples_returns [OF assms(2)] by blast
  then have "\<exists>r. e3CommandArgsEnv D br creds = Ret r"
    using assms(1) by (cases "Format (Spec br)") (simp_all add: e3CommandArgsEnv_def)
  then show ?thesis
    by (auto simp: spawnE3Job_def split: sum.split)
qed

lemma spawnE4_returns:
  "FullRetrievalPVCSize (Spec br) \<noteq> None \<Longrightarrow> \<exists>s. spawnE4Job D VI K now br forced = Ret s"
  by (auto simp: spawnE4Job_def ensureE4PVC_def Let_def split: sum.split)

lemma processE3_returns:
  assumes "sampling_configured (Spec br)"
  shows "\<exists>r. processE3 D VI K clk br creds f = Ret r"
proof (cases "SampledRetrievalInterval (Spec br) = None")
  case False
  then obtain n where "SampledRetrievalObjects (Spec br) = Some n" "0 \<le> n"
    using assms by (auto simp: sampling_configured_def split: option.splits)
  from spawnE3_returns [OF this] obtain s where "spawnE3Job D VI K (now_e3_name clk) br creds = Ret s"
    by blast
  then show ?thesis
    by (auto simp: processE3_def Let_def split: sum.split prod.split)
qed (simp add: processE3_def)

lemma processE4_returns: "\<exists>r. processE4 D VI K clk br f = Ret r"
proof (cases "FullRetrievalPVCSize (Spec br) = None")
  case True
  then show ?thesis
    by (auto simp: processE4_def Let_def split: sum.split prod.split)
next
  case False
  from spawnE4_returns [OF this] obtain s where "spawnE4Job D VI K (now_e4_name clk) br f = Ret s"
    by blast
  then show ?thesis
    by (auto simp: processE4_def Let_def split: sum.split prod.split)
qed

lemma runLevels_returns:
  assumes "sampling_configured (Spec br)"
  shows "\<exists>r. runLevels D VI K clk br creds g = Ret r"
proof -
  obtain effs2 e2 where p2: "processE2 D VI K clk br (fg_e2 g) = (effs2, e2)"
    by fastforce
  obtain effs3 e3 where p3: "processE3 D VI K clk br creds (fg_e3 g) = Ret (effs3, e3)"
    using processE3_returns [OF assms] by (metis prod.exhaust)
  obtain effs4 e4 b where p4: "processE4 D VI K clk br (fg_e4 g) = Ret (effs4, e4, b)"
    using processE4_returns by (metis prod.exhaust)
  show ?thesis
    using p2 p3 p4 by (cases "e2_jobActive e2"; cases "e3_jobActive e3") (simp_all add: runLevels_def)
qed

text \<open>
  C27: no panic. A reconcile always returns if the spec says how many objects to sample whenever it enables sampled
  retrieval: no index or pointer of the whole call chain goes out of range, whatever S3, the API server and
  the validators answer.
\<close>

theorem reconcile_returns:
  assumes "\<And>br. getBackupRepository K req = Inr br \<Longrightarrow> sampling_configured (Spec br)"
  shows "\<exists>r. Reconcile D VI K clk req seen = Ret r"
proof (cases "getBackupRepository K req")
  case (Inr br)
  have run: "\<exists>r. validateAndPublish D VI K clk br creds = Ret r" for creds
    using runLevels_returns [OF assms [OF Inr], of D VI K clk creds "forceGates br"]
    by (auto simp: validateAndPublish_def applyStatus_def Let_def split: sum.split)
  show ?thesis
  proof (cases "resolveCredentials D K br")
    case creds: (Inr creds)
    from run [of creds] show ?thesis
      using Inr creds by (auto simp: Reconcile_def)
  qed (use Inr in \<open>auto simp: Reconcile_def recordCredentialsFailure_def Let_def\<close>)
qed (simp add: Reconcile_def)

theorem reconcile_returns_witness:
  "\<exists>r. Reconcile sample_deps sample_images (sample_kube_br sample_br) (frozen sample_now) sample_req Map.empty = Ret r"
  by (rule reconcile_returns)
     (simp add: sample_kube_br_def sampling_configured_def sample_br_def sample_spec_def)

text \<open>
  The missing guard. If sampled retrieval is enabled and due without a sample size, the API server reports no
  E3 Job and a validator image is configured, the E3 step dereferences a nil pointer: the reconcile panics.
\<close>

theorem unsized_sampling_panics:
  assumes "SampledRetrievalInterval (Spec br) \<noteq> None" "SampledRetrievalObjects (Spec br) = None"
    and "listE3Jobs K br = Inr []" "VerifiedLastSampledRetrievalAt (Status br) = None"
    and "validatorImageFor D VI (Format (Spec br)) = Inr img"
  shows "processE3 D VI K clk br creds force = Panic"
  using assms
  by (auto simp: processE3_def collectE3_def noE3_def shouldSpawnE3_def spawnE3Job_def e3CommandArgsEnv_def
      newResult_def pickLatestCompletedJob_def firstActiveJob_def)

theorem unsized_sampling_panics_witness:
  "processE3 sample_deps sample_images sample_kube (frozen 0)
     (sample_br\<lparr>Spec := sample_spec\<lparr>SampledRetrievalObjects := None\<rparr>\<rparr>) sample_creds False = Panic"
  by (rule unsized_sampling_panics [where img = "''walg:3''"])
     (simp_all add: sample_defs sample_images_def listE3Jobs_def validatorImageFor_def)

section \<open>Missing credentials\<close>

text \<open>
  The tolerance window. While the credentials Secret is missing for less than a minute since it was first missed,
  a reconcile changes nothing outside: it sends no request at all, asks to be called again after thirty seconds,
  and keeps the instant of the first miss.
\<close>

theorem missing_secret_tolerated:
  assumes "getBackupRepository K req = Inr br"
    and "getSecret K \<lparr>nn_Namespace = sr_Namespace (CredentialsSecret (S3 (Spec br))),
           nn_Name = sr_Name (CredentialsSecret (S3 (Spec br)))\<rparr> = Inl (NotFound msg)"
    and "first = (case seen req of Some t \<Rightarrow> t | None \<Rightarrow> now_stored clk)"
    and "now_since clk < first + 60 * Second"
  shows "Reconcile D VI K clk req seen = Ret (seen(req \<mapsto> first), [], 30 * Second, None)"
proof -
  have "Sub (now_since clk) first < credentialsTransientTolerance"
    using assms(4) by (auto simp: Sub_def sat64_def credentialsTransientTolerance_def int64_defs time_defs)
  then show ?thesis
    using assms(1-3) by (simp add: Reconcile_def resolveCredentials_def credentialsTransientRequeue_def Let_def)
qed

theorem missing_secret_tolerated_witness:
  "Reconcile sample_deps sample_images (sample_kube\<lparr>getBackupRepository := (\<lambda>n. Inr sample_br)\<rparr>) (frozen 59) sample_req
     [sample_req \<mapsto> 0] = Ret ([sample_req \<mapsto> 0], [], 30 * Second, None)"
  using missing_secret_tolerated [where K = "sample_kube\<lparr>getBackupRepository := (\<lambda>n. Inr sample_br)\<rparr>"
      and req = sample_req and br = sample_br and msg = "''secret not found''" and seen = "[sample_req \<mapsto> 0]"
      and clk = "frozen 59" and first = 0 and D = sample_deps and VI = sample_images]
  by (simp add: sample_kube_def frozen_def time_defs)

lemma view_applyConditions_levels:
  assumes "conditions_ok D"
  shows "view D (conds (applyConditions D br inp)) ConditionReachable =
      (case reachable inp of Some c \<Rightarrow> Some (core c) | None \<Rightarrow> view D (conds br) ConditionReachable)"
    "metadataValid inp = Some c \<Longrightarrow> view D (conds (applyConditions D br inp)) ConditionMetadataValid = Some (core c)"
    "sampledIntegrityValid inp = Some c \<Longrightarrow> SampledRetrievalInterval (Spec br) \<noteq> None \<Longrightarrow>
      view D (conds (applyConditions D br inp)) ConditionSampledIntegrityValid = Some (core c)"
    "fullRetrievalCompleted inp = Some c \<Longrightarrow> e4Meaningful br inp \<Longrightarrow>
      view D (conds (applyConditions D br inp)) ConditionFullRetrievalCompleted = Some (core c)"
  using assms by (auto simp: view_subConditions subConditions_def cond_simps split: option.split)

lemma view_applyConditions_dropped:
  assumes "conditions_ok D"
  shows "SampledRetrievalInterval (Spec br) = None \<Longrightarrow>
      view D (conds (applyConditions D br inp)) ConditionSampledIntegrityValid = None"
    "\<not> e4Meaningful br inp \<Longrightarrow> view D (conds (applyConditions D br inp)) ConditionFullRetrievalCompleted = None"
  using assms by (simp_all add: view_subConditions subConditions_def cond_simps)

lemma unreachable_unhealthy:
  assumes "conditions_ok D" "reachable inp = Some c" "cStatus c = ConditionFalse"
  shows "status_of D (conds (applyConditions D br inp)) ConditionReachable = Some ConditionFalse"
    "status_of D (conds (applyConditions D br inp)) ConditionHealthy = Some ConditionFalse"
proof -
  let ?cs = "conds (applyConditions D br inp)"
  show r: "status_of D ?cs ConditionReachable = Some ConditionFalse"
    using view_applyConditions_levels(1) [OF assms(1), of br inp] assms(2,3)
    by (simp add: status_of_def core_def)
  then have "ConditionFalse \<in> statuses D ?cs sub_types"
    by (auto simp: statuses_def type_list_defs)
  then show "status_of D ?cs ConditionHealthy = Some ConditionFalse"
    using applyConditions_rollups(3) [OF assms(1), of inp br] assms(2)
    by (simp add: conjunction_False_iff)
qed

lemma touch_fields [simp]:
  "Spec (touch now br) = Spec br" "Conditions (Status (touch now br)) = Conditions (Status br)"
  "VerifiedLastValidationAt (Status (touch now br)) = VerifiedLastValidationAt (Status br)"
  "VerifiedLastSampledRetrievalAt (Status (touch now br)) = VerifiedLastSampledRetrievalAt (Status br)"
  "LastFullRetrieval (Status (touch now br)) = LastFullRetrieval (Status br)"
  "Annotations (touch now br) = Annotations br"
  "LastForceRevalidatedAt (Status (touch now br)) = LastForceRevalidatedAt (Status br)"
  "LastForcedE4At (Status (touch now br)) = LastForcedE4At (Status br)"
  by (simp_all add: touch_def)

lemma preservedCondition_touch [simp]: "preservedCondition D (touch now br) t = preservedCondition D br t"
  by (simp add: preservedCondition_def)

text \<open>
  C23: any other credential failure, and a Secret that stays away for a minute or longer, is reported at once and
  loudly. The one request the reconcile sends sets Reachable and Healthy to False; the condition of E2, if it carries a
  real result, keeps status, reason and message, and the recorded times of all levels stay. The condition of E3 is
  kept exactly as long as sampled retrieval is switched on, and that of E4 exactly if full retrieval is scheduled or one was
  recorded; otherwise they are removed, a failed result that left no record included.
\<close>

theorem credentials_failure:
  assumes "conditions_ok D" "getBackupRepository K req = Inr br" "resolveCredentials D K br = Inl err"
    and "is_ErrCredentialsSecretNotFound err \<longrightarrow>
      (case seen req of Some t \<Rightarrow> t | None \<Rightarrow> now_stored clk) + 60 * Second \<le> now_since clk"
  shows "\<exists>seen' b res. Reconcile D VI K clk req seen = Ret (seen', [PatchStatus b], res) \<and>
    status_of D (conds b) ConditionReachable = Some ConditionFalse \<and>
    status_of D (conds b) ConditionHealthy = Some ConditionFalse \<and>
    (\<forall>c. preservedCondition D br ConditionMetadataValid = Some c \<longrightarrow>
       view D (conds b) ConditionMetadataValid = Some (core c)) \<and>
    (\<forall>c. preservedCondition D br ConditionSampledIntegrityValid = Some c \<longrightarrow>
       view D (conds b) ConditionSampledIntegrityValid =
         (if SampledRetrievalInterval (Spec br) = None then None else Some (core c))) \<and>
    (\<forall>c. preservedCondition D br ConditionFullRetrievalCompleted = Some c \<longrightarrow>
       view D (conds b) ConditionFullRetrievalCompleted =
         (if FullRetrievalInterval (Spec br) = None \<and> LastFullRetrieval (Status br) = None then None else Some (core c))) \<and>
    VerifiedLastValidationAt (Status b) = VerifiedLastValidationAt (Status br) \<and>
    VerifiedLastSampledRetrievalAt (Status b) = VerifiedLastSampledRetrievalAt (Status br) \<and>
    LastFullRetrieval (Status b) = LastFullRetrieval (Status br)"
proof -
  let ?first = "case seen req of Some t \<Rightarrow> t | None \<Rightarrow> now_stored clk"
  let ?br = "touch (now_status clk) br"
  let ?inp = "credentialInputs D ?br err"
  let ?b = "failureStatus D (now_status clk) br err"
  have late: "\<not> Sub (now_since clk) ?first < credentialsTransientTolerance" if "?first + 60 * Second \<le> now_since clk"
    using that by (auto simp: Sub_def sat64_def credentialsTransientTolerance_def int64_defs time_defs)
  obtain seen' res where "Reconcile D VI K clk req seen = Ret (seen', [PatchStatus ?b], res)"
    using assms(2-4) late
    by (cases "is_ErrCredentialsSecretNotFound err")
       (auto simp: Reconcile_def recordCredentialsFailure_def Let_def)
  moreover have b: "?b = applyConditions D ?br ?inp"
    by (simp add: failureStatus_def Let_def)
  moreover have "e4Meaningful ?br ?inp \<longleftrightarrow>
      \<not> (FullRetrievalInterval (Spec br) = None \<and> LastFullRetrieval (Status br) = None)"
    by (simp add: e4Meaningful_def credentialInputs_def del: not_None_eq)
  moreover have "reachable ?inp = Some (condFalse ReasonCredentialsUnavailable (Error err))"
    "metadataValid ?inp = preservedCondition D br ConditionMetadataValid"
    "sampledIntegrityValid ?inp = preservedCondition D br ConditionSampledIntegrityValid"
    "fullRetrievalCompleted ?inp = preservedCondition D br ConditionFullRetrievalCompleted"
    by (simp_all add: credentialInputs_def)
  moreover note unreachable_unhealthy [OF assms(1), of ?inp _ ?br]
    view_applyConditions_levels(2-) [OF assms(1), of ?inp _ ?br]
    view_applyConditions_dropped [OF assms(1), of ?br ?inp]
  ultimately show ?thesis
    by (intro exI [of _ seen'] exI [of _ ?b] exI [of _ res])
       (simp add: condFalse_def plainCondition_def del: not_None_eq)
qed

definition validated_br :: BackupRepository where
  "validated_br = sample_br\<lparr>Status := sample_status
     \<lparr>Conditions := [(condTrue ReasonProbeSucceeded ''validator exit 0'')\<lparr>cType := ConditionMetadataValid\<rparr>],
      VerifiedLastValidationAt := Some 0\<rparr>\<rparr>"

definition forbidden_kube :: kube where
  "forbidden_kube = sample_kube\<lparr>getBackupRepository := (\<lambda>n. Inr validated_br),
     getSecret := (\<lambda>n. Inl (OtherAPIError ''forbidden''))\<rparr>"

theorem credentials_failure_witness:
  "\<exists>seen' b res.
     Reconcile sample_deps sample_images forbidden_kube (frozen 9) sample_req Map.empty = Ret (seen', [PatchStatus b], res) \<and>
     status_of sample_deps (conds b) ConditionHealthy = Some ConditionFalse \<and>
     view sample_deps (conds b) ConditionMetadataValid =
       Some (core (condTrue ReasonProbeSucceeded ''validator exit 0''))"
proof -
  have "getBackupRepository forbidden_kube sample_req = Inr validated_br"
    by (simp add: forbidden_kube_def)
  moreover have "resolveCredentials sample_deps forbidden_kube validated_br =
      Inl (GoError (''get secret '' @ KeyString sample_deps \<lparr>nn_Namespace = ''db'', nn_Name = ''s3-creds''\<rparr> @ '': '' @ ''forbidden''))"
    by (simp add: resolveCredentials_def forbidden_kube_def validated_br_def sample_br_def sample_spec_def
        sample_secret_def Let_def)
  moreover have "preservedCondition sample_deps validated_br ConditionMetadataValid =
      Some ((condTrue ReasonProbeSucceeded ''validator exit 0'')\<lparr>cType := ConditionMetadataValid\<rparr>)"
    by (simp add: preservedCondition_def sample_deps_def validated_br_def condTrue_def plainCondition_def)
  ultimately show ?thesis
    using credentials_failure [where D = sample_deps and K = forbidden_kube and req = sample_req and br = validated_br
        and seen = Map.empty and clk = "frozen 9" and VI = sample_images]
    by fastforce
qed

section \<open>The status of a full cycle\<close>

lemma record_frame [simp]:
  "Spec (fst (recordE2 D e2 br)) = Spec br" "Spec (fst (recordE3 D e3 br)) = Spec br"
  "Spec (fst (recordE4 D e4 br)) = Spec br" "Spec (recordProbe p h h4 br) = Spec br"
  "Conditions (Status (fst (recordE2 D e2 br))) = Conditions (Status br)"
  "Conditions (Status (fst (recordE3 D e3 br))) = Conditions (Status br)"
  "Conditions (Status (fst (recordE4 D e4 br))) = Conditions (Status br)"
  "Conditions (Status (recordProbe p h h4 br)) = Conditions (Status br)"
  "Annotations (fst (recordE2 D e2 br)) = Annotations br" "Annotations (fst (recordE3 D e3 br)) = Annotations br"
  "Annotations (fst (recordE4 D e4 br)) = Annotations br" "Annotations (recordProbe p h h4 br) = Annotations br"
  by (simp_all add: recordE2_def recordE3_def recordE4_def recordProbe_def split: option.split)

lemma record_fields [simp]:
  "VerifiedLastValidationAt (Status (recordProbe p h h4 br)) = VerifiedLastValidationAt (Status br)"
  "VerifiedLastSampledRetrievalAt (Status (recordProbe p h h4 br)) = VerifiedLastSampledRetrievalAt (Status br)"
  "LastFullRetrieval (Status (recordProbe p h h4 br)) = LastFullRetrieval (Status br)"
  "VerifiedLastSampledRetrievalAt (Status (fst (recordE2 D e2 br))) = VerifiedLastSampledRetrievalAt (Status br)"
  "LastFullRetrieval (Status (fst (recordE2 D e2 br))) = LastFullRetrieval (Status br)"
  "VerifiedLastValidationAt (Status (fst (recordE3 D e3 br))) = VerifiedLastValidationAt (Status br)"
  "LastFullRetrieval (Status (fst (recordE3 D e3 br))) = LastFullRetrieval (Status br)"
  "VerifiedLastValidationAt (Status (fst (recordE4 D e4 br))) = VerifiedLastValidationAt (Status br)"
  "VerifiedLastSampledRetrievalAt (Status (fst (recordE4 D e4 br))) = VerifiedLastSampledRetrievalAt (Status br)"
  "LastForceRevalidatedAt (Status (fst (recordE2 D e2 br))) = LastForceRevalidatedAt (Status br)"
  "LastForceRevalidatedAt (Status (fst (recordE3 D e3 br))) = LastForceRevalidatedAt (Status br)"
  "LastForceRevalidatedAt (Status (fst (recordE4 D e4 br))) = LastForceRevalidatedAt (Status br)"
  "LastForcedE4At (Status (fst (recordE2 D e2 br))) = LastForcedE4At (Status br)"
  "LastForcedE4At (Status (fst (recordE3 D e3 br))) = LastForcedE4At (Status br)"
  "LastForcedE4At (Status (fst (recordE4 D e4 br))) = LastForcedE4At (Status br)"
  "ClaimedLastSuccessfulBackup (Status (fst (recordE2 D e2 br))) = ClaimedLastSuccessfulBackup (Status br)"
  "ClaimedLastSuccessfulBackup (Status (fst (recordE3 D e3 br))) = ClaimedLastSuccessfulBackup (Status br)"
  "ClaimedLastSuccessfulBackup (Status (fst (recordE4 D e4 br))) = ClaimedLastSuccessfulBackup (Status br)"
  by (simp_all add: recordE2_def recordE3_def recordE4_def recordProbe_def split: option.split)

lemma preservedCondition_cong:
  "Conditions (Status br) = Conditions (Status br') \<Longrightarrow> preservedCondition D br t = preservedCondition D br' t"
  by (simp add: preservedCondition_def)

text \<open>The two inputs of the status computation that the level outcomes determine.\<close>

lemma nextStatus_eq:
  "nextStatus D now br p e2 e3 e4 h h4 =
     (let b = recordProbe p h h4 (touch now br);
          b2 = fst (recordE2 D e2 b); b3 = fst (recordE3 D e3 b2); b4 = fst (recordE4 D e4 b3)
      in applyConditions D b4
           \<lparr>reachable = Some (condFromBool (pr_Reachable p) (ReachableReason p) (ReachableMessage p)),
            bucketSecurityValid =
              Some (ifReachable (pr_Reachable p)
                (condFromBool (pr_BucketSecurityValid p) (BucketSecurityReason p) (BucketSecurityMessage p))),
            backupCurrent = Some (ifReachable (pr_Reachable p) (computeBackupCurrent b4 now)),
            metadataValid = snd (recordE2 D e2 b), e2JobActive = e2_jobActive e2,
            sampledIntegrityValid = snd (recordE3 D e3 b2), e3JobActive = e3_jobActive e3,
            fullRetrievalCompleted = snd (recordE4 D e4 b3), e4JobActive = e4_jobActive e4\<rparr>)"
  by (simp add: nextStatus_def Let_def split_beta)

definition real :: "deps \<Rightarrow> Condition list \<Rightarrow> string \<Rightarrow> bool" where
  "real D cs t \<longleftrightarrow> (\<exists>st r m. view D cs t = Some (st, r, m) \<and> r \<noteq> ReasonLayerTwoNotYetAvailable)"

lemma real_core: "view D cs t = Some (core c) \<Longrightarrow> real D cs t \<longleftrightarrow> cReason c \<noteq> ReasonLayerTwoNotYetAvailable"
  by (simp add: real_def core_def)

lemma preserved_reason: "preservedCondition D br t = Some c \<Longrightarrow> cReason c \<noteq> ReasonLayerTwoNotYetAvailable"
  by (auto simp: preservedCondition_def split: option.splits if_splits)

lemma ingest_reason:
  "cReason (fst (ingestE2Result D K br j)) \<noteq> ReasonLayerTwoNotYetAvailable"
  "cReason (ingestE3Result K j) \<noteq> ReasonLayerTwoNotYetAvailable"
  "cReason (fst (ingestE4Result K j)) \<noteq> ReasonLayerTwoNotYetAvailable"
  by (simp_all add: ingestE2Result_def ingestE3Result_def ingestE4Result_def Let_def cond_simps)

lemma process_reasons:
  "processE2 D VI K clk br f = (effs2, e2) \<Longrightarrow> e2_completedResult e2 = Some c \<Longrightarrow>
     cReason c \<noteq> ReasonLayerTwoNotYetAvailable"
  "processE3 D VI K clk br creds f = Ret (effs3, e3) \<Longrightarrow> e3_completedResult e3 = Some c \<Longrightarrow>
     cReason c \<noteq> ReasonLayerTwoNotYetAvailable"
  "processE4 D VI K clk br f = Ret (effs4, e4, br') \<Longrightarrow> e4_completedResult e4 = Some c \<Longrightarrow>
     cReason c \<noteq> ReasonLayerTwoNotYetAvailable"
proof -
  show "cReason c \<noteq> ReasonLayerTwoNotYetAvailable"
    if "processE2 D VI K clk br f = (effs2, e2)" "e2_completedResult e2 = Some c"
    using that processE2_eqs(1) [OF _ that(1)] ingest_reason(1)
    by (cases "listE2Jobs K br") (auto simp: processE2_def noE2_def)
  show "cReason c \<noteq> ReasonLayerTwoNotYetAvailable"
    if p: "processE3 D VI K clk br creds f = Ret (effs3, e3)" "e3_completedResult e3 = Some c"
  proof -
    have en: "SampledRetrievalInterval (Spec br) \<noteq> None"
      using p processE3_disabled [of br D VI K clk creds f]
      by (cases "SampledRetrievalInterval (Spec br)") (auto simp: noE3_def)
    then obtain js where "listE3Jobs K br = Inr js"
      using p by (cases "listE3Jobs K br") (auto simp: processE3_def noE3_def)
    from processE3_eqs(1) [OF this p(1) en] p(2) obtain j where "c = ingestE3Result K j"
      by (metis map_option_eq_Some)
    then show ?thesis
      by (simp add: ingest_reason)
  qed
  show "cReason c \<noteq> ReasonLayerTwoNotYetAvailable"
    if "processE4 D VI K clk br f = Ret (effs4, e4, br')" "e4_completedResult e4 = Some c"
    using that processE4_eqs(1) [OF _ that(1)] ingest_reason(3)
    by (cases "listE4Jobs K br") (auto simp: processE4_def noE4_def)
qed

lemma runLevels_reasons:
  assumes "runLevels D VI K clk br creds g = Ret (effs, e2, e3, e4, br')"
  shows "e2_completedResult e2 = Some c \<Longrightarrow> cReason c \<noteq> ReasonLayerTwoNotYetAvailable"
    "e3_completedResult e3 = Some c \<Longrightarrow> cReason c \<noteq> ReasonLayerTwoNotYetAvailable"
    "e4_completedResult e4 = Some c \<Longrightarrow> cReason c \<noteq> ReasonLayerTwoNotYetAvailable"
  using assms
  by (cases rule: runLevels_cases; auto split: if_splits simp: noE3_def noE4_def dest: process_reasons)+

text \<open>What recording a level does to its marker and to the condition it passes on.\<close>

lemma record_marked:
  "VerifiedLastValidationAt (Status (fst (recordE2 D e2 br))) \<noteq> None \<Longrightarrow>
     \<exists>c. snd (recordE2 D e2 br) = Some c \<and>
       (e2_completedResult e2 = Some c \<or> preservedCondition D br ConditionMetadataValid = Some c)"
  "VerifiedLastSampledRetrievalAt (Status (fst (recordE3 D e3 br))) \<noteq> None \<Longrightarrow>
     \<exists>c. snd (recordE3 D e3 br) = Some c \<and>
       (e3_completedResult e3 = Some c \<or> preservedCondition D br ConditionSampledIntegrityValid = Some c)"
  "LastFullRetrieval (Status (fst (recordE4 D e4 br))) \<noteq> None \<Longrightarrow>
     \<exists>c. snd (recordE4 D e4 br) = Some c \<and>
       (e4_completedResult e4 = Some c \<or> preservedCondition D br ConditionFullRetrievalCompleted = Some c)"
  by (auto simp: recordE2_def recordE3_def recordE4_def split: option.splits if_splits)

lemma nextStatus_backed:
  assumes "conditions_ok D" "runLevels D VI K clk br creds g = Ret (effs, e2, e3, e4, br')"
    and "b = nextStatus D now br' p e2 e3 e4 h h4"
  shows "(VerifiedLastValidationAt (Status b) \<noteq> None \<longrightarrow> real D (conds b) ConditionMetadataValid) \<and>
    (VerifiedLastSampledRetrievalAt (Status b) \<noteq> None \<longrightarrow> SampledRetrievalInterval (Spec b) \<noteq> None \<longrightarrow>
       real D (conds b) ConditionSampledIntegrityValid) \<and>
    (LastFullRetrieval (Status b) \<noteq> None \<longrightarrow> real D (conds b) ConditionFullRetrievalCompleted)"
proof -
  let ?b1 = "recordProbe p h h4 (touch now br')"
  let ?b2 = "fst (recordE2 D e2 ?b1)"
  let ?b3 = "fst (recordE3 D e3 ?b2)"
  let ?b4 = "fst (recordE4 D e4 ?b3)"
  obtain inp where b: "b = applyConditions D ?b4 inp"
    and inp: "metadataValid inp = snd (recordE2 D e2 ?b1)"
      "sampledIntegrityValid inp = snd (recordE3 D e3 ?b2)"
      "fullRetrievalCompleted inp = snd (recordE4 D e4 ?b3)"
    using assms(3) unfolding nextStatus_eq Let_def by (metis conditionInputs.select_convs(4,6,8))
  have result: "cReason c \<noteq> ReasonLayerTwoNotYetAvailable"
    if "e2_completedResult e2 = Some c \<or> e3_completedResult e3 = Some c \<or> e4_completedResult e4 = Some c \<or>
      preservedCondition D x t = Some c" for c t x
    using that runLevels_reasons [OF assms(2)] preserved_reason by blast
  note v = view_applyConditions_levels(2-) [OF assms(1), of inp _ ?b4, folded b]
  show ?thesis
  proof (intro conjI impI)
    assume "VerifiedLastValidationAt (Status b) \<noteq> None"
    then have "VerifiedLastValidationAt (Status ?b2) \<noteq> None"
      by (simp add: b)
    from record_marked(1) [OF this] show "real D (conds b) ConditionMetadataValid"
      using v(1) inp(1) real_core result by metis
  next
    assume "VerifiedLastSampledRetrievalAt (Status b) \<noteq> None" "SampledRetrievalInterval (Spec b) \<noteq> None"
    then have "VerifiedLastSampledRetrievalAt (Status ?b3) \<noteq> None" "SampledRetrievalInterval (Spec ?b4) \<noteq> None"
      by (simp_all add: b)
    from record_marked(2) [OF this(1)] this(2) show "real D (conds b) ConditionSampledIntegrityValid"
      using v(2) inp(2) real_core result by metis
  next
    assume "LastFullRetrieval (Status b) \<noteq> None"
    then have m: "LastFullRetrieval (Status ?b4) \<noteq> None"
      by (simp add: b)
    then have "e4Meaningful ?b4 inp"
      by (simp add: e4Meaningful_def)
    with record_marked(3) [OF m] show "real D (conds b) ConditionFullRetrievalCompleted"
      using v(3) inp(3) real_core result by metis
  qed
qed

text \<open>
  A recorded validation time is always backed by a result. After the status of a cycle is computed, whatever the
  repository looked like before, a recorded E2, E3 or E4 time (for E3 while it is enabled) comes with a condition
  that carries a real result rather than a placeholder; a time whose condition was lost is
  cleared, so that the level runs again.
\<close>

theorem markers_backed:
  assumes "conditions_ok D" "runLevels D VI K clk br creds g = Ret (effs, e2, e3, e4, br')"
    and "b = nextStatus D now br' p e2 e3 e4 h h4"
  shows "(VerifiedLastValidationAt (Status b) \<noteq> None \<longrightarrow> real D (conds b) ConditionMetadataValid) \<and>
    (VerifiedLastSampledRetrievalAt (Status b) \<noteq> None \<longrightarrow> SampledRetrievalInterval (Spec b) \<noteq> None \<longrightarrow>
       real D (conds b) ConditionSampledIntegrityValid) \<and>
    (LastFullRetrieval (Status b) \<noteq> None \<longrightarrow> real D (conds b) ConditionFullRetrievalCompleted)"
  by (rule nextStatus_backed [OF assms])

theorem markers_backed_witness:
  "\<exists>effs e2 e3 e4 br' b.
     runLevels sample_deps sample_images sample_kube_done (frozen 9) sample_br sample_creds (forceGates sample_br) =
       Ret (effs, e2, e3, e4, br') \<and>
     b = nextStatus sample_deps 9 br' (reachOnly True [] []) e2 e3 e4 None None \<and>
     VerifiedLastValidationAt (Status b) = Some 7 \<and> real sample_deps (conds b) ConditionMetadataValid"
proof -
  let ?js = "[sample_job ''a'' JobComplete 7, sample_job ''b'' JobFailed 5]"
  have "sampling_configured (Spec sample_br)"
    by code_simp
  then obtain effs e2 e3 e4 br' where
    run: "runLevels sample_deps sample_images sample_kube_done (frozen 9) sample_br sample_creds (forceGates sample_br) =
      Ret (effs, e2, e3, e4, br')"
    using runLevels_returns by (metis prod.exhaust)
  then obtain effs2 where
    p: "processE2 sample_deps sample_images sample_kube_done (frozen 9) sample_br (fg_e2 (forceGates sample_br)) = (effs2, e2)"
    by (rule runLevels_cases)
  have jobs: "listE2Jobs sample_kube_done sample_br = Inr ?js"
    by (simp add: listE2Jobs_def sample_kube_done_def)
  have "map_option jobCompletionTime (newResult sample_deps ?js (VerifiedLastValidationAt (Status sample_br))) = Some 7"
    by code_simp
  then have e2: "e2_completedResult e2 \<noteq> None" "e2_completedAt e2 = Some 7"
    using processE2_eqs(1,3) [OF jobs p] by auto
  let ?b = "nextStatus sample_deps 9 br' (reachOnly True [] []) e2 e3 e4 None None"
  have v: "VerifiedLastValidationAt (Status ?b) = Some 7"
    using e2 by (auto simp: nextStatus_eq Let_def recordE2_def)
  then have "real sample_deps (conds ?b) ConditionMetadataValid"
    using markers_backed [OF sample_deps_ok(1) run refl, of 9 "reachOnly True [] []" None None] by simp
  with v run show ?thesis
    by (intro exI conjI) (rule refl | assumption)+
qed

lemma nextStatus_reachable:
  assumes "conditions_ok D" "b = nextStatus D now br p e2 e3 e4 h h4"
    "status_of D (conds b) ConditionHealthy = Some ConditionTrue"
  shows "pr_Reachable p" "pr_BucketSecurityValid p"
    "\<exists>t. LastSuccessfulBackup p = Some t \<and> Sub now t \<le> MaxBackupLag (Spec b)"
proof -
  let ?b1 = "recordProbe p h h4 (touch now br)"
  let ?b2 = "fst (recordE2 D e2 ?b1)"
  let ?b3 = "fst (recordE3 D e3 ?b2)"
  let ?b4 = "fst (recordE4 D e4 ?b3)"
  obtain inp where b: "b = applyConditions D ?b4 inp"
    and inp: "reachable inp = Some (condFromBool (pr_Reachable p) (ReachableReason p) (ReachableMessage p))"
      "bucketSecurityValid inp = Some (ifReachable (pr_Reachable p)
         (condFromBool (pr_BucketSecurityValid p) (BucketSecurityReason p) (BucketSecurityMessage p)))"
      "backupCurrent inp = Some (ifReachable (pr_Reachable p) (computeBackupCurrent ?b4 now))"
    using assms(2) unfolding nextStatus_eq Let_def by (metis conditionInputs.select_convs(1,2,3))
  have "conjunction (statuses D (conds b) sub_types) = ConditionTrue"
    using applyConditions_rollups(3) [OF assms(1), of inp ?b4] inp(1) assms(3) by (simp add: b)
  then have all: "st = ConditionTrue" if "t \<in> set sub_types" "status_of D (conds b) t = Some st" for st t
    using that conjunction_True_iff [OF finite_statuses, of D "conds b" sub_types] unfolding statuses_def by blast
  have views: "status_of D (conds b) ConditionReachable = map_option cStatus (reachable inp)"
    "status_of D (conds b) ConditionBucketSecurityValid = map_option cStatus (bucketSecurityValid inp)"
    "status_of D (conds b) ConditionBackupCurrent = map_option cStatus (backupCurrent inp)"
    using assms(1) inp unfolding b status_of_def
    by (simp_all add: view_subConditions subConditions_def cond_simps)
  show r: "pr_Reachable p"
    using all [of ConditionReachable] views(1) inp(1)
    by (auto simp: type_list_defs cond_simps split: if_splits)
  show "pr_BucketSecurityValid p"
    using all [of ConditionBucketSecurityValid] views(2) inp(2) r
    by (auto simp: type_list_defs cond_simps ifReachable_def split: if_splits)
  have "cStatus (computeBackupCurrent ?b4 now) = ConditionTrue"
    using all [of ConditionBackupCurrent] views(3) inp(3) r by (auto simp: type_list_defs ifReachable_def)
  moreover have "ClaimedLastSuccessfulBackup (Status ?b4) = LastSuccessfulBackup p"
    by (simp add: recordProbe_def)
  ultimately show "\<exists>t. LastSuccessfulBackup p = Some t \<and> Sub now t \<le> MaxBackupLag (Spec b)"
    by (auto simp: computeBackupCurrent_def cond_simps Let_def b split: option.splits if_splits)
qed

definition patched :: "effect list \<Rightarrow> BackupRepository list" where
  "patched effs = List.map_filter (\<lambda>e. case e of PatchStatus b \<Rightarrow> Some b | _ \<Rightarrow> None) effs"

lemma patched_simps [simp]:
  "patched [] = []" "patched (PatchStatus b # es) = b # patched es" "patched (CreateJob j # es) = patched es"
  "patched (CreatePVC p # es) = patched es" "patched (PatchMetadata k # es) = patched es"
  "patched (CounterInc n l # es) = patched es" "patched (HistogramObserve n l d # es) = patched es"
  "patched (GaugeSet n l g # es) = patched es" "patched (xs @ ys) = patched xs @ patched ys"
  by (simp_all add: patched_def List.map_filter_def)

text \<open>The writes of a reconcile to the repository object itself.\<close>

definition objectWrites :: "effect list \<Rightarrow> effect list" where
  "objectWrites effs = filter (\<lambda>e. case e of PatchStatus b \<Rightarrow> True | PatchMetadata k \<Rightarrow> True | _ \<Rightarrow> False) effs"

lemma objectWrites_simps [simp]:
  "objectWrites [] = []" "objectWrites (PatchStatus b # es) = PatchStatus b # objectWrites es"
  "objectWrites (CreateJob j # es) = objectWrites es" "objectWrites (CreatePVC p # es) = objectWrites es"
  "objectWrites (PatchMetadata k # es) = PatchMetadata k # objectWrites es"
  "objectWrites (CounterInc n l # es) = objectWrites es"
  "objectWrites (HistogramObserve n l d # es) = objectWrites es"
  "objectWrites (GaugeSet n l g # es) = objectWrites es"
  "objectWrites (xs @ ys) = objectWrites xs @ objectWrites ys"
  by (simp_all add: objectWrites_def)

lemma patched_objectWrites: "patched effs = patched (objectWrites effs)"
  by (induction effs) (auto simp: patched_def objectWrites_def List.map_filter_def split: effect.split)

lemma objectWrites_gauges: "objectWrites (map (\<lambda>x. GaugeSet (f x) (g x) (h x)) xs) = []"
  by (induction xs) simp_all

lemma objectWrites_option:
  "(\<And>a. objectWrites (f a) = []) \<Longrightarrow> objectWrites (case x of None \<Rightarrow> [] | Some a \<Rightarrow> f a) = []"
  by (cases x) simp_all

lemma objectWrites_publishMetrics [simp]: "objectWrites (publishMetrics D now br) = []"
  unfolding publishMetrics_def Let_def
  by (simp only: objectWrites_simps objectWrites_option objectWrites_gauges append_Nil)

lemma patched_publishMetrics [simp]: "patched (publishMetrics D now br) = []"
  by (simp add: patched_objectWrites [of "publishMetrics D now br"])

text \<open>
  All that the levels emit: creation requests, run metrics, and the removal of the \<open>force-e4\<close>
  annotation, by the E4 step of a live annotation only.
\<close>

definition levelEffects :: "(effect \<Rightarrow> bool) \<Rightarrow> bool" where
  "levelEffects P \<longleftrightarrow> (\<forall>j. P (CreateJob j)) \<and> (\<forall>p. P (CreatePVC p)) \<and>
     (\<forall>br l j. list_all P (recordValidationRun br l j))"

lemma submitJob_effects: "levelEffects P \<Longrightarrow> list_all P (fst (submitJob K br m job))"
  by (simp add: levelEffects_def submitJob_def split: sum.split)

lemma spawn_effects:
  assumes "levelEffects P"
  shows "list_all P (fst (spawnE2Job D VI K now br))"
    and "spawnE3Job D VI K now br creds = Ret s \<Longrightarrow> list_all P (fst s)"
    and "spawnE4Job D VI K now br forced = Ret s \<Longrightarrow> list_all P (fst s)"
proof -
  show "list_all P (fst (spawnE2Job D VI K now br))"
    by (simp add: spawnE2Job_def Let_def submitJob_effects [OF assms] split: sum.split)
  show "list_all P (fst s)" if "spawnE3Job D VI K now br creds = Ret s"
    using that submitJob_effects [OF assms]
    by (cases "e3CommandArgsEnv D br creds") (auto simp: spawnE3Job_def split: sum.split_asm)
  have pvc: "list_all P effs" if "ensureE4PVC K br = Ret (effs, r)" for effs r
    using that assms unfolding ensureE4PVC_def levelEffects_def
    by (cases "FullRetrievalPVCSize (Spec br)") (auto split: sum.split_asm)
  show "list_all P (fst s)" if "spawnE4Job D VI K now br forced = Ret s"
  proof (cases "ensureE4PVC K br")
    case (Ret e)
    obtain effs r where e: "e = (effs, r)"
      by fastforce
    have sub: "list_all P effs'" if "submitJob K br m job = (effs', r')" for m job effs' r'
      using submitJob_effects [OF assms, of K br m job] that by simp
    have "list_all P effs"
      using pvc Ret e by simp
    then show ?thesis
      using that Ret unfolding e spawnE4Job_def Let_def
      by (cases "validatorImageFor D VI (Format (Spec br))"; cases r; cases "e4CommandArgsEnv D br")
         (auto split: prod.split_asm dest: sub)
  qed (use that in \<open>auto simp: spawnE4Job_def Let_def split: sum.split_asm\<close>)
qed

lemma collect_effects:
  assumes "levelEffects P"
  shows "collectE2 D K br js = (es, o2) \<Longrightarrow> list_all P es"
    and "collectE3 D K br js = (es, o3) \<Longrightarrow> list_all P es"
    and "collectE4 D K br js = (es, o4) \<Longrightarrow> list_all P es"
  using assms
  by (auto simp: levelEffects_def collectE2_def collectE3_def collectE4_def Let_def
      split: option.splits prod.splits)

lemma processE2_effects:
  assumes "levelEffects P" and "processE2 D VI K clk br f = (effs, out)"
  shows "list_all P effs"
proof (cases "listE2Jobs K br")
  case (Inr js)
  obtain es o1 where c: "collectE2 D K br js = (es, o1)"
    by fastforce
  then show ?thesis
    using assms(2) Inr c collect_effects(1) [OF assms(1) c]
      spawn_effects(1) [OF assms(1), of D VI K "now_e2_name clk" br]
    by (auto simp: processE2_def split: if_splits prod.splits)
qed (use assms in \<open>simp add: processE2_def\<close>)

lemma processE3_effects:
  assumes "levelEffects P" and "processE3 D VI K clk br creds f = Ret (effs, out)"
  shows "list_all P effs"
proof (cases "SampledRetrievalInterval (Spec br) = None \<or> (\<exists>e. listE3Jobs K br = Inl e)")
  case True
  with assms show ?thesis by (auto simp: processE3_def split: if_splits)
next
  case False
  then obtain js where js: "listE3Jobs K br = Inr js"
    by (cases "listE3Jobs K br") auto
  obtain es o1 where c: "collectE3 D K br js = (es, o1)"
    by fastforce
  then show ?thesis
    using assms(2) False js c collect_effects(2) [OF assms(1) c]
      spawn_effects(2) [OF assms(1), of D VI K "now_e3_name clk" br creds]
    by (auto simp: processE3_def go_simps split: if_splits)
qed

lemma processE4_effects:
  assumes "levelEffects P" and "processE4 D VI K clk br f = Ret (effs, out, br')"
  shows "\<exists>es ws. effs = es @ ws \<and> list_all P es \<and>
    (ws = [] \<or> f \<and> ws = [PatchMetadata AnnotationForceE4])"
proof (cases "listE4Jobs K br")
  case (Inr js)
  obtain es o1 where c: "collectE4 D K br js = (es, o1)"
    by fastforce
  note es = collect_effects(3) [OF assms(1) c]
  have clear: "fst (clearForceE4Annotation K br) \<in> {[], [PatchMetadata AnnotationForceE4]}"
    by (simp add: clearForceE4Annotation_def)
  have "(\<exists>s. effs = es @ s \<and> list_all P s) \<or>
      f \<and> (\<exists>s. effs = es @ s @ fst (clearForceE4Annotation K br) \<and> list_all P s)"
    using assms(2) Inr c spawn_effects(3) [OF assms(1), of D VI K "now_e4_name clk" br f]
    by (auto simp: processE4_def Let_def go_simps split: if_splits sum.splits prod.splits)
       (metis sum.exhaust)+
  then show ?thesis
  proof (elim disjE conjE exE)
    fix s
    assume "effs = es @ s" "list_all P s"
    with es show ?thesis
      by (intro exI [of _ "es @ s"] exI [of _ "[]"]) simp
  next
    fix s
    assume "f" "effs = es @ s @ fst (clearForceE4Annotation K br)" "list_all P s"
    with es clear show ?thesis
      by (intro exI [of _ "es @ s"] exI [of _ "fst (clearForceE4Annotation K br)"]) auto
  qed
qed (use assms in \<open>auto simp: processE4_def\<close>)

lemma runLevels_effects:
  assumes "levelEffects P" and "runLevels D VI K clk br creds g = Ret (effs, e2, e3, e4, br')"
  shows "\<exists>es ws. effs = es @ ws \<and> list_all P es \<and>
    (ws = [] \<or> fg_e4 g \<and> ws = [PatchMetadata AnnotationForceE4])"
  using assms(2)
proof (cases rule: runLevels_cases)
  case (1 effs2 effs3 effs4)
  have "list_all P effs2"
    using processE2_effects [OF assms(1) 1(2)] .
  moreover have "list_all P effs3"
    using 1(3) processE3_effects [OF assms(1)] by (auto split: if_splits)
  moreover obtain es ws where "effs4 = es @ ws" "list_all P es"
      "ws = [] \<or> fg_e4 g \<and> ws = [PatchMetadata AnnotationForceE4]"
    using 1(4) processE4_effects [OF assms(1)]
    by (cases "e2_jobActive e2 \<or> e3_jobActive e3") (simp, metis)
  ultimately show ?thesis
    using 1(1) by (intro exI [of _ "effs2 @ effs3 @ es"] exI [of _ ws]) simp
qed

abbreviation isObjectWrite :: "effect \<Rightarrow> bool" where
  "isObjectWrite e \<equiv> objectWrites [e] \<noteq> []"

lemma objectWrites_none: "list_all (\<lambda>e. \<not> isObjectWrite e) effs \<Longrightarrow> objectWrites effs = []"
  by (induction effs) (auto simp: objectWrites_def split: effect.splits)

lemma levelEffects_no_write: "levelEffects (\<lambda>e. \<not> isObjectWrite e)"
  by (simp add: levelEffects_def recordValidationRun_def Let_def split: option.split)

lemma objectWrites_runLevels:
  assumes "runLevels D VI K clk br creds g = Ret (effs, e2, e3, e4, br')"
  shows "objectWrites effs = [] \<or> fg_e4 g \<and> objectWrites effs = [PatchMetadata AnnotationForceE4]"
  using runLevels_effects [OF levelEffects_no_write assms] objectWrites_none
  by (metis append_self_conv2 objectWrites_simps(1,5,9))

lemma patched_runLevels:
  assumes "runLevels D VI K clk br creds g = Ret (effs, e2, e3, e4, br')"
  shows "patched effs = []"
  using objectWrites_runLevels [OF assms] patched_objectWrites [of effs] by auto

text \<open>The status patch of a reconcile, if there is one.\<close>

lemma Reconcile_patched:
  assumes "Reconcile D VI K clk req seen = Ret (seen', effs, res)"
  obtains (none) "patched effs = []" "\<forall>br. getBackupRepository K req = Inr br \<longrightarrow> (\<exists>err. resolveCredentials D K br = Inl err)"
  | (failure) br err where "getBackupRepository K req = Inr br" "resolveCredentials D K br = Inl err"
      "patched effs = [failureStatus D (now_status clk) br err]"
  | (result) br creds levels e2 e3 e4 br' where "getBackupRepository K req = Inr br"
      "resolveCredentials D K br = Inr creds"
      "runLevels D VI K clk br creds (forceGates br) = Ret (levels, e2, e3, e4, br')"
      "patched effs = [nextStatus D (now_status clk) br' (probeRepository D (Spec br) creds) e2 e3 e4
         (honoredForce (forceGates br)) (honoredForceE4 (forceGates br))]"
  using assms
proof (cases rule: Reconcile_cases)
  case (failed br err)
  then show ?thesis
    by (intro failure [of br err]) (auto simp: recordCredentialsFailure_def Let_def)
next
  case (ran br creds)
  from ran(3) obtain levels e2 e3 e4 br' where
    l: "runLevels D VI K clk br creds (forceGates br) = Ret (levels, e2, e3, e4, br')" and
    "patched effs = patched levels @ [nextStatus D (now_status clk) br' (probeRepository D (Spec br) creds) e2 e3 e4
         (honoredForce (forceGates br)) (honoredForceE4 (forceGates br))]"
    by (cases rule: validateAndPublish_cases) (auto split: sum.splits)
  then show ?thesis
    using ran(1,2) patched_runLevels [OF l] by (intro result) auto
qed (auto intro: none)

lemma failureStatus_unhealthy:
  "conditions_ok D \<Longrightarrow> status_of D (conds (failureStatus D now br err)) ConditionHealthy = Some ConditionFalse"
  unfolding failureStatus_def Let_def
  by (rule unreachable_unhealthy(2)) (auto simp: credentialInputs_def cond_simps)

lemma patched_iff: "b \<in> set (patched effs) \<longleftrightarrow> PatchStatus b \<in> set effs"
proof (induction effs)
  case (Cons e es)
  then show ?case by (cases e) auto
qed simp

lemma published_healthy:
  assumes "conditions_ok D" "Reconcile D VI K clk req seen = Ret (seen', effs, res)"
    and "PatchStatus b \<in> set effs" "status_of D (conds b) ConditionHealthy = Some ConditionTrue"
  shows "\<exists>br creds t. getBackupRepository K req = Inr br \<and> resolveCredentials D K br = Inr creds \<and>
    pr_Reachable (probeRepository D (Spec br) creds) \<and> pr_BucketSecurityValid (probeRepository D (Spec br) creds) \<and>
    LastSuccessfulBackup (probeRepository D (Spec br) creds) = Some t \<and>
    Sub (now_status clk) t \<le> MaxBackupLag (Spec b)"
proof -
  have b: "b \<in> set (patched effs)"
    using assms(3) by (simp add: patched_iff)
  from assms(2) show ?thesis
  proof (cases rule: Reconcile_patched)
    case (failure br err)
    with b assms(4) failureStatus_unhealthy [OF assms(1)] show ?thesis
      by simp
  next
    case (result br creds levels e2 e3 e4 br')
    with b have "b = nextStatus D (now_status clk) br' (probeRepository D (Spec br) creds) e2 e3 e4
           (honoredForce (forceGates br)) (honoredForceE4 (forceGates br))"
      by simp
    from nextStatus_reachable [OF assms(1) this assms(4)] result(1,2) show ?thesis
      by blast
  qed (use b in simp)
qed

text \<open>
  Healthy means healthy. If a reconcile publishes Healthy as True, the credentials were readable, the
  repository was reachable and its bucket secure as the spec demands, and the newest claimed backup was within the
  allowed lag at the time of the probe.
\<close>

theorem healthy_means_healthy:
  assumes "conditions_ok D" "Reconcile D VI K clk req seen = Ret (seen', effs, res)"
    and "PatchStatus b \<in> set effs" "status_of D (conds b) ConditionHealthy = Some ConditionTrue"
  shows "\<exists>br creds t. getBackupRepository K req = Inr br \<and> resolveCredentials D K br = Inr creds \<and>
    pr_Reachable (probeRepository D (Spec br) creds) \<and> pr_BucketSecurityValid (probeRepository D (Spec br) creds) \<and>
    LastSuccessfulBackup (probeRepository D (Spec br) creds) = Some t \<and>
    Sub (now_status clk) t \<le> MaxBackupLag (Spec b)"
  by (rule published_healthy [OF assms])

definition healthy_br :: BackupRepository where
  "healthy_br = sample_br\<lparr>Spec := sample_spec\<lparr>SampledRetrievalInterval := None\<rparr>,
     Status := sample_status
       \<lparr>Conditions := [(condTrue ReasonProbeSucceeded ''validator exit 0'')\<lparr>cType := ConditionMetadataValid\<rparr>],
        VerifiedLastValidationAt := Some sample_now\<rparr>\<rparr>"

lemma applyConditions_healthyI:
  assumes "conditions_ok D" "reachable inp = Some c1" "bucketSecurityValid inp = Some c2" "backupCurrent inp = Some c3"
    "metadataValid inp = Some c4" "\<forall>c \<in> {c1, c2, c3, c4}. cStatus c = ConditionTrue"
    "ExpectedSizeBudget (Spec br) = None" "SampledRetrievalInterval (Spec br) = None" "\<not> e4Meaningful br inp"
  shows "status_of D (conds (applyConditions D br inp)) ConditionHealthy = Some ConditionTrue"
proof -
  have "statuses D (subConditions D br inp) sub_types = {ConditionTrue}"
    using assms by (auto simp: type_list_defs status_of_def subConditions_def cond_simps)
  then have "conjunction (statuses D (conds (applyConditions D br inp)) sub_types) = ConditionTrue"
    using statuses_subConditions [OF assms(1), of sub_types br inp] by (simp add: conjunction_def)
  then show ?thesis
    using applyConditions_rollups(3) [OF assms(1), of inp br] assms(2) by simp
qed

definition healthy_K :: kube where
  "healthy_K = sample_kube_br healthy_br"

lemma healthy_parts:
  "resolveCredentials sample_deps healthy_K healthy_br = Inr sample_creds"
  "(case runLevels sample_deps sample_images healthy_K (frozen sample_now) healthy_br sample_creds (forceGates healthy_br) of
      Ret (effs, e2, e3, e4, br') \<Rightarrow> e2_completedResult e2 = None \<and> \<not> e4_jobActive e4 \<and>
        e3_completedResult e3 = None \<and> e4_completedResult e4 = None | Panic \<Rightarrow> False)"
  "(let p = probeRepository sample_deps (Spec healthy_br) sample_creds in
      pr_Reachable p \<and> pr_BucketSecurityValid p \<and> LastSuccessfulBackup p = Some (sample_now - Hour))"
  "honoredForce (forceGates healthy_br) = None" "honoredForceE4 (forceGates healthy_br) = None"
  "fg_e4 (forceGates healthy_br) = False"
  by code_simp+

lemma healthy_next:
  assumes "e2_completedResult e2 = None" "\<not> e4_jobActive e4" "e3_completedResult e3 = None" "e4_completedResult e4 = None"
    "pr_Reachable p" "pr_BucketSecurityValid p" "LastSuccessfulBackup p = Some (sample_now - Hour)"
  shows "status_of sample_deps (conds (nextStatus sample_deps sample_now healthy_br p e2 e3 e4 None None)) ConditionHealthy =
    Some ConditionTrue"
proof -
  have m: "preservedCondition sample_deps (recordProbe p None None (touch sample_now healthy_br)) ConditionMetadataValid =
      Some ((condTrue ReasonProbeSucceeded ''validator exit 0'')\<lparr>cType := ConditionMetadataValid\<rparr>)"
    by (simp add: preservedCondition_def sample_deps_def healthy_br_def condTrue_def plainCondition_def)
  have v: "VerifiedLastValidationAt (Status healthy_br) = Some sample_now" "Spec healthy_br = sample_spec\<lparr>SampledRetrievalInterval := None\<rparr>"
    "LastFullRetrieval (Status healthy_br) = None" "VerifiedLastSampledRetrievalAt (Status healthy_br) = None"
    by (simp_all add: healthy_br_def sample_status_def)
  have s: "ExpectedSizeBudget sample_spec = None" "FullRetrievalInterval sample_spec = None" "MaxBackupLag sample_spec = 26 * Hour"
    by (simp_all add: sample_spec_def)
  have now: "Sub sample_now (sample_now - Hour) \<le> 26 * Hour"
    by code_simp
  show ?thesis
    unfolding nextStatus_eq Let_def
    by (rule applyConditions_healthyI [OF sample_deps_ok(1) conditionInputs.select_convs(1)
          conditionInputs.select_convs(2) conditionInputs.select_convs(3)])
       (use assms m v s now in \<open>auto simp: recordE2_def recordE3_def recordE4_def recordProbe_def touch_def
          e4Meaningful_def ifReachable_def computeBackupCurrent_def cond_simps Let_def\<close>)
qed

lemma processE4_unforced: "processE4 D VI K clk br False = Ret (effs, out, br') \<Longrightarrow> br' = br"
  by (auto simp: processE4_def Let_def go_simps split: sum.splits prod.splits if_splits) (metis sum.exhaust)+

lemma runLevels_unforced:
  assumes "runLevels D VI K clk br creds g = Ret (effs, e2, e3, e4, br')" "\<not> fg_e4 g"
  shows "br' = br"
  using assms(1) by (cases rule: runLevels_cases) (use assms(2) in \<open>auto split: if_splits dest: processE4_unforced\<close>)

theorem healthy_means_healthy_witness:
  "\<exists>seen' effs res b.
     Reconcile sample_deps sample_images healthy_K (frozen sample_now) sample_req Map.empty = Ret (seen', effs, res) \<and>
     PatchStatus b \<in> set effs \<and> status_of sample_deps (conds b) ConditionHealthy = Some ConditionTrue \<and>
     (\<exists>br creds t. resolveCredentials sample_deps healthy_K br = Inr creds \<and>
        LastSuccessfulBackup (probeRepository sample_deps (Spec br) creds) = Some t \<and>
        Sub (now_status (frozen sample_now)) t \<le> MaxBackupLag (Spec b))"
proof -
  let ?p = "probeRepository sample_deps (Spec healthy_br) sample_creds"
  obtain effs e2 e3 e4 br' where
    l: "runLevels sample_deps sample_images healthy_K (frozen sample_now) healthy_br sample_creds (forceGates healthy_br) =
      Ret (effs, e2, e3, e4, br')"
    and o: "e2_completedResult e2 = None" "\<not> e4_jobActive e4" "e3_completedResult e3 = None" "e4_completedResult e4 = None"
    using healthy_parts(2) by (auto split: go.splits)
  have br': "br' = healthy_br"
    using runLevels_unforced [OF l] healthy_parts(6) by simp
  let ?b = "nextStatus sample_deps sample_now healthy_br ?p e2 e3 e4 None None"
  have healthy: "status_of sample_deps (conds ?b) ConditionHealthy = Some ConditionTrue"
    using healthy_next [OF o] healthy_parts(3) by (simp add: Let_def)
  have K: "getBackupRepository healthy_K sample_req = Inr healthy_br" "patchStatus healthy_K = (\<lambda>b br. Inr br)"
    by (simp_all add: healthy_K_def sample_kube_br_def sample_kube_def)
  have "now_status (frozen sample_now) = sample_now"
    by (simp add: frozen_def)
  then obtain seen' effs' res where
    run: "Reconcile sample_deps sample_images healthy_K (frozen sample_now) sample_req Map.empty = Ret (seen', effs', res)"
    and patch: "PatchStatus ?b \<in> set effs'"
    using l K healthy_parts(1,4,5) br'
    by (auto simp: Reconcile_def validateAndPublish_def applyStatus_def Let_def)
  from healthy_means_healthy [OF sample_deps_ok(1) run patch healthy]
  obtain br creds t where "resolveCredentials sample_deps healthy_K br = Inr creds"
    "LastSuccessfulBackup (probeRepository sample_deps (Spec br) creds) = Some t"
    "Sub (now_status (frozen sample_now)) t \<le> MaxBackupLag (Spec ?b)"
    by blast
  with run patch healthy show ?thesis
    by (intro exI conjI)
qed

text \<open>A recorded time that has not gone back.\<close>

definition no_earlier :: "time option \<Rightarrow> time option \<Rightarrow> bool" where
  "no_earlier new old \<longleftrightarrow> (case old of None \<Rightarrow> True | Some t \<Rightarrow> (case new of None \<Rightarrow> False | Some u \<Rightarrow> t \<le> u))"

lemma levelVerifiedAfter_mono: "levelVerifiedAfter old ts \<Longrightarrow> no_earlier new old \<Longrightarrow> levelVerifiedAfter new ts"
  by (auto simp: levelVerifiedAfter_def no_earlier_def split: option.splits)

lemma forceGates_live:
  assumes "resolveForceRevalidate br = Some ts"
  shows "fg_forceTS (forceGates br) = Some ts"
    "fg_e2 (forceGates br) \<longleftrightarrow> \<not> levelVerifiedAfter (VerifiedLastValidationAt (Status br)) ts"
    "fg_e3 (forceGates br) \<longleftrightarrow> SampledRetrievalInterval (Spec br) \<noteq> None \<and>
       \<not> levelVerifiedAfter (VerifiedLastSampledRetrievalAt (Status br)) ts"
  using assms by (simp_all add: forceGates_def Let_def)

text \<open>One value of the annotation forces no level again once each has a later result.\<close>

lemma forced_once:
  assumes "resolveForceRevalidate br = Some ts" "\<not> fg_e2 (forceGates br)" "\<not> fg_e3 (forceGates br)"
    and "Annotations later = Annotations br"
    and "SampledRetrievalInterval (Spec later) = SampledRetrievalInterval (Spec br)"
    and "no_earlier (VerifiedLastValidationAt (Status later)) (VerifiedLastValidationAt (Status br))"
    and "no_earlier (VerifiedLastSampledRetrievalAt (Status later)) (VerifiedLastSampledRetrievalAt (Status br))"
  shows "\<not> fg_e2 (forceGates later) \<and> \<not> fg_e3 (forceGates later)"
proof (cases "resolveForceRevalidate later")
  case None
  then show ?thesis
    by (simp add: forceGates_def Let_def)
next
  case (Some ts')
  then have "ts' = ts"
    using assms(1,4) by (simp add: revalidate.resolve_Some_iff)
  with Some show ?thesis
    using forceGates_live(2,3) [OF assms(1)] forceGates_live(2,3) [OF Some] assms(2-) levelVerifiedAfter_mono by auto
qed

text \<open>
  C24: the protocol of \<^verbatim>\<open>arete.io/force-revalidate\<close>, across the reread of what a cycle stores. While the annotation is live,
  exactly the levels that have no result after its timestamp are forced. As long as there is one, nothing is
  recorded and the annotation stays live, so no forced level is lost between reconciles. Once there is none, the
  timestamp is recorded, in whole seconds: the annotation is then dead if it denotes a whole second, and otherwise
  live again. In either case it forces no level again unless a recorded time goes back or sampled
  retrieval is switched on.
\<close>

theorem force_revalidate_protocol:
  assumes "resolveForceRevalidate br = Some ts" and "g = forceGates br"
    and "b = nextStatus D now br p e2 e3 e4 (honoredForce g) (honoredForceE4 g)"
    and "stored = b\<lparr>Status := on_wire (Status b)\<rparr>"
  shows "(fg_e2 g \<longleftrightarrow> \<not> levelVerifiedAfter (VerifiedLastValidationAt (Status br)) ts) \<and>
    (fg_e3 g \<longleftrightarrow> SampledRetrievalInterval (Spec br) \<noteq> None \<and>
       \<not> levelVerifiedAfter (VerifiedLastSampledRetrievalAt (Status br)) ts) \<and>
    (if fg_e2 g \<or> fg_e3 g
     then resolveForceRevalidate stored = Some ts
     else LastForceRevalidatedAt (Status stored) = Some (whole_seconds ts) \<and>
       resolveForceRevalidate stored = (if whole_seconds ts = ts then None else Some ts) \<and>
       (\<forall>later. Annotations later = Annotations br \<and>
          SampledRetrievalInterval (Spec later) = SampledRetrievalInterval (Spec br) \<and>
          no_earlier (VerifiedLastValidationAt (Status later)) (VerifiedLastValidationAt (Status br)) \<and>
          no_earlier (VerifiedLastSampledRetrievalAt (Status later)) (VerifiedLastSampledRetrievalAt (Status br)) \<longrightarrow>
          \<not> fg_e2 (forceGates later) \<and> \<not> fg_e3 (forceGates later)))"
proof -
  have ann: "Annotations stored = Annotations br"
    and last: "LastForceRevalidatedAt (Status stored) = map_option whole_seconds
      (if honoredForce g \<noteq> None then honoredForce g else LastForceRevalidatedAt (Status br))"
    by (simp_all add: assms(3,4) nextStatus_eq Let_def on_wire_def) (simp_all add: recordProbe_def touch_def)
  note gates = forceGates_live [OF assms(1), folded assms(2)]
  note live = assms(1) [unfolded revalidate.resolve_Some_iff]
  show ?thesis
  proof (cases "fg_e2 g \<or> fg_e3 g")
    case True
    then have "LastForceRevalidatedAt (Status stored) = map_option whole_seconds (LastForceRevalidatedAt (Status br))"
      using last by (auto simp: honoredForce_def)
    then have "resolveForceRevalidate stored = Some ts"
      using live whole_seconds_le order_le_less_trans
      by (auto simp: revalidate.resolve_Some_iff ann split: option.splits) 
    with True gates show ?thesis
      by simp
  next
    case False
    then have new: "LastForceRevalidatedAt (Status stored) = Some (whole_seconds ts)"
      using last gates(1) by (simp add: honoredForce_def)
    have "resolveForceRevalidate stored = (if whole_seconds ts = ts then None else Some ts)"
    proof (cases "whole_seconds ts = ts")
      case True
      have "resolveForceRevalidate stored \<noteq> Some u" for u
        using live True by (auto simp: revalidate.resolve_Some_iff ann new)
      with True show ?thesis
        by (cases "resolveForceRevalidate stored") auto
    next
      case False
      then have "whole_seconds ts < ts"
        using whole_seconds_le [of ts] by simp
      with False live show ?thesis
        by (simp add: revalidate.resolve_Some_iff ann new)
    qed
    with False gates new show ?thesis
      using forced_once [OF assms(1)] assms(2) by auto
  qed
qed

text \<open>The same second with and without a fraction, on a repository that was validated later.\<close>

definition fraction_br :: BackupRepository where
  "fraction_br = sample_br\<lparr>Annotations := [(AnnotationForceRevalidate, ''2026-06-26T14:35:23.5Z'')],
     Spec := sample_spec\<lparr>SampledRetrievalInterval := None\<rparr>,
     Status := sample_status\<lparr>VerifiedLastValidationAt := Some (Unix 1782484530)\<rparr>\<rparr>"

lemma fraction_br_live:
  "resolveForceRevalidate fraction_br = Some (Unix 1782484523 + 500000000)"
  "\<not> fg_e2 (forceGates fraction_br)" "\<not> fg_e3 (forceGates fraction_br)"
  "whole_seconds (Unix 1782484523 + 500000000) = Unix 1782484523"
  by code_simp+

theorem force_revalidate_protocol_witness:
  "\<exists>stored. LastForceRevalidatedAt (Status stored) = Some (Unix 1782484523) \<and>
     resolveForceRevalidate stored = Some (Unix 1782484523 + 500000000) \<and> fg_e2 (forceGates forced_br)"
proof -
  have "fg_e2 (forceGates forced_br)"
    using force_revalidate_protocol [OF forced_br_live(1) refl refl refl, THEN conjunct1]
    by (simp add: levelVerifiedAfter_def forced_br_def sample_br_def sample_status_def)
  moreover have "Unix 1782484523 \<noteq> Unix 1782484523 + 500000000"
    by simp
  ultimately show ?thesis
    using force_revalidate_protocol [OF fraction_br_live(1) refl refl refl, THEN conjunct2, THEN conjunct2]
    unfolding fraction_br_live(4) using fraction_br_live(2,3) by (simp only: simp_thms if_False) blast
qed

end
