(* ===== verification/Conditional.thy ===== *)
theory Conditional
  imports Reconciler
begin

text \<open>
  The BackupRepositoryConditional controller (\<^verbatim>\<open>backuprepositoryconditional_controller.go\<close>): it reads
  the published state of a BackupRepository, chooses the variant of its spec for that state, reads the
  variant's manifest from a ConfigMap or Secret, and applies it as a child. The first section holds the objects
  and operations of code outside the repository; the decision, the source lookup, the reconcile and the
  watches follow in the order of the code.
\<close>

section \<open>The child object and the client\<close>

text \<open>
  An \<^verbatim>\<open>unstructured.Unstructured\<close> seen through the accessors the code uses; a field that is absent reads as the
  empty string, and \<open>ob_Content\<close> stands for everything else in the document.
\<close>

record Unstructured =
  ob_APIVersion :: string
  ob_Kind :: string
  ob_Namespace :: string
  ob_Name :: string
  ob_Owner :: "string option"
  ob_Content :: string

text \<open>
  The operations of the API server, of \<^verbatim>\<open>sigs.k8s.io/yaml\<close> and of \<^verbatim>\<open>controllerutil\<close> that only this controller calls.
  The namespace of a list is \<^term>\<open>None\<close> when the call does not restrict it.
\<close>

record conditional_client =
  getConditional :: "NamespacedName \<Rightarrow> api_error + BackupRepositoryConditional"
  listConditionals :: "string option \<Rightarrow> api_error + BackupRepositoryConditional list"
  getConfigMap :: "NamespacedName \<Rightarrow> api_error + gomap"
  UnmarshalYAML :: "string \<Rightarrow> string + Unstructured"
  SetControllerReference :: "BackupRepositoryConditional \<Rightarrow> Unstructured \<Rightarrow> string + Unstructured"
  applyObject :: "Unstructured \<Rightarrow> string \<Rightarrow> bool \<Rightarrow> api_error + Unstructured"
  patchConditional :: "BackupRepositoryConditional \<Rightarrow> BackupRepositoryConditional \<Rightarrow> api_error option"

datatype conditional_effect =
    ApplyChild Unstructured string bool
  | PatchConditional BackupRepositoryConditional

definition transientObservabilityRequeue :: duration where
  "transientObservabilityRequeue = 30 * Second"

definition brConditionalFieldManager :: string where
  "brConditionalFieldManager = ''arete-backup-repository-conditional''"

section \<open>State of the repository and choice of the variant\<close>

datatype brState = brStateHealthy | brStateEmpty | brStateDegraded

fun state_string :: "brState \<Rightarrow> string" where
  "state_string brStateHealthy = ''healthy''"
| "state_string brStateEmpty = ''empty''"
| "state_string brStateDegraded = ''degraded''"

definition deriveBRState :: "deps \<Rightarrow> BackupRepository \<Rightarrow> brState" where
  "deriveBRState D br =
     (let noBackup = ClaimedLastSuccessfulBackup (Status br) = None;
          noObjects = (case ObservedInventory (Status br) of None \<Rightarrow> False | Some i \<Rightarrow> ObjectCount i = 0)
      in if noBackup \<and> noObjects then brStateEmpty
         else (case FindStatusCondition D (Conditions (Status br)) ConditionHealthy of
                 Some healthy \<Rightarrow> if cStatus healthy = ConditionTrue then brStateHealthy else brStateDegraded
               | None \<Rightarrow> brStateDegraded))"

definition isHealthyUnknown :: "deps \<Rightarrow> BackupRepository \<Rightarrow> bool" where
  "isHealthyUnknown D br =
     (case FindStatusCondition D (Conditions (Status br)) ConditionHealthy of
        None \<Rightarrow> False | Some c \<Rightarrow> cStatus c = ConditionUnknown)"

fun pickVariant :: "BackupRepositoryConditionalSpec \<Rightarrow> brState \<Rightarrow> VariantSpec option \<times> string" where
  "pickVariant spec brStateHealthy = (WhenHealthy spec, ''whenHealthy'')"
| "pickVariant spec brStateEmpty = (WhenEmpty spec, ''whenEmpty'')"
| "pickVariant spec brStateDegraded = (WhenDegraded spec, ''whenDegraded'')"

section \<open>The manifest source\<close>

text \<open>The bytes are absent exactly if the code returns an error; the caller never looks at the error itself.\<close>

definition sourceCondition :: "ConditionStatus \<Rightarrow> string \<Rightarrow> string \<Rightarrow> Condition" where
  "sourceCondition st reason msg =
     \<lparr>cType = BRConditionalManifestSourceFound, cStatus = st, cObservedGeneration = 0,
      cLastTransitionTime = zero_time, cReason = reason, cMessage = msg\<rparr>"

definition sourceMissing :: "string \<Rightarrow> string option \<times> Condition" where
  "sourceMissing msg = (None, sourceCondition ConditionFalse BRConditionalReasonManifestSourceMiss msg)"

definition lookupSource ::
  "deps \<Rightarrow> string \<Rightarrow> (NamespacedName \<Rightarrow> api_error + gomap) \<Rightarrow> string \<Rightarrow> KeyedReference \<Rightarrow>
   string option \<times> Condition" where
  "lookupSource D kind get namespace ref =
     (let key = \<lparr>nn_Namespace = namespace, nn_Name = kr_Name ref\<rparr> in
      case get key of
        Inl err \<Rightarrow> sourceMissing (kind @ '' '' @ KeyString D key @ '': '' @ api_text err)
      | Inr content \<Rightarrow>
          (case map_of content (kr_Key ref) of
             None \<Rightarrow> sourceMissing (kind @ '' '' @ KeyString D key @ '' has no key '' @ Quote D (kr_Key ref))
           | Some raw \<Rightarrow>
               (Some raw,
                sourceCondition ConditionTrue BRConditionalReasonOK
                  (kind @ '' '' @ KeyString D key @ '' key '' @ Quote D (kr_Key ref) @ '' ('' @
                   itoa (int (length raw)) @ '' bytes)''))))"

definition readManifestSource ::
  "deps \<Rightarrow> kube \<Rightarrow> conditional_client \<Rightarrow> string \<Rightarrow> ManifestRef \<Rightarrow> string option \<times> Condition" where
  "readManifestSource D K C namespace ref =
     (case (ConfigMap ref, Secret ref) of
        (Some cm, Some sec) \<Rightarrow> sourceMissing ''manifestRef must set exactly one of configMap or secret, not both''
      | (Some cm, None) \<Rightarrow> lookupSource D ''ConfigMap'' (getConfigMap C) namespace cm
      | (None, Some sec) \<Rightarrow> lookupSource D ''Secret'' (getSecret K) namespace sec
      | (None, None) \<Rightarrow> sourceMissing ''manifestRef must set one of configMap or secret'')"

text \<open>
  \<^verbatim>\<open>strings.ToLower\<close> as far as it can produce ASCII letters: the ASCII capitals, and the one other code point whose
  lower case is a letter of the word searched for (U+0130, two bytes in UTF-8, becomes \<^verbatim>\<open>i\<close>).
\<close>

fun lowered :: "string \<Rightarrow> string" where
  "lowered [] = []"
| "lowered (c # s) =
     (if HasPrefix (c # s) [CHR 0xC4, CHR 0xB0] then CHR ''i'' # lowered (tl s)
      else if 65 \<le> (of_char c :: nat) \<and> (of_char c :: nat) \<le> 90
      then char_of (of_char c + 32 :: nat) # lowered s
      else c # lowered s)"

definition isImmutableFieldError :: "api_error option \<Rightarrow> bool" where
  "isImmutableFieldError err =
     (case err of None \<Rightarrow> False | Some e \<Rightarrow> Contains (lowered (api_text e)) ''immutable'')"

section \<open>Reconcile\<close>

definition setBRConditionalCondition ::
  "deps \<Rightarrow> string \<Rightarrow> ConditionStatus \<Rightarrow> string \<Rightarrow> string \<Rightarrow>
   BackupRepositoryConditional \<Rightarrow> BackupRepositoryConditional" where
  "setBRConditionalCondition D condType st reason message brc =
     brc\<lparr>brc_Status := (brc_Status brc)
       \<lparr>brc_Conditions := SetStatusCondition D (brc_Conditions (brc_Status brc))
          \<lparr>cType = condType, cStatus = st, cObservedGeneration = 0, cLastTransitionTime = zero_time,
           cReason = reason, cMessage = message\<rparr>\<rparr>\<rparr>"

text \<open>The last statement of every path: the status patch against the object as it was read.\<close>

type_synonym conditional_result = "conditional_effect list \<times> outcome"

definition finish ::
  "conditional_client \<Rightarrow> BackupRepositoryConditional \<Rightarrow> conditional_effect list \<Rightarrow> duration \<Rightarrow>
   BackupRepositoryConditional \<Rightarrow> conditional_result" where
  "finish C base effs requeue brc = (effs @ [PatchConditional brc], requeue, patchConditional C base brc)"

text \<open>A step that fails: its own condition and Decided turn False for the same reason.\<close>

definition refuse ::
  "deps \<Rightarrow> string \<Rightarrow> string \<Rightarrow> string \<Rightarrow> string \<Rightarrow> BackupRepositoryConditional \<Rightarrow> BackupRepositoryConditional" where
  "refuse D condType reason message decidedMessage brc =
     setBRConditionalCondition D BRConditionalDecided ConditionFalse reason decidedMessage
       (setBRConditionalCondition D condType ConditionFalse reason message brc)"

definition describe :: "deps \<Rightarrow> Unstructured \<Rightarrow> string" where
  "describe D obj = ob_APIVersion obj @ ''/'' @ ob_Kind obj @ '' '' @ Quote D (ob_Name obj)"

definition recordDecision ::
  "deps \<Rightarrow> time \<Rightarrow> string \<Rightarrow> brState \<Rightarrow> Unstructured \<Rightarrow> BackupRepositoryConditional \<Rightarrow> BackupRepositoryConditional" where
  "recordDecision D now slot st obj brc =
     (let brc = brc\<lparr>brc_Status := (brc_Status brc)
            \<lparr>Decided := slot, DecidedAt := Some now,
             AppliedRef := Some \<lparr>ar_APIVersion = ob_APIVersion obj, ar_Kind = ob_Kind obj,
               ar_Namespace = ob_Namespace obj, ar_Name = ob_Name obj\<rparr>\<rparr>\<rparr>;
          brc = setBRConditionalCondition D BRConditionalChildApplied ConditionTrue BRConditionalReasonOK
            (''applied '' @ describe D obj) brc
      in setBRConditionalCondition D BRConditionalDecided ConditionTrue BRConditionalReasonOK
           (''variant '' @ Quote D slot @ '' applied for state '' @ Quote D (state_string st)) brc)"

text \<open>
  Steps 5 to 8: namespace, owner, server-side apply, which overwrites the child with the server's answer, and the
  record of the decision.
\<close>

definition applyManifest ::
  "deps \<Rightarrow> conditional_client \<Rightarrow> time \<Rightarrow> BackupRepositoryConditional \<Rightarrow> BackupRepositoryConditional \<Rightarrow>
   string \<Rightarrow> brState \<Rightarrow> Unstructured \<Rightarrow> conditional_result" where
  "applyManifest D C now base brc slot st obj =
     (let obj = (if ob_Namespace obj = [] then obj\<lparr>ob_Namespace := brc_Namespace brc\<rparr> else obj) in
      case SetControllerReference C brc obj of
        Inl err \<Rightarrow>
          finish C base [] 0
            (refuse D BRConditionalChildApplied BRConditionalReasonApplyFailed (''set owner ref: '' @ err) err brc)
      | Inr obj \<Rightarrow>
          let child = ApplyChild obj brConditionalFieldManager True in
          (case applyObject C obj brConditionalFieldManager True of
             Inl err \<Rightarrow>
               let reason = (if isImmutableFieldError (Some err) then BRConditionalReasonImmutableConflict
                             else BRConditionalReasonApplyFailed)
               in finish C base [child] 0
                    (refuse D BRConditionalChildApplied reason (api_text err) (api_text err) brc)
           | Inr obj \<Rightarrow> finish C base [child] 0 (recordDecision D now slot st obj brc)))"

text \<open>Steps 3 and 4: read the manifest and parse it.\<close>

definition materialize ::
  "deps \<Rightarrow> kube \<Rightarrow> conditional_client \<Rightarrow> time \<Rightarrow> BackupRepositoryConditional \<Rightarrow> BackupRepositoryConditional \<Rightarrow>
   VariantSpec \<Rightarrow> string \<Rightarrow> brState \<Rightarrow> conditional_result" where
  "materialize D K C now base brc variant slot st =
     (let (rawYAML, sourceCond) = readManifestSource D K C (brc_Namespace brc) (vs_ManifestRef variant);
          brc = setBRConditionalCondition D (cType sourceCond) (cStatus sourceCond) (cReason sourceCond)
            (cMessage sourceCond) brc
      in case rawYAML of
           None \<Rightarrow>
             finish C base [] 0
               (setBRConditionalCondition D BRConditionalDecided ConditionFalse (cReason sourceCond)
                 (cMessage sourceCond) brc)
         | Some raw \<Rightarrow>
             (case UnmarshalYAML C raw of
                Inl err \<Rightarrow>
                  finish C base [] 0
                    (refuse D BRConditionalManifestParsed BRConditionalReasonManifestParseFailed err err brc)
              | Inr obj \<Rightarrow>
                  if ob_Kind obj = [] \<or> ob_APIVersion obj = [] \<or> ob_Name obj = []
                  then let msg = ''manifest missing apiVersion/kind/metadata.name'' in
                       finish C base [] 0
                         (refuse D BRConditionalManifestParsed BRConditionalReasonManifestParseFailed msg msg brc)
                  else applyManifest D C now base
                         (setBRConditionalCondition D BRConditionalManifestParsed ConditionTrue
                           BRConditionalReasonOK (describe D obj) brc) slot st obj))"

text \<open>Step 2, for a repository that was found.\<close>

definition decide ::
  "deps \<Rightarrow> kube \<Rightarrow> conditional_client \<Rightarrow> time \<Rightarrow> BackupRepositoryConditional \<Rightarrow> BackupRepositoryConditional \<Rightarrow>
   BackupRepository \<Rightarrow> conditional_result" where
  "decide D K C now base brc br =
     (let st = deriveBRState D br;
          brc = brc\<lparr>brc_Status := (brc_Status brc)\<lparr>ObservedRepositoryState := state_string st\<rparr>\<rparr>
      in if st = brStateDegraded \<and> isHealthyUnknown D br \<and> Decided (brc_Status brc) \<noteq> []
         then finish C base [] transientObservabilityRequeue
                (setBRConditionalCondition D BRConditionalDecided ConditionTrue BRConditionalReasonOK
                  (''preserving prior decision '' @ Quote D (Decided (brc_Status brc)) @
                   '' through transient BR observability gap'') brc)
         else let (variant, slot) = pickVariant (brc_Spec brc) st in
              case variant of
                None \<Rightarrow>
                  finish C base [] 0
                    (setBRConditionalCondition D BRConditionalDecided ConditionFalse
                      BRConditionalReasonNoVariantForState
                      (''no variant defined for state '' @ Quote D (state_string st)) brc)
              | Some v \<Rightarrow> materialize D K C now base brc v slot st)"

definition ReconcileConditional ::
  "deps \<Rightarrow> kube \<Rightarrow> conditional_client \<Rightarrow> time \<Rightarrow> NamespacedName \<Rightarrow> conditional_result" where
  "ReconcileConditional D K C now req =
     (case getConditional C req of
        Inl e \<Rightarrow> ([], 0, if IsNotFound e then None else Some e)
      | Inr base \<Rightarrow>
          let brc = base\<lparr>brc_Status := (brc_Status base)\<lparr>brc_ObservedGeneration := brc_Generation base\<rparr>\<rparr>;
              brKey = \<lparr>nn_Namespace = [], nn_Name = RepositoryRef (brc_Spec brc)\<rparr>
          in (case getBackupRepository K brKey of
                Inl e \<Rightarrow>
                  if IsNotFound e
                  then finish C base [] 0
                         (refuse D BRConditionalBackupRepositoryFound BRConditionalReasonRepositoryNotFound
                           (''BackupRepository '' @ Quote D (nn_Name brKey) @ '' not found'')
                           ''cannot decide without a referenced BackupRepository'' brc)
                  else ([], 0, Some e)
              | Inr br \<Rightarrow>
                  decide D K C now base
                    (setBRConditionalCondition D BRConditionalBackupRepositoryFound ConditionTrue
                      BRConditionalReasonOK (''resolved '' @ Quote D (br_Name br)) brc) br))"

section \<open>Watches\<close>

definition ConditionalKey :: "BackupRepositoryConditional \<Rightarrow> NamespacedName" where
  "ConditionalKey brc = \<lparr>nn_Namespace = brc_Namespace brc, nn_Name = brc_Name brc\<rparr>"

definition mapBRToConditionals :: "conditional_client \<Rightarrow> watched \<Rightarrow> NamespacedName list" where
  "mapBRToConditionals C obj =
     (case obj of
        WatchedRepository br \<Rightarrow>
          (case listConditionals C None of
             Inl e \<Rightarrow> []
           | Inr items \<Rightarrow> map ConditionalKey (filter (\<lambda>brc. RepositoryRef (brc_Spec brc) = br_Name br) items))
      | _ \<Rightarrow> [])"

definition matchesAnyVariantManifestRef :: "BackupRepositoryConditional \<Rightarrow> string \<Rightarrow> bool \<Rightarrow> bool" where
  "matchesAnyVariantManifestRef brc name isCM =
     list_ex (\<lambda>v. case v of
          None \<Rightarrow> False
        | Some v \<Rightarrow>
            isCM \<and> (case ConfigMap (vs_ManifestRef v) of None \<Rightarrow> False | Some r \<Rightarrow> kr_Name r = name) \<or>
            \<not> isCM \<and> (case Secret (vs_ManifestRef v) of None \<Rightarrow> False | Some r \<Rightarrow> kr_Name r = name))
       [WhenHealthy (brc_Spec brc), WhenEmpty (brc_Spec brc), WhenDegraded (brc_Spec brc)]"

definition conditionalsUsing :: "conditional_client \<Rightarrow> NamespacedName \<Rightarrow> bool \<Rightarrow> NamespacedName list" where
  "conditionalsUsing C n isCM =
     (case listConditionals C (Some (nn_Namespace n)) of
        Inl e \<Rightarrow> []
      | Inr items \<Rightarrow> map ConditionalKey (filter (\<lambda>brc. matchesAnyVariantManifestRef brc (nn_Name n) isCM) items))"

definition mapManifestSourceToConditionals :: "conditional_client \<Rightarrow> watched \<Rightarrow> NamespacedName list" where
  "mapManifestSourceToConditionals C obj =
     (case obj of
        WatchedConfigMap n \<Rightarrow> conditionalsUsing C n True
      | WatchedSecret n \<Rightarrow> conditionalsUsing C n False
      | _ \<Rightarrow> [])"

text \<open>What \<^verbatim>\<open>List\<close> returns: every object, or those of one namespace.\<close>

definition lists :: "conditional_client \<Rightarrow> BackupRepositoryConditional list \<Rightarrow> bool" where
  "lists C items \<longleftrightarrow>
     listConditionals C None = Inr items \<and>
     (\<forall>ns. listConditionals C (Some ns) = Inr (filter (\<lambda>brc. brc_Namespace brc = ns) items))"

section \<open>The decision as a table\<close>

text \<open>
  What the controller promises, without conditions, messages and requests: it keeps the prior decision, refuses for a
  reason (after having tried a child, if the API server rejected it), or commits to a slot and a child.
\<close>

datatype decision =
    Keep
  | Refuse (tried: "Unstructured option") (because: string)
  | Commit (slot: string) (child: Unstructured) (admitted: Unstructured)

definition decidable :: "BackupRepositoryConditional \<Rightarrow> deps \<Rightarrow> BackupRepository \<Rightarrow> bool" where
  "decidable brc D br \<longleftrightarrow>
     Decided (brc_Status brc) = [] \<or> deriveBRState D br \<noteq> brStateDegraded \<or> \<not> isHealthyUnknown D br"

definition variantFor :: "BackupRepositoryConditional \<Rightarrow> brState \<Rightarrow> VariantSpec option" where
  "variantFor brc st =
     (case st of brStateHealthy \<Rightarrow> WhenHealthy (brc_Spec brc) | brStateEmpty \<Rightarrow> WhenEmpty (brc_Spec brc)
      | brStateDegraded \<Rightarrow> WhenDegraded (brc_Spec brc))"

definition slotFor :: "brState \<Rightarrow> string" where
  "slotFor st =
     (case st of brStateHealthy \<Rightarrow> ''whenHealthy'' | brStateEmpty \<Rightarrow> ''whenEmpty'' | brStateDegraded \<Rightarrow> ''whenDegraded'')"

definition manifest :: "kube \<Rightarrow> conditional_client \<Rightarrow> string \<Rightarrow> ManifestRef \<Rightarrow> string option" where
  "manifest K C ns ref =
     (case (ConfigMap ref, Secret ref) of
        (Some r, None) \<Rightarrow>
          (case getConfigMap C \<lparr>nn_Namespace = ns, nn_Name = kr_Name r\<rparr> of Inl e \<Rightarrow> None | Inr m \<Rightarrow> map_of m (kr_Key r))
      | (None, Some r) \<Rightarrow>
          (case getSecret K \<lparr>nn_Namespace = ns, nn_Name = kr_Name r\<rparr> of Inl e \<Rightarrow> None | Inr m \<Rightarrow> map_of m (kr_Key r))
      | _ \<Rightarrow> None)"

definition parsed :: "conditional_client \<Rightarrow> string \<Rightarrow> Unstructured option" where
  "parsed C raw =
     (case UnmarshalYAML C raw of
        Inl e \<Rightarrow> None
      | Inr obj \<Rightarrow> if [] \<in> {ob_Kind obj, ob_APIVersion obj, ob_Name obj} then None else Some obj)"

definition placed :: "string \<Rightarrow> Unstructured \<Rightarrow> Unstructured" where
  "placed ns obj = (if ob_Namespace obj = [] then obj\<lparr>ob_Namespace := ns\<rparr> else obj)"

definition verdict :: "conditional_client \<Rightarrow> brState \<Rightarrow> Unstructured \<Rightarrow> decision" where
  "verdict C st obj =
     (case applyObject C obj brConditionalFieldManager True of
        Inr stored \<Rightarrow> Commit (slotFor st) obj stored
      | Inl e \<Rightarrow>
          Refuse (Some obj)
            (if isImmutableFieldError (Some e) then BRConditionalReasonImmutableConflict
             else BRConditionalReasonApplyFailed))"

text \<open>
  \<^verbatim>\<open>SetControllerReference\<close> writes the identity of the owner into the child: the owner's status, which the reconcile has
  already changed when it makes the call, does not matter.
\<close>

definition owner_identity :: "conditional_client \<Rightarrow> bool" where
  "owner_identity C \<longleftrightarrow>
     (\<forall>a b obj. ConditionalKey a = ConditionalKey b \<longrightarrow> SetControllerReference C a obj = SetControllerReference C b obj)"

lemma owner_identity_config [simp]: "owner_identity (C\<lparr>getConfigMap := g\<rparr>) \<longleftrightarrow> owner_identity C"
  by (simp add: owner_identity_def)

definition decision :: "deps \<Rightarrow> kube \<Rightarrow> conditional_client \<Rightarrow> BackupRepositoryConditional \<Rightarrow> BackupRepository \<Rightarrow> decision" where
  "decision D K C brc br =
     (let st = deriveBRState D br in
      if \<not> decidable brc D br then Keep
      else case variantFor brc st of
        None \<Rightarrow> Refuse None BRConditionalReasonNoVariantForState
      | Some v \<Rightarrow>
          (case manifest K C (brc_Namespace brc) (vs_ManifestRef v) of
             None \<Rightarrow> Refuse None BRConditionalReasonManifestSourceMiss
           | Some raw \<Rightarrow>
               (case parsed C raw of
                  None \<Rightarrow> Refuse None BRConditionalReasonManifestParseFailed
                | Some obj \<Rightarrow>
                    (case SetControllerReference C brc (placed (brc_Namespace brc) obj) of
                       Inl e \<Rightarrow> Refuse None BRConditionalReasonApplyFailed
                     | Inr obj \<Rightarrow> verdict C st obj))))"

text \<open>The recorded decision, and how a published object shows a decision.\<close>

definition prior :: "BackupRepositoryConditional \<Rightarrow> string \<times> time option \<times> AppliedResourceRef option" where
  "prior brc = (Decided (brc_Status brc), DecidedAt (brc_Status brc), AppliedRef (brc_Status brc))"

definition refOf :: "Unstructured \<Rightarrow> AppliedResourceRef" where
  "refOf obj = \<lparr>ar_APIVersion = ob_APIVersion obj, ar_Kind = ob_Kind obj, ar_Namespace = ob_Namespace obj,
     ar_Name = ob_Name obj\<rparr>"

definition verdictCond :: "deps \<Rightarrow> BackupRepositoryConditional \<Rightarrow> (ConditionStatus \<times> string) option" where
  "verdictCond D brc =
     map_option (\<lambda>(s, r, m). (s, r)) (view D (brc_Conditions (brc_Status brc)) BRConditionalDecided)"

definition applies :: "Unstructured option \<Rightarrow> conditional_effect list" where
  "applies ob = (case ob of None \<Rightarrow> [] | Some obj \<Rightarrow> [ApplyChild obj brConditionalFieldManager True])"

fun implements ::
  "deps \<Rightarrow> time \<Rightarrow> BackupRepositoryConditional \<Rightarrow> decision \<Rightarrow> conditional_effect list \<Rightarrow> duration \<Rightarrow>
   BackupRepositoryConditional \<Rightarrow> bool" where
  "implements D now base Keep effs requeue b \<longleftrightarrow>
     effs = [PatchConditional b] \<and> requeue = 30 * Second \<and> prior b = prior base \<and>
     verdictCond D b = Some (ConditionTrue, BRConditionalReasonOK)"
| "implements D now base (Refuse t reason) effs requeue b \<longleftrightarrow>
     effs = applies t @ [PatchConditional b] \<and> requeue = 0 \<and> prior b = prior base \<and>
     verdictCond D b = Some (ConditionFalse, reason)"
| "implements D now base (Commit sl obj stored) effs requeue b \<longleftrightarrow>
     effs = applies (Some obj) @ [PatchConditional b] \<and> requeue = 0 \<and> prior b = (sl, Some now, Some (refOf stored)) \<and>
     verdictCond D b = Some (ConditionTrue, BRConditionalReasonOK)"

section \<open>The reconcile implements the table\<close>

lemma setBR_frame [simp]:
  "prior (setBRConditionalCondition D t st r m b) = prior b"
  "ConditionalKey (setBRConditionalCondition D t st r m b) = ConditionalKey b"
  "brc_Namespace (setBRConditionalCondition D t st r m b) = brc_Namespace b"
  "brc_Spec (setBRConditionalCondition D t st r m b) = brc_Spec b"
  "Decided (brc_Status (setBRConditionalCondition D t st r m b)) = Decided (brc_Status b)"
  by (simp_all add: setBRConditionalCondition_def prior_def ConditionalKey_def)

lemma view_setBR [cond_simps]:
  "conditions_ok D \<Longrightarrow>
     view D (brc_Conditions (brc_Status (setBRConditionalCondition D t st r m b))) =
       (view D (brc_Conditions (brc_Status b)))(t \<mapsto> (st, r, m))"
  by (simp add: setBRConditionalCondition_def conditions_ok_def core_def)

lemma verdictCond_set [simp]:
  "conditions_ok D \<Longrightarrow> verdictCond D (setBRConditionalCondition D BRConditionalDecided st r m b) = Some (st, r)"
  by (simp add: verdictCond_def cond_simps)

lemma refuse_simps [simp]:
  "prior (refuse D t r m dm b) = prior b"
  "conditions_ok D \<Longrightarrow> verdictCond D (refuse D t r m dm b) = Some (ConditionFalse, r)"
  by (simp_all add: refuse_def)

lemma recordDecision_simps [simp]:
  "prior (recordDecision D now sl st obj b) = (sl, Some now, Some (refOf obj))"
  "conditions_ok D \<Longrightarrow> verdictCond D (recordDecision D now sl st obj b) = Some (ConditionTrue, BRConditionalReasonOK)"
  by (simp_all add: recordDecision_def Let_def) (simp add: prior_def refOf_def)

lemma readManifestSource_manifest:
  "fst (readManifestSource D K C ns ref) = manifest K C ns ref"
  "manifest K C ns ref = None \<Longrightarrow>
     cReason (snd (readManifestSource D K C ns ref)) = BRConditionalReasonManifestSourceMiss"
  "cType (snd (readManifestSource D K C ns ref)) = BRConditionalManifestSourceFound"
  by (auto simp: readManifestSource_def manifest_def lookupSource_def sourceMissing_def sourceCondition_def Let_def
      split: option.splits sum.splits)

lemma pickVariant_table: "pickVariant (brc_Spec brc) st = (variantFor brc st, slotFor st)"
  by (cases st) (simp_all add: variantFor_def slotFor_def)

text \<open>A result that patches the status with an object that shows the decision.\<close>

definition realizes ::
  "deps \<Rightarrow> conditional_client \<Rightarrow> time \<Rightarrow> BackupRepositoryConditional \<Rightarrow> decision \<Rightarrow> conditional_result \<Rightarrow> bool" where
  "realizes D C now base d res \<longleftrightarrow>
     (\<exists>effs requeue b. res = (effs, requeue, patchConditional C base b) \<and> implements D now base d effs requeue b)"

lemma realizes_finish [simp]:
  "realizes D C now base d (finish C base effs requeue b) \<longleftrightarrow>
     implements D now base d (effs @ [PatchConditional b]) requeue b"
proof -
  have "b' = b" if "implements D now base d (effs @ [PatchConditional b]) requeue b'" for b'
    using that by (cases d) (auto simp: applies_def split: option.splits)
  then show ?thesis
    by (auto simp: realizes_def finish_def)
qed

fun attempted :: "decision \<Rightarrow> Unstructured option" where
  "attempted Keep = None"
| "attempted (Refuse t reason) = t"
| "attempted (Commit sl obj stored) = Some obj"

lemma realizes_effects:
  "realizes D C now base d res \<Longrightarrow> \<exists>b. fst res = applies (attempted d) @ [PatchConditional b]"
  by (cases d) (auto simp: realizes_def applies_def)

lemma applyManifest_realizes:
  assumes "conditions_ok D" "prior brc = prior base"
  shows "realizes D C now base
    (case SetControllerReference C brc (placed (brc_Namespace brc) obj) of
       Inl e \<Rightarrow> Refuse None BRConditionalReasonApplyFailed | Inr o2 \<Rightarrow> verdict C st o2)
    (applyManifest D C now base brc (slotFor st) st obj)"
  using assms
  by (auto simp: applyManifest_def placed_def verdict_def applies_def Let_def split: sum.splits option.splits)

lemma parsed_eq:
  "parsed C raw = Some obj \<longleftrightarrow>
     UnmarshalYAML C raw = Inr obj \<and> \<not> (ob_Kind obj = [] \<or> ob_APIVersion obj = [] \<or> ob_Name obj = [])"
  "parsed C raw = None \<longleftrightarrow>
     (case UnmarshalYAML C raw of Inl e \<Rightarrow> True
      | Inr obj \<Rightarrow> ob_Kind obj = [] \<or> ob_APIVersion obj = [] \<or> ob_Name obj = [])"
  by (auto simp: parsed_def split: sum.splits if_splits)

lemma materialize_realizes:
  assumes "conditions_ok D" "owner_identity C" "prior brc = prior base" "ConditionalKey brc = ConditionalKey base"
  shows "realizes D C now base
    (case manifest K C (brc_Namespace base) (vs_ManifestRef v) of
       None \<Rightarrow> Refuse None BRConditionalReasonManifestSourceMiss
     | Some raw \<Rightarrow>
         (case parsed C raw of
            None \<Rightarrow> Refuse None BRConditionalReasonManifestParseFailed
          | Some obj \<Rightarrow>
              (case SetControllerReference C base (placed (brc_Namespace base) obj) of
                 Inl e \<Rightarrow> Refuse None BRConditionalReasonApplyFailed | Inr o2 \<Rightarrow> verdict C st o2)))
    (materialize D K C now base brc v (slotFor st) st)"
proof -
  have ns: "brc_Namespace brc = brc_Namespace base"
    using assms(4) by (simp add: ConditionalKey_def)
  obtain r cond where src: "readManifestSource D K C (brc_Namespace base) (vs_ManifestRef v) = (r, cond)"
    by fastforce
  note m = readManifestSource_manifest [where D = D and K = K and C = C and ns = "brc_Namespace base" and ref = "vs_ManifestRef v",
      unfolded src]
  show ?thesis
  proof (cases "manifest K C (brc_Namespace base) (vs_ManifestRef v)")
    case None
    with m src ns assms(1,3) show ?thesis
      by (simp add: materialize_def applies_def)
  next
    case (Some raw)
    then have r: "r = Some raw"
      using m by simp
    let ?b = "setBRConditionalCondition D (cType cond) (cStatus cond) (cReason cond) (cMessage cond) brc"
    show ?thesis
    proof (cases "parsed C raw")
      case None
      have "\<exists>msg. materialize D K C now base brc v (slotFor st) st = finish C base [] 0
        (refuse D BRConditionalManifestParsed BRConditionalReasonManifestParseFailed msg msg ?b)"
        using None [unfolded parsed_eq] r src ns by (auto simp: materialize_def Let_def split: sum.splits)
      with None Some assms(1,3) show ?thesis
        by (auto simp: applies_def)
    next
      case p: (Some obj)
      let ?b' = "setBRConditionalCondition D BRConditionalManifestParsed ConditionTrue BRConditionalReasonOK
        (describe D obj) ?b"
      have same: "SetControllerReference C ?b' = SetControllerReference C base"
        using assms(2,4) unfolding owner_identity_def by (metis setBR_frame(2) ext)
      have "materialize D K C now base brc v (slotFor st) st = applyManifest D C now base ?b' (slotFor st) st obj"
        using r src ns p by (simp add: materialize_def parsed_eq)
      then show ?thesis
        using applyManifest_realizes [where D = D and brc = ?b' and base = base and C = C and obj = obj and st = st and now = now] assms(1,3) Some p ns same by simp
    qed
  qed
qed

lemma decide_realizes:
  assumes "conditions_ok D" "owner_identity C" "prior brc = prior base" "ConditionalKey brc = ConditionalKey base"
    and "brc_Spec brc = brc_Spec base"
  shows "realizes D C now base (decision D K C base br) (decide D K C now base brc br)"
proof -
  define brc' where "brc' = brc\<lparr>brc_Status := (brc_Status brc)\<lparr>ObservedRepositoryState := state_string (deriveBRState D br)\<rparr>\<rparr>"
  have brc': "prior brc' = prior base" "ConditionalKey brc' = ConditionalKey base" "brc_Spec brc' = brc_Spec base"
    "Decided (brc_Status brc') = Decided (brc_Status base)"
    using assms(3-5) by (simp_all add: brc'_def prior_def ConditionalKey_def)
  have pick: "pickVariant (brc_Spec base) (deriveBRState D br) = (variantFor base (deriveBRState D br), slotFor (deriveBRState D br))"
    by (rule pickVariant_table)
  show ?thesis
  proof (cases "decidable base D br")
    case False
    then have d: "decide D K C now base brc br = finish C base [] transientObservabilityRequeue
      (setBRConditionalCondition D BRConditionalDecided ConditionTrue BRConditionalReasonOK
        (''preserving prior decision '' @ Quote D (Decided (brc_Status brc')) @
         '' through transient BR observability gap'') brc')"
      using brc'(4) unfolding decide_def Let_def brc'_def [symmetric] by (simp add: decidable_def)
    show ?thesis
      using False brc'(1) assms(1) unfolding d by (simp add: decision_def transientObservabilityRequeue_def)
  next
    case True
    then have d: "decide D K C now base brc br =
      (case variantFor base (deriveBRState D br) of
         None \<Rightarrow> finish C base [] 0 (setBRConditionalCondition D BRConditionalDecided ConditionFalse
           BRConditionalReasonNoVariantForState (''no variant defined for state '' @ Quote D (state_string (deriveBRState D br))) brc')
       | Some v \<Rightarrow> materialize D K C now base brc' v (slotFor (deriveBRState D br)) (deriveBRState D br))"
      using brc'(3,4) unfolding decide_def Let_def brc'_def [symmetric] by (auto simp: pick decidable_def)
    show ?thesis
    proof (cases "variantFor base (deriveBRState D br)")
      case None
      then show ?thesis
        using True brc'(1) assms(1) unfolding d by (simp add: decision_def Let_def applies_def)
    next
      case (Some v)
      then show ?thesis
        using True materialize_realizes [OF assms(1,2) brc'(1,2)] unfolding d by (simp add: decision_def Let_def)
    qed
  qed
qed

lemma ReconcileConditional_realizes:
  assumes "conditions_ok D" "owner_identity C"
    and "getConditional C req = Inr base"
    and "getBackupRepository K \<lparr>nn_Namespace = [], nn_Name = RepositoryRef (brc_Spec base)\<rparr> = Inr br"
  shows "realizes D C now base (decision D K C base br) (ReconcileConditional D K C now req)"
proof -
  define brc where "brc = setBRConditionalCondition D BRConditionalBackupRepositoryFound ConditionTrue
    BRConditionalReasonOK (''resolved '' @ Quote D (br_Name br))
    (base\<lparr>brc_Status := (brc_Status base)\<lparr>brc_ObservedGeneration := brc_Generation base\<rparr>\<rparr>)"
  have "ReconcileConditional D K C now req = decide D K C now base brc br"
    using assms(3,4) by (simp add: ReconcileConditional_def brc_def)
  moreover have "prior brc = prior base" "ConditionalKey brc = ConditionalKey base" "brc_Spec brc = brc_Spec base"
    by (simp_all add: brc_def) (simp_all add: prior_def ConditionalKey_def)
  ultimately show ?thesis
    using decide_realizes [OF assms(1,2)] by simp
qed

text \<open>
  C9: the BackupRepositoryConditional controller implements the decision table: for a repository that can be read, the
  one status patch of a reconcile shows exactly the decision the table gives. The recorded slot, time and child
  change only with a commit, that is after the API server accepted the child; a refused or preserved reconcile keeps
  them and says why, and the child tried is applied before the patch, by server-side apply with force.
\<close>

theorem conditional_implements_table:
  assumes "conditions_ok D" "owner_identity C"
    and "getConditional C req = Inr base"
    and "getBackupRepository K \<lparr>nn_Namespace = [], nn_Name = RepositoryRef (brc_Spec base)\<rparr> = Inr br"
  shows "\<exists>effs requeue b. ReconcileConditional D K C now req = (effs, requeue, patchConditional C base b) \<and>
    implements D now base (decision D K C base br) effs requeue b"
  using ReconcileConditional_realizes [OF assms] by (simp add: realizes_def)

section \<open>Which child is applied\<close>

text \<open>
  Kubernetes disallows owner references across namespaces: \<^verbatim>\<open>SetControllerReference\<close> fails for a child in another
  namespace than its owner, and otherwise adds the reference and changes nothing else.
\<close>

definition owner_law :: "conditional_client \<Rightarrow> bool" where
  "owner_law C \<longleftrightarrow>
     (\<forall>brc obj obj'. SetControllerReference C brc obj = Inr obj' \<longrightarrow>
        ob_Namespace obj = brc_Namespace brc \<and> obj' = obj\<lparr>ob_Owner := Some (brc_Name brc)\<rparr>)"

definition entitled :: "deps \<Rightarrow> BackupRepositoryConditional \<Rightarrow> BackupRepository \<Rightarrow> VariantSpec \<Rightarrow> bool" where
  "entitled D brc br v \<longleftrightarrow>
     (case deriveBRState D br of
        brStateHealthy \<Rightarrow>
          WhenHealthy (brc_Spec brc) = Some v \<and> status_of D (Conditions (Status br)) ConditionHealthy = Some ConditionTrue
      | brStateEmpty \<Rightarrow>
          WhenEmpty (brc_Spec brc) = Some v \<and> ClaimedLastSuccessfulBackup (Status br) = None \<and>
          map_option ObjectCount (ObservedInventory (Status br)) = Some 0
      | brStateDegraded \<Rightarrow>
          WhenDegraded (brc_Spec brc) = Some v \<and>
          status_of D (Conditions (Status br)) ConditionHealthy \<noteq> Some ConditionTrue \<and>
          (Decided (brc_Status brc) = [] \<or> status_of D (Conditions (Status br)) ConditionHealthy \<noteq> Some ConditionUnknown))"

lemma deriveBRState_cases:
  "deriveBRState D br = brStateEmpty \<longleftrightarrow>
     ClaimedLastSuccessfulBackup (Status br) = None \<and> map_option ObjectCount (ObservedInventory (Status br)) = Some 0"
  "deriveBRState D br = brStateHealthy \<longleftrightarrow>
     deriveBRState D br \<noteq> brStateEmpty \<and> status_of D (Conditions (Status br)) ConditionHealthy = Some ConditionTrue"
  "isHealthyUnknown D br \<longleftrightarrow> status_of D (Conditions (Status br)) ConditionHealthy = Some ConditionUnknown"
  by (auto simp: deriveBRState_def isHealthyUnknown_def status_of_Find Let_def split: option.splits)

lemma entitledI:
  assumes "variantFor brc (deriveBRState D br) = Some v" "decidable brc D br"
  shows "entitled D brc br v"
proof (cases "deriveBRState D br")
  case brStateHealthy
  with assms(1) deriveBRState_cases(2) [of D br] show ?thesis
    by (simp add: entitled_def variantFor_def)
next
  case brStateEmpty
  with assms(1) deriveBRState_cases(1) [of D br] show ?thesis
    by (simp add: entitled_def variantFor_def)
next
  case brStateDegraded
  with assms deriveBRState_cases(2,3) [of D br] show ?thesis
    by (auto simp: entitled_def variantFor_def decidable_def)
qed

lemma decision_child:
  assumes "decision D K C brc br = Commit sl obj stored \<or> decision D K C brc br = Refuse (Some obj) reason"
  obtains v raw m where "variantFor brc (deriveBRState D br) = Some v" "decidable brc D br"
    "manifest K C (brc_Namespace brc) (vs_ManifestRef v) = Some raw" "parsed C raw = Some m"
    "SetControllerReference C brc (placed (brc_Namespace brc) m) = Inr obj"
  using assms
  by (auto simp: decision_def verdict_def Let_def split: if_splits option.splits sum.splits)

text \<open>
  C10: what a conditional may create. Every child it applies is the manifest of the variant its repository's published
  state entitles it to: the variant for healthy repositories only if Healthy is True, the one for empty
  repositories only if the inventory was taken, found no object and no backup is claimed, the one for degraded repositories
  only if Healthy is not True and, once a decision exists, not Unknown. The child lives in the conditional's own
  namespace and is owned by it.
\<close>

theorem applied_child_entitled:
  assumes "conditions_ok D" "owner_identity C" "owner_law C"
    and "ReconcileConditional D K C now req = (effs, res)" "ApplyChild obj manager force \<in> set effs"
  shows "\<exists>brc br v raw m. getConditional C req = Inr brc \<and>
    getBackupRepository K \<lparr>nn_Namespace = [], nn_Name = RepositoryRef (brc_Spec brc)\<rparr> = Inr br \<and>
    entitled D brc br v \<and> manifest K C (brc_Namespace brc) (vs_ManifestRef v) = Some raw \<and> parsed C raw = Some m \<and>
    obj = m\<lparr>ob_Namespace := brc_Namespace brc, ob_Owner := Some (brc_Name brc)\<rparr>"
proof -
  have found: "\<exists>brc br. getConditional C req = Inr brc \<and>
    getBackupRepository K \<lparr>nn_Namespace = [], nn_Name = RepositoryRef (brc_Spec brc)\<rparr> = Inr br"
    using assms(4,5) by (auto simp: ReconcileConditional_def finish_def Let_def split: sum.splits if_splits)
  then obtain brc br where brc: "getConditional C req = Inr brc"
    and br: "getBackupRepository K \<lparr>nn_Namespace = [], nn_Name = RepositoryRef (brc_Spec brc)\<rparr> = Inr br"
    by blast
  have "realizes D C now brc (decision D K C brc br) (effs, res)"
    using ReconcileConditional_realizes [OF assms(1,2) brc br, of now] assms(4) by simp
  then obtain requeue b where "implements D now brc (decision D K C brc br) effs requeue b"
    by (auto simp: realizes_def)
  then obtain sl stored reason where
    d: "decision D K C brc br = Commit sl obj stored \<or> decision D K C brc br = Refuse (Some obj) reason"
    using assms(5) by (cases "decision D K C brc br") (auto simp: applies_def split: option.splits)
  obtain v raw m where v: "variantFor brc (deriveBRState D br) = Some v" "decidable brc D br"
    and m: "manifest K C (brc_Namespace brc) (vs_ManifestRef v) = Some raw" "parsed C raw = Some m"
    and owner: "SetControllerReference C brc (placed (brc_Namespace brc) m) = Inr obj"
    by (rule decision_child [OF d])
  have "obj = (placed (brc_Namespace brc) m)\<lparr>ob_Owner := Some (brc_Name brc)\<rparr>"
    "ob_Namespace (placed (brc_Namespace brc) m) = brc_Namespace brc"
    using owner assms(3) unfolding owner_law_def by blast+
  then have "obj = m\<lparr>ob_Namespace := brc_Namespace brc, ob_Owner := Some (brc_Name brc)\<rparr>"
    by (auto simp: placed_def split: if_splits)
  with brc br entitledI [OF v] m show ?thesis
    by blast
qed

section \<open>A sample conditional\<close>

definition sample_manifest :: Unstructured where
  "sample_manifest =
     \<lparr>ob_APIVersion = ''postgresql.cnpg.io/v1'', ob_Kind = ''Cluster'', ob_Namespace = [], ob_Name = ''pg'',
      ob_Owner = None, ob_Content = ''spec: {}''\<rparr>"

abbreviation sample_child :: Unstructured where
  "sample_child \<equiv> sample_manifest\<lparr>ob_Namespace := ''db'', ob_Owner := Some ''pg-bootstrap''\<rparr>"

definition sample_conditional :: BackupRepositoryConditional where
  "sample_conditional =
     \<lparr>brc_Name = ''pg-bootstrap'', brc_Namespace = ''db'', brc_Generation = 1,
      brc_Spec = \<lparr>RepositoryRef = ''pg'',
        WhenHealthy = Some \<lparr>vs_ManifestRef =
          \<lparr>ConfigMap = Some \<lparr>kr_Name = ''recover'', kr_Key = ''m.yaml''\<rparr>, Secret = None\<rparr>\<rparr>,
        WhenEmpty = Some \<lparr>vs_ManifestRef =
          \<lparr>ConfigMap = None, Secret = Some \<lparr>kr_Name = ''fresh'', kr_Key = ''m.yaml''\<rparr>\<rparr>\<rparr>,
        WhenDegraded = None\<rparr>,
      brc_Status = \<lparr>ObservedRepositoryState = [], Decided = [], DecidedAt = None, AppliedRef = None,
        brc_ObservedGeneration = 0, brc_Conditions = []\<rparr>\<rparr>"

definition sample_conditional_client :: conditional_client where
  "sample_conditional_client =
     \<lparr>getConditional = (\<lambda>n. if n = ConditionalKey sample_conditional then Inr sample_conditional
        else Inl (NotFound ''not found'')),
      listConditionals = (\<lambda>ns. Inr (case ns of None \<Rightarrow> [sample_conditional]
        | Some n \<Rightarrow> filter (\<lambda>c. brc_Namespace c = n) [sample_conditional])),
      getConfigMap = (\<lambda>n. Inr [(''m.yaml'', ''manifest'')]),
      UnmarshalYAML = (\<lambda>raw. if raw = ''manifest'' then Inr sample_manifest else Inl ''not a mapping''),
      SetControllerReference = (\<lambda>brc obj.
        if ob_Namespace obj = brc_Namespace brc then Inr (obj\<lparr>ob_Owner := Some (brc_Name brc)\<rparr>)
        else Inl ''cross-namespace owner references are disallowed''),
      applyObject = (\<lambda>obj manager force. Inr obj),
      patchConditional = (\<lambda>base brc. None)\<rparr>"

definition conditional_kube :: "Condition list \<Rightarrow> kube" where
  "conditional_kube cs =
     sample_kube\<lparr>getBackupRepository := (\<lambda>n. Inr (sample_br\<lparr>Status := sample_status\<lparr>Conditions := cs\<rparr>\<rparr>))\<rparr>"

abbreviation healthy_cond :: Condition where
  "healthy_cond \<equiv> (condTrue ReasonProbeSucceeded ''all required sub-conditions True'')\<lparr>cType := ConditionHealthy\<rparr>"

lemma sample_client_laws [simp]:
  "owner_identity sample_conditional_client" "owner_law sample_conditional_client"
  "lists sample_conditional_client [sample_conditional]"
  "getConditional sample_conditional_client (ConditionalKey sample_conditional) = Inr sample_conditional"
  by (auto simp: owner_identity_def owner_law_def lists_def sample_conditional_client_def ConditionalKey_def)

lemma sample_decision_healthy:
  "deriveBRState sample_deps br = brStateHealthy \<Longrightarrow>
     decision sample_deps K sample_conditional_client sample_conditional br =
       Commit ''whenHealthy'' sample_child sample_child"
  by (simp add: decision_def decidable_def variantFor_def manifest_def parsed_def placed_def verdict_def
      slotFor_def sample_conditional_def sample_conditional_client_def sample_manifest_def)

lemma sample_decision:
  "decision sample_deps (conditional_kube [healthy_cond]) sample_conditional_client sample_conditional
     (sample_br\<lparr>Status := sample_status\<lparr>Conditions := [healthy_cond]\<rparr>\<rparr>) =
   Commit ''whenHealthy'' sample_child sample_child"
  by (rule sample_decision_healthy)
     (simp add: deriveBRState_def sample_deps_def sample_status_def condTrue_def plainCondition_def)

lemma sample_repository [simp]:
  "getBackupRepository (conditional_kube cs) n = Inr (sample_br\<lparr>Status := sample_status\<lparr>Conditions := cs\<rparr>\<rparr>)"
  by (simp add: conditional_kube_def)

text \<open>On the sample, the healthy repository's conditional commits to its recovery manifest.\<close>

theorem conditional_implements_table_witness:
  "\<exists>effs requeue b.
     ReconcileConditional sample_deps (conditional_kube [healthy_cond]) sample_conditional_client 7
       (ConditionalKey sample_conditional) = (effs, requeue, patchConditional sample_conditional_client sample_conditional b) \<and>
     effs = [ApplyChild (sample_manifest\<lparr>ob_Namespace := ''db'', ob_Owner := Some ''pg-bootstrap''\<rparr>)
       brConditionalFieldManager True, PatchConditional b] \<and>
     Decided (brc_Status b) = ''whenHealthy'' \<and> DecidedAt (brc_Status b) = Some 7"
  using conditional_implements_table [OF sample_deps_ok(1) sample_client_laws(1,4) sample_repository [of "[healthy_cond]"], where now = 7]
  by (auto simp: sample_decision applies_def prior_def)

lemma sample_run_applies:
  "\<exists>effs res. ReconcileConditional sample_deps (conditional_kube [healthy_cond]) sample_conditional_client 7
       (ConditionalKey sample_conditional) = (effs, res) \<and>
     ApplyChild (sample_manifest\<lparr>ob_Namespace := ''db'', ob_Owner := Some ''pg-bootstrap''\<rparr>)
       brConditionalFieldManager True \<in> set effs"
  using ReconcileConditional_realizes [OF sample_deps_ok(1) sample_client_laws(1,4) sample_repository [of "[healthy_cond]"], where now = 7]
  by (auto simp: realizes_def sample_decision applies_def)

theorem applied_child_entitled_witness:
  "\<exists>brc br v. getConditional sample_conditional_client (ConditionalKey sample_conditional) = Inr brc \<and>
     entitled sample_deps brc br v \<and> brc_Namespace brc = ''db''"
proof -
  obtain effs res where "ReconcileConditional sample_deps (conditional_kube [healthy_cond]) sample_conditional_client 7
      (ConditionalKey sample_conditional) = (effs, res)"
    "ApplyChild (sample_manifest\<lparr>ob_Namespace := ''db'', ob_Owner := Some ''pg-bootstrap''\<rparr>)
      brConditionalFieldManager True \<in> set effs"
    using sample_run_applies by blast
  from applied_child_entitled [OF sample_deps_ok(1) sample_client_laws(1,2) this]
  obtain br v where "entitled sample_deps sample_conditional br v"
    by auto
  moreover have "brc_Namespace sample_conditional = ''db''"
    by (simp add: sample_conditional_def)
  ultimately show ?thesis
    using sample_client_laws(4) by blast
qed

end
