(* ===== verification/Lifecycle.thy ===== *)
theory Lifecycle
  imports Conditional
begin

text \<open>
  The two controllers at work on a repository and its conditional: a state machine whose steps are the reconciles of
  either, edits of the specs, and restarts. External code answers differently at every step; the only
  thing fixed is how conditions are looked up. The conditional may read any version of the repository that was ever
  stored, as a lagging cache does. Whether the repository's own reconcile may do so too is a parameter of the
  machine: its status patch is a merge patch against what it read, so a lagging read mixes two versions. The state
  carries a record of what happened: all stored versions, the environments of the reconciles with what they
  sent, and the children the API server accepted.
\<close>

section \<open>Merge patches\<close>

text \<open>
  What the server stores for a merge patch from \<open>base\<close> to \<open>new\<close> when its current status is \<open>cur\<close>: a field
  that the patch changes is overwritten, one that it does not change stays. Lists are replaced as a whole. For the fields that
  are objects the patch may change parts; only what holds of the whole is stated.
\<close>

definition picks ::
  "(BackupRepositoryStatus \<Rightarrow> 'a) \<Rightarrow> BackupRepositoryStatus \<Rightarrow> BackupRepositoryStatus \<Rightarrow>
   BackupRepositoryStatus \<Rightarrow> BackupRepositoryStatus \<Rightarrow> bool" where
  "picks f base new cur res \<longleftrightarrow> f res = (if f new = f base then f cur else f new)"

definition picks_object ::
  "(BackupRepositoryStatus \<Rightarrow> 'a) \<Rightarrow> BackupRepositoryStatus \<Rightarrow> BackupRepositoryStatus \<Rightarrow>
   BackupRepositoryStatus \<Rightarrow> BackupRepositoryStatus \<Rightarrow> bool" where
  "picks_object f base new cur res \<longleftrightarrow>
     (f new = f base \<longrightarrow> f res = f cur) \<and> (f cur = f base \<longrightarrow> f res = f new)"

definition merges ::
  "BackupRepositoryStatus \<Rightarrow> BackupRepositoryStatus \<Rightarrow> BackupRepositoryStatus \<Rightarrow>
   BackupRepositoryStatus \<Rightarrow> bool" where
  "merges base new cur res \<longleftrightarrow>
     picks ObservedGeneration base new cur res \<and> picks Conditions base new cur res \<and>
     picks LastProbedAt base new cur res \<and> picks_object ClaimedLatestBackup base new cur res \<and>
     picks ClaimedLastSuccessfulBackup base new cur res \<and> picks DetectedFormat base new cur res \<and>
     picks DetectedVersion base new cur res \<and> picks_object ObservedInventory base new cur res \<and>
     picks_object ObservedGrowth base new cur res \<and> picks VerifiedLastValidationAt base new cur res \<and>
     picks VerifiedLastSampledRetrievalAt base new cur res \<and> picks_object LastFullRetrieval base new cur res \<and>
     picks LastForceRevalidatedAt base new cur res \<and> picks LastForcedE4At base new cur res"

text \<open>Against the current version a merge patch stores exactly the new status.\<close>

lemma merges_current: "merges cur new cur res \<longleftrightarrow> res = new"
  by (auto simp: merges_def picks_def picks_object_def intro!: BackupRepositoryStatus.equality)

lemma merges_conditions:
  "merges base new cur res \<Longrightarrow> Conditions res = Conditions new \<or> Conditions res = Conditions cur"
  by (auto simp: merges_def picks_def split: if_splits)

section \<open>The machine\<close>

record run =
  run_deps :: deps
  run_kube :: kube
  run_clock :: clock
  run_effects :: "effect list"

record world =
  versions :: "BackupRepository list"
  memory :: credsTransient
  conditional :: BackupRepositoryConditional
  runs :: "run list"
  commits :: "(string \<times> AppliedResourceRef \<times> BackupRepository) list"

definition compatible :: "deps \<Rightarrow> deps \<Rightarrow> bool" where
  "compatible D0 D \<longleftrightarrow> conditions_ok D \<and> FindStatusCondition D = FindStatusCondition D0"

definition commitsOf ::
  "deps \<Rightarrow> conditional_client \<Rightarrow> BackupRepository \<Rightarrow> conditional_effect list \<Rightarrow>
   (string \<times> AppliedResourceRef \<times> BackupRepository) list" where
  "commitsOf D C br effs =
     List.map_filter (\<lambda>e. case e of
         ApplyChild obj m f \<Rightarrow>
           (case applyObject C obj m f of Inr stored \<Rightarrow> Some (slotFor (deriveBRState D br), refOf stored, br) | Inl e \<Rightarrow> None)
       | PatchConditional b \<Rightarrow> None) effs"

definition patchedConditionals :: "conditional_effect list \<Rightarrow> BackupRepositoryConditional list" where
  "patchedConditionals effs =
     List.map_filter (\<lambda>e. case e of PatchConditional b \<Rightarrow> Some b | ApplyChild obj m f \<Rightarrow> None) effs"

text \<open>
  A status patch is stored or lost; what it stores is a merged status, in the object as it stands, with whole
  seconds in its times. Without lag the
  base of the patch is the current status.
\<close>

definition stores :: "bool \<Rightarrow> BackupRepository \<Rightarrow> effect list \<Rightarrow> BackupRepository list \<Rightarrow> bool" where
  "stores lag cur effs stored \<longleftrightarrow>
     stored = [] \<or>
     (\<exists>b base s. patched effs = [b] \<and> stored = [cur\<lparr>Status := s\<rparr>] \<and>
        merges base (on_wire (Status b)) (Status cur) s \<and> (lag \<or> base = Status cur))"

inductive step :: "bool \<Rightarrow> deps \<Rightarrow> ValidatorImages \<Rightarrow> NamespacedName \<Rightarrow> NamespacedName \<Rightarrow> world \<Rightarrow> world \<Rightarrow> bool"
  for lag D0 VI key ckey where
  reconciles:
    "\<lbrakk>versions w = br # vs; compatible D0 D;
      \<And>b. getBackupRepository K key = Inr b \<Longrightarrow> b \<in> set (versions w) \<and> (lag \<or> b = br);
      Reconcile D VI K clk key (memory w) = Ret (mem, effs, res); stores lag br effs stored\<rbrakk> \<Longrightarrow>
     step lag D0 VI key ckey w
       (w\<lparr>versions := stored @ versions w, memory := mem,
          runs := \<lparr>run_deps = D, run_kube = K, run_clock = clk, run_effects = effs\<rparr> # runs w\<rparr>)"
| edits:
    "versions w = br # vs \<Longrightarrow>
     step lag D0 VI key ckey w (w\<lparr>versions := br\<lparr>Generation := g, Annotations := a, Spec := s\<rparr> # versions w\<rparr>)"
| restarts: "step lag D0 VI key ckey w (w\<lparr>memory := Map.empty\<rparr>)"
| decides:
    "\<lbrakk>compatible D0 D; owner_identity C; getConditional C ckey = Inr (conditional w);
      getBackupRepository K \<lparr>nn_Namespace = [], nn_Name = RepositoryRef (brc_Spec (conditional w))\<rparr> = Inr br;
      br \<in> set (versions w); ReconcileConditional D K C now ckey = (effs, res);
      stored = conditional w \<or>
        (\<exists>b \<in> set (patchedConditionals effs). stored = (conditional w)\<lparr>brc_Status := brc_Status b\<rparr>)\<rbrakk> \<Longrightarrow>
     step lag D0 VI key ckey w (w\<lparr>conditional := stored, commits := commitsOf D C br effs @ commits w\<rparr>)"
| loses:
    "\<lbrakk>compatible D0 D; getConditional C ckey = Inr (conditional w);
      getBackupRepository K \<lparr>nn_Namespace = [], nn_Name = RepositoryRef (brc_Spec (conditional w))\<rparr> = Inl e;
      ReconcileConditional D K C now ckey = (effs, res);
      stored = conditional w \<or>
        (\<exists>b \<in> set (patchedConditionals effs). stored = (conditional w)\<lparr>brc_Status := brc_Status b\<rparr>)\<rbrakk> \<Longrightarrow>
     step lag D0 VI key ckey w (w\<lparr>conditional := stored\<rparr>)"
| edits_conditional:
    "step lag D0 VI key ckey w (w\<lparr>conditional := (conditional w)\<lparr>brc_Generation := g, brc_Spec := s\<rparr>\<rparr>)"

text \<open>The start: a new repository and a new conditional, with empty statuses.\<close>

definition start :: "deps \<Rightarrow> world \<Rightarrow> bool" where
  "start D0 w \<longleftrightarrow>
     (\<exists>br. versions w = [br] \<and> view D0 (conds br) = Map.empty \<and> VerifiedLastValidationAt (Status br) = None \<and>
        LastFullRetrieval (Status br) = None) \<and>
     prior (conditional w) = ([], None, None) \<and> runs w = [] \<and> commits w = []"

section \<open>Published statuses\<close>

text \<open>Healthy, if present, is the conjunction of the conditions it rolls up.\<close>

definition consistent :: "deps \<Rightarrow> BackupRepository \<Rightarrow> bool" where
  "consistent D br \<longleftrightarrow>
     status_of D (conds br) ConditionHealthy \<in> {None, Some (conjunction (statuses D (conds br) sub_types))}"

definition sound :: "deps \<Rightarrow> BackupRepository \<Rightarrow> bool" where
  "sound D br \<longleftrightarrow>
     (VerifiedLastValidationAt (Status br) \<noteq> None \<longrightarrow> real D (conds br) ConditionMetadataValid) \<and>
     (LastFullRetrieval (Status br) \<noteq> None \<longrightarrow> real D (conds br) ConditionFullRetrievalCompleted) \<and>
     consistent D br \<and>
     (status_of D (conds br) ConditionHealthy = Some ConditionTrue \<longrightarrow> ClaimedLastSuccessfulBackup (Status br) \<noteq> None)"

text \<open>The finding behind a published Healthy: one of the runs probed the repository and sent these conditions.\<close>

definition vouched :: "NamespacedName \<Rightarrow> run \<Rightarrow> BackupRepository \<Rightarrow> bool" where
  "vouched key r br \<longleftrightarrow>
     (\<exists>b read creds t. PatchStatus b \<in> set (run_effects r) \<and> conds b = conds br \<and>
        getBackupRepository (run_kube r) key = Inr read \<and> resolveCredentials (run_deps r) (run_kube r) read = Inr creds \<and>
        pr_Reachable (probeRepository (run_deps r) (Spec read) creds) \<and>
        pr_BucketSecurityValid (probeRepository (run_deps r) (Spec read) creds) \<and>
        LastSuccessfulBackup (probeRepository (run_deps r) (Spec read) creds) = Some t \<and>
        Sub (now_status (run_clock r)) t \<le> MaxBackupLag (Spec b))"

lemma compatible_view:
  assumes "compatible D0 D"
  shows "conditions_ok D" "view D = view D0" "status_of D = status_of D0" "real D = real D0" "statuses D = statuses D0"
    "deriveBRState D = deriveBRState D0" "isHealthyUnknown D = isHealthyUnknown D0"
proof -
  show v: "view D = view D0"
    using assms by (simp add: compatible_def view_def fun_eq_iff)
  show "conditions_ok D" "deriveBRState D = deriveBRState D0" "isHealthyUnknown D = isHealthyUnknown D0"
    using assms by (simp_all add: compatible_def deriveBRState_def isHealthyUnknown_def fun_eq_iff)
  show "status_of D = status_of D0" "real D = real D0"
    by (simp_all add: status_of_def real_def v fun_eq_iff)
  then show "statuses D = statuses D0"
    by (simp add: statuses_def fun_eq_iff)
qed

lemma sound_compatible:
  assumes "compatible D0 D"
  shows "consistent D = consistent D0" "sound D = sound D0"
proof -
  show c: "consistent D = consistent D0"
    by (simp add: consistent_def compatible_view [OF assms] fun_eq_iff)
  show "sound D = sound D0"
    by (simp add: sound_def c compatible_view [OF assms] fun_eq_iff)
qed

lemma sound_update [simp]:
  "sound D (br\<lparr>Status := on_wire (Status b)\<rparr>) = sound D b"
  "sound D (br\<lparr>Generation := g, Annotations := a, Spec := s\<rparr>) = sound D br"
  "consistent D (br\<lparr>Generation := g, Annotations := a, Spec := s\<rparr>) = consistent D br"
  by (simp_all add: sound_def consistent_def on_wire_def)

lemma consistent_conds: "conds a = conds b \<Longrightarrow> consistent D a = consistent D b"
  by (simp add: consistent_def)

text \<open>What a patch can leave behind.\<close>

lemma stores_current:
  assumes "stores False cur effs stored" "s \<in> set stored"
  shows "\<exists>b \<in> set (patched effs). s = cur\<lparr>Status := on_wire (Status b)\<rparr>"
  using assms by (auto simp: stores_def merges_current)

lemma stores_conditions:
  assumes "stores lag cur effs stored" "s \<in> set stored"
  shows "(\<exists>b \<in> set (patched effs). conds s = conds b) \<or> conds s = conds cur"
  using assms merges_conditions by (fastforce simp: stores_def on_wire_def)

lemma real_preserved: "real D (conds br) t \<longleftrightarrow> (\<exists>c. preservedCondition D br t = Some c)"
  by (auto simp: real_def view_def core_def preservedCondition_def split: option.splits)

lemma failureStatus_consistent:
  assumes "conditions_ok D"
  shows "consistent D (failureStatus D now br err)"
proof -
  have "reachable (credentialInputs D (touch now br) err) \<noteq> None"
    by (simp add: credentialInputs_def)
  from applyConditions_rollups(3) [OF assms this, of "touch now br"] show ?thesis
    by (simp add: consistent_def failureStatus_def Let_def)
qed

lemma nextStatus_consistent:
  assumes "conditions_ok D"
  shows "consistent D (nextStatus D now br p e2 e3 e4 h h4)"
proof -
  have "status_of D (conds (nextStatus D now br p e2 e3 e4 h h4)) ConditionHealthy =
      Some (conjunction (statuses D (conds (nextStatus D now br p e2 e3 e4 h h4)) sub_types))"
    unfolding nextStatus_eq Let_def by (rule applyConditions_rollups(3) [OF assms]) simp
  then show ?thesis
    by (simp add: consistent_def)
qed

lemma failureStatus_sound:
  assumes "conditions_ok D" "sound D br"
  shows "sound D (failureStatus D now br err)"
proof -
  let ?br = "touch now br"
  let ?inp = "credentialInputs D ?br err"
  let ?b = "applyConditions D ?br ?inp"
  have inp: "reachable ?inp \<noteq> None" "metadataValid ?inp = preservedCondition D br ConditionMetadataValid"
    "fullRetrievalCompleted ?inp = preservedCondition D br ConditionFullRetrievalCompleted"
    by (simp_all add: credentialInputs_def)
  have "real D (conds ?b) ConditionMetadataValid" if "VerifiedLastValidationAt (Status br) \<noteq> None"
    using that assms(2) view_applyConditions_levels(2) [OF assms(1), of ?inp] inp(2) preserved_reason
    by (auto simp: sound_def real_preserved [of D br] real_core)
  moreover have "real D (conds ?b) ConditionFullRetrievalCompleted" if "LastFullRetrieval (Status br) \<noteq> None"
    using that assms(2) view_applyConditions_levels(4) [OF assms(1), of ?inp] inp(3) preserved_reason
    by (auto simp: sound_def real_preserved [of D br] real_core e4Meaningful_def)
  ultimately show ?thesis
    using failureStatus_consistent [OF assms(1), of now br err] failureStatus_unhealthy [OF assms(1), of now br err]
    by (simp add: sound_def failureStatus_def Let_def)
qed

lemma nextStatus_sound:
  assumes "conditions_ok D" "runLevels D VI K clk br creds g = Ret (effs, e2, e3, e4, br')"
  shows "sound D (nextStatus D now br' p e2 e3 e4 h h4)" (is "sound D ?b")
proof -
  have "ClaimedLastSuccessfulBackup (Status ?b) = LastSuccessfulBackup p"
    unfolding nextStatus_eq Let_def by (simp add: recordProbe_def)
  then show ?thesis
    using nextStatus_backed [OF assms refl, of now p h h4] nextStatus_reachable(3) [OF assms(1) refl, of now br' p e2 e3 e4 h h4]
      nextStatus_consistent [OF assms(1)]
    by (auto simp: sound_def)
qed

lemma patched_sound:
  assumes "compatible D0 D" "Reconcile D VI K clk key seen = Ret (seen', effs, res)"
    and "\<And>b. getBackupRepository K key = Inr b \<Longrightarrow> sound D0 b" "b \<in> set (patched effs)"
  shows "sound D0 b"
proof -
  note c = compatible_view(1) [OF assms(1)]
  from assms(2) have "sound D b"
  proof (cases rule: Reconcile_patched)
    case (failure br err)
    with assms(3,4) failureStatus_sound [OF c] sound_compatible [OF assms(1)] show ?thesis
      by auto
  next
    case (result br creds levels e2 e3 e4 br')
    with assms(4) nextStatus_sound [OF c result(3)] show ?thesis
      by auto
  qed (use assms(4) in simp)
  then show ?thesis
    using sound_compatible [OF assms(1)] by simp
qed

lemma patched_consistent:
  assumes "compatible D0 D" "Reconcile D VI K clk key seen = Ret (seen', effs, res)" "b \<in> set (patched effs)"
  shows "consistent D0 b"
proof -
  note c = compatible_view(1) [OF assms(1)]
  from assms(2) have "consistent D b"
  proof (cases rule: Reconcile_patched)
    case (failure br err)
    with assms(3) failureStatus_consistent [OF c] show ?thesis
      by auto
  next
    case (result br creds levels e2 e3 e4 br')
    with assms(3) nextStatus_consistent [OF c] show ?thesis
      by auto
  qed (use assms(3) in simp)
  then show ?thesis
    using sound_compatible [OF assms(1)] by simp
qed

lemma start_sound:
  assumes "view D (conds br) = Map.empty" "VerifiedLastValidationAt (Status br) = None" "LastFullRetrieval (Status br) = None"
  shows "sound D br"
  using assms by (simp add: sound_def consistent_def status_of_def)

definition all_sound :: "deps \<Rightarrow> world \<Rightarrow> bool" where
  "all_sound D0 w \<longleftrightarrow> versions w \<noteq> [] \<and> (\<forall>br \<in> set (versions w). sound D0 br)"

text \<open>Without lag every stored status is sound.\<close>

interpretation published: machine_invariant "start D0" "step False D0 VI key ckey" "all_sound D0" for D0 VI key ckey
proof
  show "all_sound D0 w" if "start D0 w" for w
    using that start_sound by (auto simp: start_def all_sound_def)
  show "all_sound D0 w'" if "all_sound D0 w" "step False D0 VI key ckey w w'" for w w'
    using that(2,1)
  proof cases
    case (reconciles br vs D K clk mem effs res stored)
    have read: "sound D0 b" if "getBackupRepository K key = Inr b" for b
      using that reconciles(4) \<open>all_sound D0 w\<close> by (auto simp: all_sound_def)
    have "sound D0 s" if "s \<in> set stored" for s
      using stores_current [OF reconciles(6) that] patched_sound [OF reconciles(3,5) read] by auto
    then show ?thesis
      using reconciles(1) \<open>all_sound D0 w\<close> by (auto simp: all_sound_def)
  next
    case (edits br vs g a s)
    then show ?thesis
      using \<open>all_sound D0 w\<close> by (auto simp: all_sound_def)
  qed (auto simp: all_sound_def)
qed

text \<open>With lag the conditions still are those of one reconcile, so Healthy stays consistent with them.\<close>

definition all_consistent :: "deps \<Rightarrow> world \<Rightarrow> bool" where
  "all_consistent D0 w \<longleftrightarrow> (\<forall>br \<in> set (versions w). consistent D0 br)"

interpretation rollups: machine_invariant "start D0" "step lag D0 VI key ckey" "all_consistent D0"
  for lag D0 VI key ckey
proof
  show "all_consistent D0 w" if "start D0 w" for w
    using that start_sound by (auto simp: start_def all_consistent_def sound_def)
  show "all_consistent D0 w'" if "all_consistent D0 w" "step lag D0 VI key ckey w w'" for w w'
    using that(2,1)
  proof cases
    case (reconciles br vs D K clk mem effs res stored)
    have "consistent D0 s" if "s \<in> set stored" for s
      using stores_conditions [OF reconciles(6) that]
    proof
      assume "\<exists>b \<in> set (patched effs). conds s = conds b"
      then show ?thesis
        using patched_consistent [OF reconciles(3,5)] consistent_conds by blast
    next
      assume "conds s = conds br"
      moreover have "consistent D0 br"
        using reconciles(2) \<open>all_consistent D0 w\<close> by (simp add: all_consistent_def)
      ultimately show ?thesis
        using consistent_conds by blast
    qed
    then show ?thesis
      using reconciles(1) \<open>all_consistent D0 w\<close> by (auto simp: all_consistent_def)
  next
    case (edits br vs g a s)
    then show ?thesis
      using \<open>all_consistent D0 w\<close> by (auto simp: all_consistent_def)
  qed (auto simp: all_consistent_def)
qed

definition all_vouched :: "deps \<Rightarrow> NamespacedName \<Rightarrow> world \<Rightarrow> bool" where
  "all_vouched D0 key w \<longleftrightarrow>
     (\<forall>br \<in> set (versions w). status_of D0 (conds br) ConditionHealthy = Some ConditionTrue \<longrightarrow>
        (\<exists>r \<in> set (runs w). vouched key r br))"

lemma vouched_conds: "conds a = conds b \<Longrightarrow> vouched key r a = vouched key r b"
  by (simp add: vouched_def)

lemma vouched_update [simp]:
  "vouched key r (br\<lparr>Generation := g, Annotations := a, Spec := s\<rparr>) = vouched key r br"
  by (simp add: vouched_def)

lemma patched_vouched:
  assumes "compatible D0 D" "Reconcile D VI K clk key seen = Ret (seen', effs, res)" "b \<in> set (patched effs)"
    and "status_of D0 (conds b) ConditionHealthy = Some ConditionTrue"
  shows "vouched key \<lparr>run_deps = D, run_kube = K, run_clock = clk, run_effects = effs\<rparr> b"
proof -
  have b: "PatchStatus b \<in> set effs" "status_of D (conds b) ConditionHealthy = Some ConditionTrue"
    using assms(3,4) compatible_view(3) [OF assms(1)] by (simp_all add: patched_iff)
  from published_healthy [OF compatible_view(1) [OF assms(1)] assms(2) b] b(1) show ?thesis
    unfolding vouched_def run.simps by metis
qed

interpretation evidence: machine_invariant "start D0" "step lag D0 VI key ckey" "all_vouched D0 key"
  for lag D0 VI key ckey
proof
  show "all_vouched D0 key w" if "start D0 w" for w
    using that by (auto simp: start_def all_vouched_def status_of_def)
  show "all_vouched D0 key w'" if "all_vouched D0 key w" "step lag D0 VI key ckey w w'" for w w'
    using that(2,1)
  proof cases
    case (reconciles br vs D K clk mem effs res stored)
    let ?r = "\<lparr>run_deps = D, run_kube = K, run_clock = clk, run_effects = effs\<rparr>"
    have "\<exists>r \<in> set (?r # runs w). vouched key r s"
      if s: "s \<in> set stored" "status_of D0 (conds s) ConditionHealthy = Some ConditionTrue" for s
      using stores_conditions [OF reconciles(6) s(1)]
    proof
      assume "\<exists>b \<in> set (patched effs). conds s = conds b"
      then show ?thesis
        using patched_vouched [OF reconciles(3,5)] s(2) vouched_conds by (metis list.set_intros(1))
    next
      assume "conds s = conds br"
      moreover have "br \<in> set (versions w)"
        using reconciles(2) by simp
      ultimately show ?thesis
        using \<open>all_vouched D0 key w\<close> s(2) vouched_conds unfolding all_vouched_def
        by (metis list.set_intros(2))
    qed
    then show ?thesis
      using reconciles(1) \<open>all_vouched D0 key w\<close> by (auto simp: all_vouched_def)
  qed (auto simp: all_vouched_def)
qed

section \<open>Recorded decisions\<close>

definition all_recorded :: "deps \<Rightarrow> world \<Rightarrow> bool" where
  "all_recorded D0 w \<longleftrightarrow>
     (Decided (brc_Status (conditional w)) \<noteq> [] \<longrightarrow>
        (\<exists>ref br. (Decided (brc_Status (conditional w)), ref, br) \<in> set (commits w) \<and>
           AppliedRef (brc_Status (conditional w)) = Some ref)) \<and>
     (\<forall>(sl, ref, br) \<in> set (commits w). br \<in> set (versions w) \<and> sl = slotFor (deriveBRState D0 br))"

lemma commit_accepted:
  "decision D K C brc br = Commit sl obj stored \<Longrightarrow>
     sl = slotFor (deriveBRState D br) \<and> applyObject C obj brConditionalFieldManager True = Inr stored"
  by (auto simp: decision_def verdict_def Let_def split: if_splits option.splits sum.splits)

lemma effect_lists [simp]:
  "patchedConditionals [] = []" "patchedConditionals (PatchConditional b # es) = b # patchedConditionals es"
  "patchedConditionals (ApplyChild obj m f # es) = patchedConditionals es"
  "commitsOf D C br [] = []" "commitsOf D C br (PatchConditional b # es) = commitsOf D C br es"
  "commitsOf D C br (ApplyChild obj m f # es) =
     (case applyObject C obj m f of Inr stored \<Rightarrow> [(slotFor (deriveBRState D br), refOf stored, br)] | Inl e \<Rightarrow> []) @
       commitsOf D C br es"
  by (simp_all add: patchedConditionals_def commitsOf_def List.map_filter_def split: sum.split)

lemma decides_recorded:
  assumes "conditions_ok D" "owner_identity C" "getConditional C ckey = Inr brc"
    and "getBackupRepository K \<lparr>nn_Namespace = [], nn_Name = RepositoryRef (brc_Spec brc)\<rparr> = Inr br"
    and "ReconcileConditional D K C now ckey = (effs, res)" "b \<in> set (patchedConditionals effs)"
  shows "prior b = prior brc \<or> (\<exists>ref. (Decided (brc_Status b), ref, br) \<in> set (commitsOf D C br effs) \<and>
    AppliedRef (brc_Status b) = Some ref)"
proof -
  have "realizes D C now brc (decision D K C brc br) (effs, res)"
    using ReconcileConditional_realizes [OF assms(1-4), of now] assms(5) by simp
  then obtain requeue b' where d: "implements D now brc (decision D K C brc br) effs requeue b'"
    by (auto simp: realizes_def)
  then have b: "b = b'"
    using assms(6) by (cases "decision D K C brc br") (auto simp: applies_def split: option.splits)
  show ?thesis
    using d commit_accepted [of D K C brc br] unfolding b
    by (cases "decision D K C brc br") (auto simp: applies_def prior_def)
qed

lemma loses_prior:
  assumes "getConditional C ckey = Inr brc"
    and "getBackupRepository K \<lparr>nn_Namespace = [], nn_Name = RepositoryRef (brc_Spec brc)\<rparr> = Inl e"
    and "ReconcileConditional D K C now ckey = (effs, res)" "b \<in> set (patchedConditionals effs)"
  shows "prior b = prior brc"
  using assms by (auto simp: ReconcileConditional_def finish_def Let_def split: if_splits) (simp add: prior_def)

lemma commitsOf_from:
  "(sl, ref, b) \<in> set (commitsOf D C br effs) \<Longrightarrow> b = br \<and> sl = slotFor (deriveBRState D br)"
proof (induction effs)
  case (Cons e es)
  then show ?case by (cases e) (auto split: if_splits)
qed simp

interpretation decisions: machine_invariant "start D0" "step lag D0 VI key ckey" "all_recorded D0"
  for lag D0 VI key ckey
proof
  show "all_recorded D0 w" if "start D0 w" for w
    using that by (auto simp: start_def all_recorded_def prior_def)
  show "all_recorded D0 w'" if inv: "all_recorded D0 w" and "step lag D0 VI key ckey w w'" for w w'
    using that(2)
  proof cases
    case (decides D C K br now effs res stored)
    have new: "(sl, ref, b) \<in> set (commitsOf D C br effs) \<Longrightarrow> b \<in> set (versions w) \<and> sl = slotFor (deriveBRState D0 b)" for sl ref b
      using commitsOf_from [of sl ref b D C br effs] decides(6) compatible_view(6) [OF decides(2)] by auto
    have "prior stored = prior (conditional w) \<or>
      (\<exists>ref. (Decided (brc_Status stored), ref, br) \<in> set (commitsOf D C br effs) \<and> AppliedRef (brc_Status stored) = Some ref)"
      using decides(8)
    proof
      assume "\<exists>b \<in> set (patchedConditionals effs). stored = (conditional w)\<lparr>brc_Status := brc_Status b\<rparr>"
      then obtain b where "b \<in> set (patchedConditionals effs)" "brc_Status stored = brc_Status b"
        by auto
      with decides_recorded [OF compatible_view(1) [OF decides(2)] decides(3-5,7)] show ?thesis
        by (simp add: prior_def)
    qed simp
    then show ?thesis
      using inv new unfolding decides(1) all_recorded_def
      by (auto simp: prior_def)
  next
    case (loses D C K e now effs res stored)
    then have "prior stored = prior (conditional w)"
      using loses_prior [OF loses(3-5)] by (auto simp: prior_def)
    then show ?thesis
      using inv unfolding loses(1) by (simp add: all_recorded_def prior_def)
  qed (use inv in \<open>auto simp: all_recorded_def\<close>)
qed

section \<open>Properties\<close>

text \<open>
  C2: statuses stay sound. Whatever the validators, S3 and the API server answer, whatever is edited and whenever the
  operator restarts or loses a patch: as long as every reconcile of a repository reads its newest version, every status
  stored has its E2 and E4 times backed by a real result,
  its Healthy condition equal to the conjunction of its sub-conditions, and a claimed backup if it is Healthy.
\<close>

theorem lifecycle_sound:
  assumes "reached (start D0) (step False D0 VI key ckey) w" "br \<in> set (versions w)"
  shows "sound D0 br"
  using published.holds [OF assms(1)] assms(2) by (simp add: all_sound_def)

lemma slotFor_iff:
  "slotFor st = ''whenHealthy'' \<longleftrightarrow> st = brStateHealthy" "slotFor st = ''whenEmpty'' \<longleftrightarrow> st = brStateEmpty"
  by (cases st; simp add: slotFor_def)+

lemma recorded_commit:
  assumes "reached (start D0) (step lag D0 VI key ckey) w" "Decided (brc_Status (conditional w)) = sl" "sl \<noteq> []"
  shows "\<exists>ref br. (sl, ref, br) \<in> set (commits w) \<and> AppliedRef (brc_Status (conditional w)) = Some ref \<and>
    br \<in> set (versions w) \<and> slotFor (deriveBRState D0 br) = sl"
  using assms(2,3) decisions.holds [OF assms(1)] by (fastforce simp: all_recorded_def)

text \<open>
  C1: a recorded decision has a history. If the conditional says it decided for the healthy variant, the API server
  accepted the child it names, on a version of the repository that was Healthy, and that Healthy was sent by a run
  that had credentials, reached the repository, found its bucket secure and its newest backup recent enough. If it
  decided for the empty variant, the version it read had an inventory without objects and claimed no backup. Both
  hold however far the caches of either controller lag; without lag the latter version was not Healthy either.
\<close>

theorem lifecycle_decision:
  assumes "reached (start D0) (step lag D0 VI key ckey) w"
  shows "(Decided (brc_Status (conditional w)) = ''whenHealthy'' \<longrightarrow>
      (\<exists>ref br r. (''whenHealthy'', ref, br) \<in> set (commits w) \<and> AppliedRef (brc_Status (conditional w)) = Some ref \<and>
         br \<in> set (versions w) \<and> r \<in> set (runs w) \<and> vouched key r br)) \<and>
    (Decided (brc_Status (conditional w)) = ''whenEmpty'' \<longrightarrow>
      (\<exists>ref br. (''whenEmpty'', ref, br) \<in> set (commits w) \<and> AppliedRef (brc_Status (conditional w)) = Some ref \<and>
         br \<in> set (versions w) \<and> ClaimedLastSuccessfulBackup (Status br) = None \<and>
         map_option ObjectCount (ObservedInventory (Status br)) = Some 0 \<and>
         (lag \<or> status_of D0 (conds br) ConditionHealthy \<noteq> Some ConditionTrue)))"
proof -
  note e = evidence.holds [OF assms]
  show ?thesis
  proof (intro conjI impI)
    assume "Decided (brc_Status (conditional w)) = ''whenHealthy''"
    from recorded_commit [OF assms this] obtain ref br where c: "(''whenHealthy'', ref, br) \<in> set (commits w)"
      "AppliedRef (brc_Status (conditional w)) = Some ref" "br \<in> set (versions w)" "slotFor (deriveBRState D0 br) = ''whenHealthy''"
      by blast
    then have "status_of D0 (conds br) ConditionHealthy = Some ConditionTrue"
      using slotFor_iff(1) deriveBRState_cases(2) by blast
    with c e show "\<exists>ref br r. (''whenHealthy'', ref, br) \<in> set (commits w) \<and>
        AppliedRef (brc_Status (conditional w)) = Some ref \<and> br \<in> set (versions w) \<and> r \<in> set (runs w) \<and> vouched key r br"
      unfolding all_vouched_def by blast
  next
    assume "Decided (brc_Status (conditional w)) = ''whenEmpty''"
    from recorded_commit [OF assms this] obtain ref br where c: "(''whenEmpty'', ref, br) \<in> set (commits w)"
      "AppliedRef (brc_Status (conditional w)) = Some ref" "br \<in> set (versions w)" "slotFor (deriveBRState D0 br) = ''whenEmpty''"
      by blast
    moreover have "ClaimedLastSuccessfulBackup (Status br) = None"
      "map_option ObjectCount (ObservedInventory (Status br)) = Some 0"
      using c(4) slotFor_iff(2) deriveBRState_cases(1) by blast+
    moreover from this have "lag \<or> status_of D0 (conds br) ConditionHealthy \<noteq> Some ConditionTrue"
      using published.holds [of D0 VI key ckey w] assms c(3) by (cases lag) (auto simp: all_sound_def sound_def)
    ultimately show "\<exists>ref br. (''whenEmpty'', ref, br) \<in> set (commits w) \<and>
        AppliedRef (brc_Status (conditional w)) = Some ref \<and> br \<in> set (versions w) \<and>
        ClaimedLastSuccessfulBackup (Status br) = None \<and>
        map_option ObjectCount (ObservedInventory (Status br)) = Some 0 \<and>
        (lag \<or> status_of D0 (conds br) ConditionHealthy \<noteq> Some ConditionTrue)"
      by blast
  qed
qed

text \<open>
  C3: lag does not forge Healthy. However stale the versions are that the reconciles read and patch against, in every
  version ever stored Healthy equals the conjunction of the sub-conditions stored with it, and if it is
  True these conditions were sent by a run that had credentials, reached the repository, found its bucket secure and
  its newest backup recent enough.
\<close>

theorem lagging_healthy:
  assumes "reached (start D0) (step lag D0 VI key ckey) w" "br \<in> set (versions w)"
  shows "consistent D0 br \<and>
    (status_of D0 (conds br) ConditionHealthy = Some ConditionTrue \<longrightarrow> (\<exists>r \<in> set (runs w). vouched key r br))"
  using rollups.holds [OF assms(1)] evidence.holds [OF assms(1)] assms(2)
  by (auto simp: all_consistent_def all_vouched_def)

section \<open>A sample life\<close>

text \<open>
  A new repository whose first E2 Job has finished: its reconcile publishes Healthy, and the conditional of the sample
  then decides for its recovery variant.
\<close>

definition fresh_br :: BackupRepository where
  "fresh_br = sample_br\<lparr>Spec := sample_spec\<lparr>SampledRetrievalInterval := None\<rparr>\<rparr>"

definition fresh_kube :: kube where
  "fresh_kube = (sample_kube_br fresh_br)\<lparr>listJobs := (\<lambda>ns ls.
     Inr (if map_of ls labelLevel = Some labelLevelE2 then [sample_job ''a'' JobComplete sample_now] else []))\<rparr>"

lemma fresh_parts:
  "resolveCredentials sample_deps fresh_kube fresh_br = Inr sample_creds"
  "(case runLevels sample_deps sample_images fresh_kube (frozen sample_now) fresh_br sample_creds (forceGates fresh_br) of
      Ret (effs, e2, e3, e4, br') \<Rightarrow> map_option cStatus (e2_completedResult e2) = Some ConditionTrue \<and> \<not> e4_jobActive e4 \<and>
        e3_completedResult e3 = None \<and> e4_completedResult e4 = None | Panic \<Rightarrow> False)"
  "(let p = probeRepository sample_deps (Spec fresh_br) sample_creds in
      pr_Reachable p \<and> pr_BucketSecurityValid p \<and> LastSuccessfulBackup p = Some (sample_now - Hour))"
  "honoredForce (forceGates fresh_br) = None" "honoredForceE4 (forceGates fresh_br) = None"
  "fg_e4 (forceGates fresh_br) = False"
  by code_simp+

lemma fresh_next:
  assumes "e2_completedResult e2 = Some c" "cStatus c = ConditionTrue" "\<not> e4_jobActive e4" "e3_completedResult e3 = None"
    "e4_completedResult e4 = None"
    "pr_Reachable p" "pr_BucketSecurityValid p" "LastSuccessfulBackup p = Some (sample_now - Hour)"
  shows "status_of sample_deps (conds (nextStatus sample_deps sample_now fresh_br p e2 e3 e4 None None)) ConditionHealthy =
    Some ConditionTrue"
proof -
  have v: "Spec fresh_br = sample_spec\<lparr>SampledRetrievalInterval := None\<rparr>"
    "LastFullRetrieval (Status fresh_br) = None" "VerifiedLastSampledRetrievalAt (Status fresh_br) = None"
    by (simp_all add: fresh_br_def sample_br_def sample_status_def)
  have s: "ExpectedSizeBudget sample_spec = None" "FullRetrievalInterval sample_spec = None" "MaxBackupLag sample_spec = 26 * Hour"
    by (simp_all add: sample_spec_def)
  have now: "Sub sample_now (sample_now - Hour) \<le> 26 * Hour"
    by code_simp
  show ?thesis
    unfolding nextStatus_eq Let_def
    by (rule applyConditions_healthyI [OF sample_deps_ok(1) conditionInputs.select_convs(1)
          conditionInputs.select_convs(2) conditionInputs.select_convs(3)])
       (use assms v s now in \<open>auto simp: recordE2_def recordE3_def recordE4_def recordProbe_def touch_def
          e4Meaningful_def ifReachable_def computeBackupCurrent_def cond_simps Let_def\<close>)
qed

lemma fresh_run:
  "\<exists>mem effs res b. Reconcile sample_deps sample_images fresh_kube (frozen sample_now) sample_req Map.empty =
     Ret (mem, effs, res) \<and> patched effs = [b] \<and> status_of sample_deps (conds b) ConditionHealthy = Some ConditionTrue"
proof -
  let ?p = "probeRepository sample_deps (Spec fresh_br) sample_creds"
  obtain levels e2 e3 e4 br' where
    l: "runLevels sample_deps sample_images fresh_kube (frozen sample_now) fresh_br sample_creds (forceGates fresh_br) =
      Ret (levels, e2, e3, e4, br')"
    and o: "map_option cStatus (e2_completedResult e2) = Some ConditionTrue" "\<not> e4_jobActive e4"
      "e3_completedResult e3 = None" "e4_completedResult e4 = None"
    using fresh_parts(2) by (auto split: go.splits)
  from o(1) obtain c where c: "e2_completedResult e2 = Some c" "cStatus c = ConditionTrue"
    by auto
  have br': "br' = fresh_br"
    using runLevels_unforced [OF l] fresh_parts(6) by simp
  let ?b = "nextStatus sample_deps sample_now fresh_br ?p e2 e3 e4 None None"
  have healthy: "status_of sample_deps (conds ?b) ConditionHealthy = Some ConditionTrue"
    using fresh_next [OF c o(2-4)] fresh_parts(3) by (simp add: Let_def)
  have "getBackupRepository fresh_kube sample_req = Inr fresh_br" "patchStatus fresh_kube = (\<lambda>b br. Inr br)"
    "now_status (frozen sample_now) = sample_now"
    by (simp_all add: fresh_kube_def sample_kube_br_def sample_kube_def frozen_def)
  then have "\<exists>mem effs res. Reconcile sample_deps sample_images fresh_kube (frozen sample_now) sample_req Map.empty =
      Ret (mem, effs, res) \<and> patched effs = [?b]"
    using l fresh_parts(1,4,5) br' patched_runLevels [OF l]
    by (auto simp: Reconcile_def validateAndPublish_def applyStatus_def Let_def)
  with healthy show ?thesis
    by blast
qed

abbreviation sample_reached :: "world \<Rightarrow> bool" where
  "sample_reached \<equiv>
     reached (start sample_deps) (step False sample_deps sample_images sample_req (ConditionalKey sample_conditional))"

lemma sample_life:
  "\<exists>w br. sample_reached w \<and> br \<in> set (versions w) \<and>
     status_of sample_deps (conds br) ConditionHealthy = Some ConditionTrue \<and>
     Decided (brc_Status (conditional w)) = ''whenHealthy''"
proof -
  let ?w0 = "\<lparr>versions = [fresh_br], memory = Map.empty, conditional = sample_conditional, runs = [], commits = []\<rparr>"
  have c: "compatible sample_deps sample_deps"
    by (simp add: compatible_def)
  have w0: "sample_reached ?w0"
    by (rule begins)
       (simp add: start_def fresh_br_def sample_br_def sample_status_def view_def sample_deps_def prior_def
          sample_conditional_def fun_eq_iff)
  obtain mem effs res b where run: "Reconcile sample_deps sample_images fresh_kube (frozen sample_now) sample_req Map.empty =
     Ret (mem, effs, res)" "patched effs = [b]" "status_of sample_deps (conds b) ConditionHealthy = Some ConditionTrue"
    using fresh_run by blast
  let ?br = "fresh_br\<lparr>Status := on_wire (Status b)\<rparr>"
  let ?w1 = "?w0\<lparr>versions := [?br] @ versions ?w0, memory := mem,
    runs := \<lparr>run_deps = sample_deps, run_kube = fresh_kube, run_clock = frozen sample_now, run_effects = effs\<rparr> # runs ?w0\<rparr>"
  have w1: "sample_reached ?w1"
    by (rule moves [OF w0], rule reconciles [OF _ c, where vs = "[]" and K = fresh_kube and clk = "frozen sample_now" and res = res])
       (use run in \<open>auto simp: fresh_kube_def sample_kube_br_def stores_def merges_current\<close>)
  have healthy: "deriveBRState sample_deps ?br = brStateHealthy"
    using run(3) published.holds [OF w1] by (simp add: deriveBRState_cases all_sound_def sound_def)
  let ?K = "sample_kube_br ?br"
  obtain effs' res' where run': "ReconcileConditional sample_deps ?K sample_conditional_client 7 (ConditionalKey sample_conditional) =
    (effs', res')"
    by (rule prod.exhaust)
  have "realizes sample_deps sample_conditional_client 7 sample_conditional
    (Commit ''whenHealthy'' sample_child sample_child) (effs', res')"
    using ReconcileConditional_realizes [OF sample_deps_ok(1) sample_client_laws(1,4), of ?K ?br 7] run'
      sample_decision_healthy [OF healthy]
    by (simp add: sample_kube_br_def)
  then obtain b' where b': "b' \<in> set (patchedConditionals effs')" "Decided (brc_Status b') = ''whenHealthy''"
    by (auto simp: realizes_def applies_def prior_def)
  let ?w2 = "?w1\<lparr>conditional := sample_conditional\<lparr>brc_Status := brc_Status b'\<rparr>,
    commits := commitsOf sample_deps sample_conditional_client ?br effs' @ commits ?w1\<rparr>"
  have "sample_reached ?w2"
    by (rule moves [OF w1], rule decides [OF c, where K = ?K and now = 7 and res = res'])
       (use b'(1) run' in \<open>auto simp: sample_kube_br_def\<close>)
  then show ?thesis
    using run(3) b'(2) by (intro exI [of _ ?w2] exI [of _ ?br]) simp
qed

theorem lifecycle_sound_witness:
  "\<exists>w br. sample_reached w \<and> br \<in> set (versions w) \<and>
     status_of sample_deps (conds br) ConditionHealthy = Some ConditionTrue \<and> sound sample_deps br"
  using sample_life lifecycle_sound by blast

theorem lifecycle_decision_witness:
  "\<exists>w ref br r. sample_reached w \<and> AppliedRef (brc_Status (conditional w)) = Some ref \<and>
     br \<in> set (versions w) \<and> r \<in> set (runs w) \<and> vouched sample_req r br"
  using sample_life lifecycle_decision by blast

text \<open>The machine with lag can do all that the one without can.\<close>

lemma step_lag: "step False D0 VI key ckey w w' \<Longrightarrow> step True D0 VI key ckey w w'"
proof (induction rule: step.induct)
  case (reconciles w br vs D K clk mem effs res stored)
  have "stores True br effs stored"
    using reconciles(5) by (auto simp: stores_def)
  with reconciles(1-4) show ?case
    by (intro step.reconciles) auto
next
  case (edits w br vs g a s)
  then show ?case
    by (rule step.edits)
qed (auto intro: step.intros)

lemma reached_lag: "reached (start D0) (step False D0 VI key ckey) w \<Longrightarrow> reached (start D0) (step True D0 VI key ckey) w"
  by (induction rule: reached.induct) (auto intro: reached.intros step_lag)

theorem lagging_healthy_witness:
  "\<exists>w br. reached (start sample_deps)
       (step True sample_deps sample_images sample_req (ConditionalKey sample_conditional)) w \<and>
     br \<in> set (versions w) \<and> (\<exists>r \<in> set (runs w). vouched sample_req r br)"
  using sample_life reached_lag lagging_healthy by blast

end
