(* ===== verification/Progress.thy ===== *)
theory Progress
  imports Lifecycle
begin

text \<open>
  What a reconcile is bound to do: a due metadata validation gets its Job, and a finished Job is recorded. The last
  section holds corners where the code does something other than its comments say: a
  validation run twice, a failed full retrieval that leaves no trace, a forced one that is never recorded, and a result
  lost to a stale read.
\<close>

section \<open>Starting a due validation\<close>

text \<open>An API server that accepts every Job of the repository, or has it already.\<close>

definition cooperative :: "kube \<Rightarrow> BackupRepository \<Rightarrow> bool" where
  "cooperative K br \<longleftrightarrow> owner_ok K \<and> (\<forall>j. (\<exists>j'. setJobOwner K br j = Inr j') \<and> accepted K j)"

lemma owner_keeps:
  assumes "owner_ok K" "setJobOwner K br j = Inr j'"
  shows "j_Name j' = j_Name j" "j_Conditions j' = j_Conditions j"
proof -
  obtain ow where "j' = j\<lparr>j_Owner := ow\<rparr>"
    using assms unfolding owner_ok_def by blast
  then show "j_Name j' = j_Name j" "j_Conditions j' = j_Conditions j"
    by simp_all
qed

lemma submitJob_succeeds:
  assumes "cooperative K br"
  shows "\<exists>j'. submitJob K br msg j = ([CreateJob j'], Inr j') \<and> j_Name j' = j_Name j"
proof -
  obtain j' where j': "setJobOwner K br j = Inr j'" "accepted K j'"
    using assms unfolding cooperative_def by blast
  moreover have "j_Name j' = j_Name j"
    using assms owner_keeps(1) [OF _ j'(1)] by (simp add: cooperative_def)
  ultimately show ?thesis
    by (auto simp: submitJob_def accepted_def split: option.splits)
qed

lemma spawnE2Job_succeeds:
  assumes "cooperative K br" "validatorImageFor D VI (Format (Spec br)) = Inr img"
  obtains j where "spawnE2Job D VI K now br = ([CreateJob j], Inr j)" "hardened br labelLevelE2 j"
    "j_Name j = e2JobName D br now"
proof -
  obtain j where j: "spawnE2Job D VI K now br = ([CreateJob j], Inr j)" "j_Name j = e2JobName D br now"
    using submitJob_succeeds [OF assms(1)] assms(2) by (fastforce simp: spawnE2Job_def validatorJob_def Let_def)
  moreover have "hardened br labelLevelE2 j"
    using spawn_outcome_contract(2) [of K br labelLevelE2 "[CreateJob j]" "Inr j"] spawnE2_outcome [of K br D VI now] j
      assms(1) by (simp add: cooperative_def)
  ultimately show thesis
    by (intro that)
qed

lemma processE2_starts:
  assumes "listE2Jobs K br = Inr jobs" "\<not> inFlight jobs" "e2Due clk br force"
    and "cooperative K br" "validatorImageFor D VI (Format (Spec br)) = Inr img"
  obtains effs out j where "processE2 D VI K clk br force = (effs, out)" "e2_jobActive out"
    "createdJobs effs = [j]" "hardened br labelLevelE2 j" "j_Name j = e2JobName D br (now_e2_name clk)"
proof -
  obtain j where j: "spawnE2Job D VI K (now_e2_name clk) br = ([CreateJob j], Inr j)" "hardened br labelLevelE2 j"
    "j_Name j = e2JobName D br (now_e2_name clk)"
    by (rule spawnE2Job_succeeds [OF assms(4,5)])
  obtain effs out where p: "processE2 D VI K clk br force = (effs, out)"
    by fastforce
  have "createdJobs effs = [j]" "e2_jobActive out"
    using processE2_eqs(2) [OF assms(1) p] assms(2,3) j(1) by (simp_all add: launch_def)
  with p j(2,3) show thesis
    by (intro that)
qed

lemma runLevels_busy:
  assumes "processE2 D VI K clk br (fg_e2 g) = (effs, e2)" "e2_jobActive e2"
  shows "runLevels D VI K clk br creds g = Ret (effs, e2, noE3, noE4, br)"
  using assms by (simp add: runLevels_def)

lemma Reconcile_starts_E2:
  assumes "getBackupRepository K req = Inr br" "resolveCredentials D K br = Inr creds"
    and "listE2Jobs K br = Inr jobs" "\<not> inFlight jobs" "e2Due clk br (fg_e2 (forceGates br))"
    and "validatorImageFor D VI (Format (Spec br)) = Inr img" "cooperative K br"
  shows "\<exists>seen' effs res j. Reconcile D VI K clk req seen = Ret (seen', effs, res) \<and>
    createdJobs effs = [j] \<and> hardened br labelLevelE2 j"
proof -
  obtain effs e2 j where p: "processE2 D VI K clk br (fg_e2 (forceGates br)) = (effs, e2)" "e2_jobActive e2"
    "createdJobs effs = [j]" "hardened br labelLevelE2 j"
    by (rule processE2_starts [OF assms(3-5,7,6)])
  have "\<exists>effs' res. validateAndPublish D VI K clk br creds = Ret (effs', res) \<and> createdJobs effs' = [j]"
    using p(3) by (auto simp: validateAndPublish_def runLevels_busy [OF p(1,2)] applyStatus_def Let_def split: sum.split)
  with assms(1,2) p(4) show ?thesis
    by (auto simp: Reconcile_def)
qed

text \<open>
  A due validation is started. If the credentials can be read, no E2 Job is in flight, the repository was never
  validated or its interval has passed, a validator image is configured and the API server accepts the Job, the
  reconcile returns and its one new Job is an E2 Job of the repository with all safeguards.
\<close>

theorem due_validation_starts:
  assumes "getBackupRepository K req = Inr br" "resolveCredentials D K br = Inr creds"
    and "listE2Jobs K br = Inr jobs" "\<forall>j \<in> set jobs. \<not> jobInFlight j"
    and "case VerifiedLastValidationAt (Status br) of None \<Rightarrow> True
      | Some t \<Rightarrow> MetadataValidationInterval (Spec br) \<le> Sub (now_e2 clk) t"
    and "validatorImageFor D VI (Format (Spec br)) = Inr img" "cooperative K br"
  shows "\<exists>seen' effs res j. Reconcile D VI K clk req seen = Ret (seen', effs, res) \<and>
    createdJobs effs = [j] \<and> hardened br labelLevelE2 j"
proof -
  have "e2Due clk br (fg_e2 (forceGates br))" "\<not> inFlight jobs"
    using assms(4,5) by (auto simp: e2Due_def shouldSpawnE2_def firstActiveJob_None split: option.splits)
  then show ?thesis
    using Reconcile_starts_E2 [OF assms(1-3) _ _ assms(6,7)] by blast
qed

lemma fresh_jobs: "listE2Jobs fresh_kube fresh_br = Inr [sample_job ''a'' JobComplete sample_now]"
  by (simp add: listE2Jobs_def fresh_kube_def levelLabels_def labels_neq labels_neq [symmetric])

lemma fresh_lookup: "getBackupRepository fresh_kube sample_req = Inr fresh_br"
  by (simp add: fresh_kube_def sample_kube_br_def)

lemma fresh_job_facts:
  "\<not> jobInFlight (sample_job ''a'' JobComplete sample_now)" "VerifiedLastValidationAt (Status fresh_br) = None"
  "jobCompletionTime (sample_job ''a'' JobComplete sample_now) = sample_now" "jobSucceeded (sample_job ''a'' JobComplete sample_now)"
  by code_simp+

theorem due_validation_starts_witness:
  "\<exists>seen' effs res j. Reconcile sample_deps sample_images fresh_kube (frozen sample_now) sample_req Map.empty =
     Ret (seen', effs, res) \<and> createdJobs effs = [j] \<and> hardened fresh_br labelLevelE2 j"
proof (rule due_validation_starts)
  show "getBackupRepository fresh_kube sample_req = Inr fresh_br"
    by (rule fresh_lookup)
  show "resolveCredentials sample_deps fresh_kube fresh_br = Inr sample_creds"
    by (rule fresh_parts(1))
  show "listE2Jobs fresh_kube fresh_br = Inr [sample_job ''a'' JobComplete sample_now]"
    by (rule fresh_jobs)
  show "\<forall>j \<in> set [sample_job ''a'' JobComplete sample_now]. \<not> jobInFlight j"
    by code_simp
  show "case VerifiedLastValidationAt (Status fresh_br) of None \<Rightarrow> True
    | Some t \<Rightarrow> MetadataValidationInterval (Spec fresh_br) \<le> Sub (now_e2 (frozen sample_now)) t"
    by code_simp
  show "validatorImageFor sample_deps sample_images (Format (Spec fresh_br)) = Inr (Walg sample_images)"
    by code_simp
  show "cooperative fresh_kube fresh_br"
    by (auto simp: cooperative_def owner_ok_def accepted_def fresh_kube_def sample_kube_br_def sample_kube_def)
qed

section \<open>Recording a finished validation\<close>

lemma newResult_Some:
  assumes "sorts (SortJobs D)" "j \<in> set jobs" "\<not> jobInFlight j" "\<forall>m. marker = Some m \<longrightarrow> m < jobCompletionTime j"
  obtains k where "newResult D jobs marker = Some k" "k \<in> set jobs" "jobCompletionTime j \<le> jobCompletionTime k"
proof -
  obtain k where p: "pickLatestCompletedJob D jobs = Some k"
    using pickLatest_None [OF assms(1), of jobs] assms(2,3) by (cases "pickLatestCompletedJob D jobs") auto
  note k = pickLatest_Some [OF assms(1) p]
  have "newResult D jobs marker = Some k"
    using p k(3) [OF assms(2,3)] assms(4) by (auto simp: newResult_def After_def split: option.split)
  with k assms(2,3) that show thesis
    by blast
qed

lemma newResult_finished: "sorts (SortJobs D) \<Longrightarrow> newResult D jobs m = Some k \<Longrightarrow> \<not> jobInFlight k"
  by (auto simp: newResult_def Let_def dest: pickLatest_Some(2) split: option.splits if_splits)

lemma validation_recorded:
  assumes "conditions_ok D" "sorts (SortJobs D)"
    and "getBackupRepository K req = Inr br" "resolveCredentials D K br = Inr creds"
    and "listE2Jobs K br = Inr jobs" "j \<in> set jobs" "\<not> jobInFlight j"
    and "\<forall>m. VerifiedLastValidationAt (Status br) = Some m \<longrightarrow> m < jobCompletionTime j"
    and "Reconcile D VI K clk req seen = Ret (seen', effs, res)"
  shows "\<exists>b. PatchStatus b \<in> set effs \<and> (\<exists>k \<in> set jobs. \<not> jobInFlight k \<and> VerifiedLastValidationAt (Status b) = Some (jobCompletionTime k) \<and>
    jobCompletionTime j \<le> jobCompletionTime k \<and>
    status_of D (conds b) ConditionMetadataValid = Some (if jobSucceeded k then ConditionTrue else ConditionFalse))"
proof -
  obtain k where k: "newResult D jobs (VerifiedLastValidationAt (Status br)) = Some k" "k \<in> set jobs"
    "jobCompletionTime j \<le> jobCompletionTime k"
    by (rule newResult_Some [OF assms(2,6-8)])
  from assms(9) show ?thesis
  proof (cases rule: Reconcile_patched)
    case (result br0 creds0 levels e2 e3 e4 br')
    let ?b = "nextStatus D (now_status clk) br' (probeRepository D (Spec br0) creds0) e2 e3 e4
      (honoredForce (forceGates br0)) (honoredForceE4 (forceGates br0))"
    have same: "br0 = br" "creds0 = creds"
      using result(1,2) assms(3,4) by simp_all
    obtain effs2 where p: "processE2 D VI K clk br (fg_e2 (forceGates br)) = (effs2, e2)"
      using result(3) same by (cases rule: runLevels_cases) auto
    have e2: "e2_completedResult e2 = Some (fst (ingestE2Result D K br k))" "e2_completedAt e2 = Some (jobCompletionTime k)"
      using processE2_eqs(1,3) [OF assms(5) p] k(1) by simp_all
    have marker: "VerifiedLastValidationAt (Status ?b) = Some (jobCompletionTime k)"
      using e2 unfolding nextStatus_eq Let_def by (simp add: recordE2_def)
    have "view D (conds ?b) ConditionMetadataValid = Some (core (fst (ingestE2Result D K br k)))"
      using e2(1) unfolding nextStatus_eq Let_def
      by (intro view_applyConditions_levels(2) [OF assms(1)]) (simp add: recordE2_def)
    then have "status_of D (conds ?b) ConditionMetadataValid = Some (if jobSucceeded k then ConditionTrue else ConditionFalse)"
      by (simp add: status_of_def core_def ingestE2Result_def cond_defs Let_def)
    moreover have "PatchStatus ?b \<in> set effs"
      using result(4) by (simp add: patched_iff [symmetric])
    ultimately show ?thesis
      using marker k(2,3) newResult_finished [OF assms(2) k(1)] by blast
  qed (use assms(3,4) in auto)
qed

text \<open>
  A finished validation is recorded. If some E2 Job finished after the recorded time, the status a returning
  reconcile sends carries a time at least as late, and MetadataValid is then True or False according to whether
  the Job of that time succeeded.
\<close>

theorem finished_validation_recorded:
  assumes "conditions_ok D" "sorts (SortJobs D)"
    and "getBackupRepository K req = Inr br" "resolveCredentials D K br = Inr creds"
    and "listE2Jobs K br = Inr jobs" "j \<in> set jobs" "\<not> jobInFlight j"
    and "\<forall>m. VerifiedLastValidationAt (Status br) = Some m \<longrightarrow> m < jobCompletionTime j"
    and "Reconcile D VI K clk req seen = Ret (seen', effs, res)"
  shows "\<exists>b. PatchStatus b \<in> set effs \<and> (\<exists>k \<in> set jobs. VerifiedLastValidationAt (Status b) = Some (jobCompletionTime k) \<and>
    jobCompletionTime j \<le> jobCompletionTime k \<and>
    status_of D (conds b) ConditionMetadataValid = Some (if jobSucceeded k then ConditionTrue else ConditionFalse))"
  using validation_recorded [OF assms] by blast

theorem finished_validation_recorded_witness:
  "\<exists>seen' effs res b. Reconcile sample_deps sample_images fresh_kube (frozen sample_now) sample_req Map.empty =
     Ret (seen', effs, res) \<and> PatchStatus b \<in> set effs \<and> VerifiedLastValidationAt (Status b) = Some sample_now \<and>
     status_of sample_deps (conds b) ConditionMetadataValid = Some ConditionTrue"
proof -
  obtain seen' effs res where
    run: "Reconcile sample_deps sample_images fresh_kube (frozen sample_now) sample_req Map.empty = Ret (seen', effs, res)"
    using fresh_run by blast
  from finished_validation_recorded [OF sample_deps_ok(1,2) fresh_lookup fresh_parts(1) fresh_jobs _ fresh_job_facts(1) _ run]
  show ?thesis
    using run by (auto simp: fresh_job_facts)
qed

text \<open>The retrievals' outcomes after a finished Job, when the level is reached in this cycle.\<close>

lemma processE3_finished:
  assumes "listE3Jobs K br = Inr jobs" "processE3 D VI K clk br creds force = Ret (effs, out)"
    and "SampledRetrievalInterval (Spec br) \<noteq> None"
    and "newResult D jobs (VerifiedLastSampledRetrievalAt (Status br)) = Some k"
  shows "e3_completedResult out = Some (ingestE3Result K k) \<and> e3_completedAt out = Some (jobCompletionTime k)"
proof -
  obtain effs0 o0 where c: "collectE3 D K br jobs = (effs0, o0)"
    by fastforce
  have "e3_completedAt out = e3_completedAt o0"
    using assms(1-3) c by (auto simp: processE3_def go_simps split: if_splits prod.splits sum.splits; metis sum.exhaust)
  then show ?thesis
    using processE3_eqs(1) [OF assms(1-3)] collectE3_fields(4) [OF c] assms(4) by simp
qed

lemma processE4_finished:
  assumes "listE4Jobs K br = Inr jobs" "processE4 D VI K clk br force = Ret (effs, out, br')"
    and "newResult D jobs (map_option CompletedAt (LastFullRetrieval (Status br))) = Some k"
    and "parseE4Stats (readJobOutput K k) = Some s"
  shows "\<exists>s'. e4_completedResult out = Some (fst (ingestE4Result K k)) \<and> e4_stats out = Some s' \<and>
    CompletedAt s' = jobCompletionTime k"
proof -
  obtain effs0 o0 where c: "collectE4 D K br jobs = (effs0, o0)"
    by fastforce
  have "e4_stats out = e4_stats o0"
    using assms(1,2) c
    by (auto simp: processE4_def go_simps Let_def split: if_splits prod.splits sum.splits option.splits; metis sum.exhaust)
  moreover have "\<exists>s'. e4_stats o0 = Some s' \<and> CompletedAt s' = jobCompletionTime k"
    using c assms(3,4) by (auto simp: collectE4_def ingestE4Result_def Let_def split: prod.splits if_splits)
  ultimately show ?thesis
    using processE4_eqs(1) [OF assms(1,2)] assms(3) by simp
qed

lemma record_result:
  "e3_completedResult e3 = Some c \<Longrightarrow> snd (recordE3 D e3 br) = Some c"
  "e3_completedResult e3 = Some c \<Longrightarrow>
     VerifiedLastSampledRetrievalAt (Status (fst (recordE3 D e3 br))) = e3_completedAt e3"
  "e4_completedResult e4 = Some c \<Longrightarrow> snd (recordE4 D e4 br) = Some c"
  "e4_completedResult e4 = Some c \<Longrightarrow> e4_stats e4 = Some s \<Longrightarrow> LastFullRetrieval (Status (fst (recordE4 D e4 br))) = Some s"
  by (simp_all add: recordE3_def recordE4_def)

lemma nextStatus_retrievals:
  assumes "conditions_ok D" "b = nextStatus D now br p e2 e3 e4 h h4"
  shows "e3_completedResult e3 = Some c \<Longrightarrow> VerifiedLastSampledRetrievalAt (Status b) = e3_completedAt e3"
    "e3_completedResult e3 = Some c \<Longrightarrow> SampledRetrievalInterval (Spec b) \<noteq> None \<Longrightarrow>
       status_of D (conds b) ConditionSampledIntegrityValid = Some (cStatus c)"
    "e4_completedResult e4 = Some c \<Longrightarrow> e4_stats e4 = Some s \<Longrightarrow> LastFullRetrieval (Status b) = Some s"
    "e4_completedResult e4 = Some c \<Longrightarrow> e4_stats e4 = Some s \<Longrightarrow>
       status_of D (conds b) ConditionFullRetrievalCompleted = Some (cStatus c)"
  unfolding assms(2) nextStatus_eq Let_def status_of_def
  by (simp_all add: record_result e4Meaningful_def view_applyConditions_levels(3,4) [OF assms(1)] core_def)

text \<open>The newest finished retrieval, with its time and verdict in the status.\<close>

abbreviation sampled_recorded :: "deps \<Rightarrow> BackupRepository \<Rightarrow> Job list \<Rightarrow> Job \<Rightarrow> bool" where
  "sampled_recorded D b jobs j \<equiv>
     (\<exists>k\<in>set jobs. jobCompletionTime j \<le> jobCompletionTime k \<and>
        VerifiedLastSampledRetrievalAt (Status b) = Some (jobCompletionTime k) \<and>
        status_of D (conds b) ConditionSampledIntegrityValid =
          Some (if jobSucceeded k then ConditionTrue else ConditionFalse))"

abbreviation full_recorded :: "deps \<Rightarrow> BackupRepository \<Rightarrow> Job list \<Rightarrow> Job \<Rightarrow> bool" where
  "full_recorded D b jobs j \<equiv>
     (\<exists>k\<in>set jobs. jobCompletionTime j \<le> jobCompletionTime k \<and>
        map_option CompletedAt (LastFullRetrieval (Status b)) = Some (jobCompletionTime k) \<and>
        status_of D (conds b) ConditionFullRetrievalCompleted =
          Some (if jobSucceeded k then ConditionTrue else ConditionFalse))"

lemma sampled_recordedI:
  assumes "conditions_ok D" "sorts (SortJobs D)" "processE3 D VI K clk br creds f = Ret (effs, e3)"
    and b: "b = nextStatus D now br' p e2 e3 e4 h h4"
    and "SampledRetrievalInterval (Spec br) \<noteq> None" "SampledRetrievalInterval (Spec b) \<noteq> None"
    and "listE3Jobs K br = Inr jobs" "j \<in> set jobs" "\<not> jobInFlight j"
    and "\<forall>m. VerifiedLastSampledRetrievalAt (Status br) = Some m \<longrightarrow> m < jobCompletionTime j"
  shows "sampled_recorded D b jobs j"
proof -
  obtain k where k: "newResult D jobs (VerifiedLastSampledRetrievalAt (Status br)) = Some k" "k \<in> set jobs"
    "jobCompletionTime j \<le> jobCompletionTime k"
    by (rule newResult_Some [OF assms(2,8-10)])
  with processE3_finished [OF assms(7,3,5) k(1)] nextStatus_retrievals(1,2) [OF assms(1) b] assms(6) ingest_status(2)
  show ?thesis
    by auto
qed

lemma full_recordedI:
  assumes "conditions_ok D" "sorts (SortJobs D)" "processE4 D VI K clk br f = Ret (effs, e4, br'')"
    and b: "b = nextStatus D now br' p e2 e3 e4 h h4"
    and "listE4Jobs K br = Inr jobs" "j \<in> set jobs" "\<not> jobInFlight j"
    and "\<forall>m. map_option CompletedAt (LastFullRetrieval (Status br)) = Some m \<longrightarrow> m < jobCompletionTime j"
    and stats: "\<forall>k\<in>set jobs. \<not> jobInFlight k \<longrightarrow> parseE4Stats (readJobOutput K k) \<noteq> None"
  shows "full_recorded D b jobs j"
proof -
  obtain k where k: "newResult D jobs (map_option CompletedAt (LastFullRetrieval (Status br))) = Some k" "k \<in> set jobs"
    "jobCompletionTime j \<le> jobCompletionTime k"
    by (rule newResult_Some [OF assms(2,6-8)])
  obtain s where "parseE4Stats (readJobOutput K k) = Some s"
    using stats k(1,2) newResult_finished [OF assms(2) k(1)] by blast
  with processE4_finished [OF assms(5,3) k(1)] nextStatus_retrievals(3,4) [OF assms(1) b] k(2,3) ingest_status(3)
  show ?thesis
    by fastforce
qed

text \<open>
  C16: finished retrievals are recorded as soon as their level is reached. In a reconcile that returns and has no E2 Job
  in flight, a sampled retrieval that finished after the recorded one leaves its time and its verdict in the status,
  as long as sampling is on; and if no E3 Job is in flight either, so does a full retrieval, provided that every
  finished E4 Job printed statistics that can be parsed. A Job that is not the newest yields to the newest.
\<close>

theorem finished_retrievals_recorded:
  assumes "conditions_ok D" "sorts (SortJobs D)"
    and "getBackupRepository K req = Inr br" "resolveCredentials D K br = Inr creds"
    and "runLevels D VI K clk br creds (forceGates br) = Ret (levels, e2, e3, e4, br')" "\<not> e2_jobActive e2"
    and "Reconcile D VI K clk req seen = Ret (seen', effs, res)"
  shows "\<exists>b. PatchStatus b \<in> set effs \<and> Spec b = Spec br' \<and>
    (\<forall>jobs j. SampledRetrievalInterval (Spec br) \<noteq> None \<and> SampledRetrievalInterval (Spec b) \<noteq> None \<and>
       listE3Jobs K br = Inr jobs \<and> j \<in> set jobs \<and> \<not> jobInFlight j \<and>
       (\<forall>m. VerifiedLastSampledRetrievalAt (Status br) = Some m \<longrightarrow> m < jobCompletionTime j) \<longrightarrow>
       sampled_recorded D b jobs j) \<and>
    (\<forall>jobs j. \<not> e3_jobActive e3 \<and> listE4Jobs K br = Inr jobs \<and> j \<in> set jobs \<and> \<not> jobInFlight j \<and>
       (\<forall>m. map_option CompletedAt (LastFullRetrieval (Status br)) = Some m \<longrightarrow> m < jobCompletionTime j) \<and>
       (\<forall>k\<in>set jobs. \<not> jobInFlight k \<longrightarrow> parseE4Stats (readJobOutput K k) \<noteq> None) \<longrightarrow>
       full_recorded D b jobs j)"
  using assms(7)
proof (cases rule: Reconcile_patched)
  case (result br0 creds0 levels0 f2 f3 f4 br0')
  let ?g = "forceGates br"
  define b where "b = nextStatus D (now_status clk) br' (probeRepository D (Spec br) creds) e2 e3 e4
    (honoredForce ?g) (honoredForceE4 ?g)"
  have "br0 = br" "creds0 = creds"
    using result(1,2) assms(3,4) by simp_all
  then have "PatchStatus b \<in> set effs"
    using result(3,4) assms(5) by (simp add: b_def patched_iff [symmetric])
  moreover obtain effs3 effs4 where p3: "processE3 D VI K clk br creds (fg_e3 ?g) = Ret (effs3, e3)"
    and p4: "\<not> e3_jobActive e3 \<Longrightarrow> processE4 D VI K clk br (fg_e4 ?g) = Ret (effs4, e4, br')"
    using assms(5,6) by (cases rule: runLevels_cases) auto
  moreover have "Spec b = Spec br'"
    unfolding b_def nextStatus_eq Let_def by simp
  ultimately show ?thesis
    using sampled_recordedI [OF assms(1,2) p3 b_def] full_recordedI [OF assms(1,2) p4 b_def]
    by (intro exI [of _ b] conjI) blast+
qed (use assms(3,4) in auto)

lemma Reconcile_runs:
  assumes "getBackupRepository K req = Inr br" "resolveCredentials D K br = Inr creds"
    and "runLevels D VI K clk br creds (forceGates br) = Ret r"
  shows "\<exists>seen' effs res. Reconcile D VI K clk req seen = Ret (seen', effs, res)"
  using assms
  by (cases r) (auto simp: Reconcile_def validateAndPublish_def applyStatus_def Let_def split: sum.split)

text \<open>A restic repository that was validated just now, with a sampled retrieval that has finished.\<close>

definition sampled_br :: BackupRepository where
  "sampled_br = sample_br\<lparr>Spec := sample_spec\<lparr>Format := BackupFormatRestic\<rparr>,
     Status := sample_status\<lparr>VerifiedLastValidationAt := Some sample_now\<rparr>\<rparr>"

definition sampled_kube :: kube where
  "sampled_kube = (sample_kube_br sampled_br)\<lparr>listJobs := (\<lambda>ns ls.
     Inr (if map_of ls labelLevel = Some labelLevelE3 then [sample_job ''a'' JobComplete sample_now] else []))\<rparr>"

lemma sampled_facts:
  "resolveCredentials sample_deps sampled_kube sampled_br = Inr sample_creds"
  "e2_jobActive (snd (processE2 sample_deps sample_images sampled_kube (frozen sample_now) sampled_br False)) = False"
  "SampledRetrievalInterval (Spec sampled_br) = Some (24 * Hour)"
  "sampling_configured (Spec sampled_br)" "fg_e2 (forceGates sampled_br) = False" "fg_e4 (forceGates sampled_br) = False"
  "VerifiedLastSampledRetrievalAt (Status sampled_br) = None"
  by code_simp+

theorem finished_retrievals_recorded_witness:
  "\<exists>seen' effs res b. Reconcile sample_deps sample_images sampled_kube (frozen sample_now) sample_req Map.empty =
     Ret (seen', effs, res) \<and> PatchStatus b \<in> set effs \<and> VerifiedLastSampledRetrievalAt (Status b) = Some sample_now \<and>
     status_of sample_deps (conds b) ConditionSampledIntegrityValid = Some ConditionTrue"
proof -
  have get: "getBackupRepository sampled_kube sample_req = Inr sampled_br"
    by (simp add: sampled_kube_def sample_kube_br_def)
  have jobs: "listE3Jobs sampled_kube sampled_br = Inr [sample_job ''a'' JobComplete sample_now]"
    by (simp add: listE3Jobs_def sampled_kube_def levelLabels_def labels_neq labels_neq [symmetric])
  obtain levels e2 e3 e4 br' where
    l: "runLevels sample_deps sample_images sampled_kube (frozen sample_now) sampled_br sample_creds (forceGates sampled_br) =
      Ret (levels, e2, e3, e4, br')"
    using runLevels_returns [OF sampled_facts(4)] by (metis prod.exhaust)
  then have "\<not> e2_jobActive e2"
    using sampled_facts(2,5) by (cases rule: runLevels_cases) auto
  moreover have "br' = sampled_br"
    using runLevels_unforced [OF l] sampled_facts(6) by simp
  moreover obtain seen' effs res where
    run: "Reconcile sample_deps sample_images sampled_kube (frozen sample_now) sample_req Map.empty = Ret (seen', effs, res)"
    using Reconcile_runs [OF get sampled_facts(1) l] by blast
  ultimately show ?thesis
    using finished_retrievals_recorded [OF sample_deps_ok(1,2) get sampled_facts(1) l _ run] jobs sampled_facts(3,7)
    by (auto simp: fresh_job_facts)
qed

section \<open>Corners\<close>

text \<open>
  C36: a validation runs twice. \<^verbatim>\<open>processE2\<close> decides whether a run is due by the time recorded before this cycle. When
  the Job of a due validation has finished, the cycle that ingests its result therefore asks for another Job,
  although by the time it is about to record none is due before the interval has passed.
\<close>

theorem ingesting_cycle_respawns:
  assumes "sorts (SortJobs D)" "listE2Jobs K br = Inr jobs" "\<forall>j \<in> set jobs. \<not> jobInFlight j"
    and "j \<in> set jobs" "\<forall>m. VerifiedLastValidationAt (Status br) = Some m \<longrightarrow> m < jobCompletionTime j"
    and "shouldSpawnE2 br (now_e2 clk)" "validatorImageFor D VI (Format (Spec br)) = Inr img" "cooperative K br"
    and "\<forall>k \<in> set jobs. Sub (now_e2 clk) (jobCompletionTime k) < MetadataValidationInterval (Spec br)"
  shows "\<exists>effs out t new. processE2 D VI K clk br False = (effs, out) \<and> e2_completedResult out \<noteq> None \<and>
    e2_completedAt out = Some t \<and> createdJobs effs = [new] \<and>
    \<not> shouldSpawnE2 (br\<lparr>Status := (Status br)\<lparr>VerifiedLastValidationAt := Some t\<rparr>\<rparr>) (now_e2 clk)"
proof -
  have idle: "\<not> inFlight jobs" and due: "e2Due clk br False"
    using assms(3,6) by (simp_all add: firstActiveJob_None e2Due_def)
  obtain effs out new where p: "processE2 D VI K clk br False = (effs, out)" "createdJobs effs = [new]"
    by (rule processE2_starts [OF assms(2) idle due assms(8,7)])
  have "\<not> jobInFlight j"
    using assms(3,4) by blast
  then obtain k where k: "newResult D jobs (VerifiedLastValidationAt (Status br)) = Some k" "k \<in> set jobs"
    by (rule newResult_Some [OF assms(1,4) _ assms(5)])
  have "e2_completedResult out \<noteq> None" "e2_completedAt out = Some (jobCompletionTime k)"
    using processE2_eqs(1,3) [OF assms(2) p(1)] k(1) by simp_all
  moreover have "\<not> shouldSpawnE2 (br\<lparr>Status := (Status br)\<lparr>VerifiedLastValidationAt := Some (jobCompletionTime k)\<rparr>\<rparr>) (now_e2 clk)"
    using assms(9) k(2) by (simp add: shouldSpawnE2_def not_le)
  ultimately show ?thesis
    using p by blast
qed

lemma fresh_facts:
  "shouldSpawnE2 fresh_br (now_e2 (frozen sample_now))"
  "validatorImageFor sample_deps sample_images (Format (Spec fresh_br)) = Inr (Walg sample_images)"
  "Sub (now_e2 (frozen sample_now)) sample_now < MetadataValidationInterval (Spec fresh_br)"
  by code_simp+

lemma fresh_cooperative: "cooperative fresh_kube fresh_br"
  by (auto simp: cooperative_def owner_ok_def accepted_def fresh_kube_def sample_kube_br_def sample_kube_def)

theorem ingesting_cycle_respawns_witness:
  "\<exists>effs out new. processE2 sample_deps sample_images fresh_kube (frozen sample_now) fresh_br False = (effs, out) \<and>
     e2_completedResult out \<noteq> None \<and> createdJobs effs = [new]"
  using ingesting_cycle_respawns [OF sample_deps_ok(2) fresh_jobs _ _ _ fresh_facts(1,2) fresh_cooperative,
      of "sample_job ''a'' JobComplete sample_now"]
  by (fastforce simp: fresh_job_facts fresh_facts(3))

text \<open>
  C38: a failed full retrieval can vanish. If full retrieval is not scheduled, none was recorded before and no E4 Job is in flight, a Job
  that failed without printing its STATS line leaves no FullRetrievalCompleted condition and no record behind: its
  result is dropped, and the same Job counts as a new result in the next cycle.
\<close>

theorem failed_retrieval_unreported:
  assumes "conditions_ok D" "FullRetrievalInterval (Spec br) = None" "LastFullRetrieval (Status br) = None"
    and "listE4Jobs K br = Inr jobs" "newResult D jobs None = Some j" "\<not> jobSucceeded j" "\<not> inFlight jobs"
    and "parseE4Stats (readJobOutput K j) = None"
    and "processE4 D VI K clk br False = Ret (effs, e4, br')" "b = nextStatus D now br' p e2 e3 e4 h h4"
  shows "map_option cStatus (e4_completedResult e4) = Some ConditionFalse \<and>
    view D (conds b) ConditionFullRetrievalCompleted = None \<and> LastFullRetrieval (Status b) = None"
proof -
  have e4: "e4_completedResult e4 = Some (fst (ingestE4Result K j))" "e4_stats e4 = None" "\<not> e4_jobActive e4" "br' = br"
    using assms(2-5,7-9)
    by (auto simp: processE4_def collectE4_def noE4_def ingestE4Result_def Let_def split: if_splits prod.splits)
  let ?b1 = "recordProbe p h h4 (touch now br)"
  let ?b3 = "fst (recordE3 D e3 (fst (recordE2 D e2 ?b1)))"
  have rec: "fst (recordE4 D e4 ?b3) = ?b3\<lparr>Status := (Status ?b3)\<lparr>LastFullRetrieval := LastFullRetrieval (Status ?b3)\<rparr>\<rparr>"
    using e4(1,2) by (simp add: recordE4_def)
  obtain inp where b: "b = applyConditions D (fst (recordE4 D e4 ?b3)) inp" and inp: "\<not> e4JobActive inp"
    using assms(10) e4(3,4) unfolding nextStatus_eq Let_def by (metis conditionInputs.select_convs(9))
  have last: "LastFullRetrieval (Status (fst (recordE4 D e4 ?b3))) = None"
    using rec assms(3) by simp
  then have "\<not> e4Meaningful (fst (recordE4 D e4 ?b3)) inp"
    using assms(2) inp by (simp add: e4Meaningful_def)
  then have "view D (conds b) ConditionFullRetrievalCompleted = None"
    unfolding b using assms(1) by (simp add: view_subConditions subConditions_def cond_simps)
  moreover have "cStatus (fst (ingestE4Result K j)) = ConditionFalse"
    using assms(6) by (simp add: ingestE4Result_def cond_defs Let_def)
  ultimately show ?thesis
    using e4(1) last by (simp add: b)
qed

definition failed_kube :: kube where
  "failed_kube = sample_kube\<lparr>listJobs := (\<lambda>ns ls. Inr [sample_job ''x'' JobFailed 7])\<rparr>"

lemma failed_parts:
  "newResult sample_deps [sample_job ''x'' JobFailed 7] None = Some (sample_job ''x'' JobFailed 7)"
  "\<not> jobSucceeded (sample_job ''x'' JobFailed 7)" "\<not> inFlight [sample_job ''x'' JobFailed 7]"
  "parseE4Stats (readJobOutput failed_kube (sample_job ''x'' JobFailed 7)) = None"
  "FullRetrievalInterval (Spec sample_br) = None" "LastFullRetrieval (Status sample_br) = None"
  by code_simp+

theorem failed_retrieval_unreported_witness:
  "\<exists>effs e4 br'. processE4 sample_deps sample_images failed_kube (frozen 9) sample_br False = Ret (effs, e4, br') \<and>
     map_option cStatus (e4_completedResult e4) = Some ConditionFalse \<and>
     view sample_deps (conds (nextStatus sample_deps 9 br' (reachOnly True [] []) noE2 noE3 e4 None None))
       ConditionFullRetrievalCompleted = None"
proof -
  obtain effs e4 br' where run: "processE4 sample_deps sample_images failed_kube (frozen 9) sample_br False = Ret (effs, e4, br')"
    using processE4_returns by (metis prod.exhaust)
  have jobs: "listE4Jobs failed_kube sample_br = Inr [sample_job ''x'' JobFailed 7]"
    by (simp add: listE4Jobs_def failed_kube_def)
  from failed_retrieval_unreported [OF sample_deps_ok(1) failed_parts(5,6) jobs failed_parts(1-4) run refl,
      of 9 "reachOnly True [] []" noE2 noE3 None None] run
  show ?thesis
    by (intro exI conjI) auto
qed

text \<open>
  C39: a forced full retrieval is not recorded in \<^verbatim>\<open>status.lastForcedE4At\<close>. The cycle that starts the forced Job removes the
  annotation; the status it sends keeps the old value, the annotation is dead, and no later cycle records one
  unless the annotation comes back.
\<close>

theorem forced_run_unrecorded:
  assumes "resolveForceE4 br = Some ts" "fg_e4 (forceGates br)"
    and "listE4Jobs K br = Inr jobs" "\<not> inFlight jobs"
    and "FullRetrievalStorageClass (Spec br) \<noteq> None" "FullRetrievalPVCSize (Spec br) \<noteq> None"
    and "spawnE4Job D VI K (now_e4_name clk) br True = Ret (spawned, Inr job)"
    and "patchMetadata K br AnnotationForceE4 = Inr cleared"
    and "map_of (Annotations cleared) AnnotationForceE4 = None" "Status cleared = Status br"
    and "processE4 D VI K clk br (fg_e4 (forceGates br)) = Ret (effs, e4, br')"
    and "b = nextStatus D now br' p e2 e3 e4 h (honoredForceE4 (forceGates br))"
  shows "LastForcedE4At (Status b) = LastForcedE4At (Status br) \<and> resolveForceE4 b = None \<and>
    honoredForceE4 (forceGates b) = None"
proof -
  have "map_get (Annotations br) AnnotationForceE4 \<noteq> []"
    using assms(1) by (auto simp: resolveForceE4_def split: if_splits)
  then have ann: "map_of (Annotations br) AnnotationForceE4 \<noteq> None"
    by (auto simp: map_get_def split: option.splits)
  obtain ceffs out where c: "collectE4 D K br jobs = (ceffs, out)"
    by fastforce
  have "br' = cleared"
    using assms(2-8,11) ann c collectE4_fields(2) [OF c]
    by (auto simp: processE4_def clearForceE4Annotation_def)
  moreover have "honoredForceE4 (forceGates br) = None"
    using assms(2) by (simp add: honoredForceE4_def)
  ultimately have b: "b = nextStatus D now cleared p e2 e3 e4 h None"
    using assms(12) by simp
  have last: "LastForcedE4At (Status b) = LastForcedE4At (Status br)" and "Annotations b = Annotations cleared"
    unfolding b nextStatus_eq Let_def using assms(10) by (simp_all add: recordProbe_def)
  then have dead: "resolveForceE4 b = None"
    using assms(9) by (simp add: resolveForceE4_def map_get_def)
  then have "fg_forceE4TS (forceGates b) = None"
    by (simp add: forceGates_def Let_def)
  then show ?thesis
    using last dead by (simp add: honoredForceE4_def)
qed

definition forced_e4_br :: BackupRepository where
  "forced_e4_br = sample_br\<lparr>Annotations := [(AnnotationForceE4, ''1782484523'')],
     Spec := sample_spec\<lparr>FullRetrievalStorageClass := Some ''fast'', FullRetrievalPVCSize := Some (Quantity 1000)\<rparr>\<rparr>"

lemma forced_e4_parts:
  "resolveForceE4 forced_e4_br = Some (Unix 1782484523)" "fg_e4 (forceGates forced_e4_br)"
  "listE4Jobs sample_kube forced_e4_br = Inr []"
  "FullRetrievalStorageClass (Spec forced_e4_br) \<noteq> None" "FullRetrievalPVCSize (Spec forced_e4_br) \<noteq> None"
  "(case spawnE4Job sample_deps sample_images sample_kube 9 forced_e4_br True of
      Ret (effs, r) \<Rightarrow> is_Inr r | Panic \<Rightarrow> False)"
  by code_simp+

theorem forced_run_unrecorded_witness:
  "\<exists>effs e4 br'. processE4 sample_deps sample_images sample_kube (frozen 9) forced_e4_br True = Ret (effs, e4, br') \<and>
     LastForcedE4At (Status (nextStatus sample_deps 9 br' (reachOnly True [] []) noE2 noE3 e4 None None)) = None \<and>
     resolveForceE4 (nextStatus sample_deps 9 br' (reachOnly True [] []) noE2 noE3 e4 None None) = None"
proof -
  obtain spawned job where sp: "spawnE4Job sample_deps sample_images sample_kube (now_e4_name (frozen 9)) forced_e4_br True = Ret (spawned, Inr job)"
    using forced_e4_parts(6) by (auto simp: frozen_def split: go.splits elim!: is_Inr.elims(2))
  let ?cleared = "forced_e4_br\<lparr>Annotations := filter (\<lambda>(a, v). a \<noteq> AnnotationForceE4) (Annotations forced_e4_br)\<rparr>"
  have clear: "patchMetadata sample_kube forced_e4_br AnnotationForceE4 = Inr ?cleared"
    "map_of (Annotations ?cleared) AnnotationForceE4 = None" "Status ?cleared = Status forced_e4_br"
    by (simp_all add: sample_kube_def forced_e4_br_def)
  obtain effs e4 br' where
    run: "processE4 sample_deps sample_images sample_kube (frozen 9) forced_e4_br (fg_e4 (forceGates forced_e4_br)) = Ret (effs, e4, br')"
    using processE4_returns by (metis prod.exhaust)
  have none: "honoredForceE4 (forceGates forced_e4_br) = None" "LastForcedE4At (Status forced_e4_br) = None"
    using forced_e4_parts(2) by (simp_all add: honoredForceE4_def forced_e4_br_def sample_br_def sample_status_def)
  from forced_run_unrecorded [OF forced_e4_parts(1-3) _ forced_e4_parts(4,5) sp clear run refl,
      of 9 "reachOnly True [] []" noE2 noE3 None] none run forced_e4_parts(2)
  show ?thesis
    by (intro exI conjI) auto
qed

section \<open>A stale read loses a result\<close>

text \<open>
  C40: a status patch carries no precondition on the version it was computed from. If a reconcile reads a version from
  before the first validation was recorded and cannot read the credentials, its merge patch overwrites the conditions
  but not the validation time: the stored status keeps verifiedLastValidationAt and loses the MetadataValid that
  came with it, and no validation is due before the interval has passed.
\<close>

theorem stale_read_loses_result:
  assumes "conditions_ok D" "Reconcile D VI K clk key seen = Ret (seen', effs, res)"
    and "getBackupRepository K key = Inr old" "resolveCredentials D K old = Inl err" "patched effs = [b]"
    and "VerifiedLastValidationAt (Status old) = None" "preservedCondition D old ConditionMetadataValid = None"
    and "status_of D (conds old) ConditionHealthy \<noteq> Some ConditionFalse"
    and "VerifiedLastValidationAt (Status cur) = Some t"
    and "merges (Status old) (on_wire (Status b)) (Status cur) (Status s)" "Spec s = Spec cur"
  shows "VerifiedLastValidationAt (Status s) = Some t \<and> \<not> real D (conds s) ConditionMetadataValid \<and>
    (\<forall>now. Sub now t < MetadataValidationInterval (Spec cur) \<longrightarrow> \<not> shouldSpawnE2 s now)"
proof -
  from assms(2) have b: "b = failureStatus D (now_status clk) old err"
    by (cases rule: Reconcile_patched) (use assms(3-5) in auto)
  have "status_of D (conds b) ConditionHealthy = Some ConditionFalse"
    unfolding b by (rule failureStatus_unhealthy [OF assms(1)])
  then have "conds s = conds b"
    using assms(8,10) by (auto simp: merges_def picks_def on_wire_def)
  moreover have "\<not> real D (conds b) ConditionMetadataValid"
  proof -
    have "metadataValid (credentialInputs D (touch (now_status clk) old) err) = None"
      using assms(7) by (simp add: credentialInputs_def preservedCondition_def)
    then show ?thesis
      unfolding b failureStatus_def Let_def using assms(1)
      by (simp add: real_def view_subConditions subConditions_def cond_simps core_def pending_def)
  qed
  moreover have v: "VerifiedLastValidationAt (Status s) = Some t"
  proof -
    have "VerifiedLastValidationAt (Status b) = VerifiedLastValidationAt (Status old)"
      unfolding b failureStatus_def Let_def by simp
    then show ?thesis
      using assms(6,9,10) by (simp add: merges_def picks_def on_wire_def)
  qed
  moreover have "\<not> shouldSpawnE2 s now" if "Sub now t < MetadataValidationInterval (Spec cur)" for now
    using that v assms(11) by (simp add: shouldSpawnE2_def)
  ultimately show ?thesis
    by simp
qed

definition denied_kube :: kube where
  "denied_kube = sample_kube\<lparr>getBackupRepository := (\<lambda>n. Inr sample_br),
     getSecret := (\<lambda>n. Inl (OtherAPIError ''forbidden''))\<rparr>"

theorem stale_read_loses_result_witness:
  "\<exists>b res. Reconcile sample_deps sample_images denied_kube (frozen 9) sample_req Map.empty =
       Ret (Map.empty, [PatchStatus b], res) \<and>
     merges (Status sample_br) (on_wire (Status b)) ((Status sample_br)\<lparr>VerifiedLastValidationAt := Some 5\<rparr>)
       ((on_wire (Status b))\<lparr>VerifiedLastValidationAt := Some 5\<rparr>) \<and>
     \<not> real sample_deps (Conditions ((on_wire (Status b))\<lparr>VerifiedLastValidationAt := Some 5\<rparr>)) ConditionMetadataValid"
proof -
  let ?cur = "sample_br\<lparr>Status := (Status sample_br)\<lparr>VerifiedLastValidationAt := Some 5\<rparr>\<rparr>"
  have old: "getBackupRepository denied_kube sample_req = Inr sample_br"
    "resolveCredentials sample_deps denied_kube sample_br =
      Inl (GoError (''get secret '' @ KeyString sample_deps \<lparr>nn_Namespace = ''db'', nn_Name = ''s3-creds''\<rparr>
        @ '': '' @ ''forbidden''))"
    by (simp_all add: denied_kube_def resolveCredentials_def sample_br_def sample_spec_def sample_secret_def Let_def)
  let ?b = "failureStatus sample_deps 9 sample_br (GoError (''get secret '' @
      KeyString sample_deps \<lparr>nn_Namespace = ''db'', nn_Name = ''s3-creds''\<rparr> @ '': '' @ ''forbidden''))"
  obtain res where r: "Reconcile sample_deps sample_images denied_kube (frozen 9) sample_req Map.empty =
      Ret (Map.empty, [PatchStatus ?b], res)"
    using old by (simp add: Reconcile_def recordCredentialsFailure_def Let_def frozen_def)
  let ?s = "?cur\<lparr>Status := (on_wire (Status ?b))\<lparr>VerifiedLastValidationAt := Some 5\<rparr>\<rparr>"
  have same: "VerifiedLastValidationAt (Status ?b) = VerifiedLastValidationAt (Status sample_br)"
    "preservedCondition sample_deps sample_br ConditionMetadataValid = None"
    "status_of sample_deps (conds sample_br) ConditionHealthy \<noteq> Some ConditionFalse"
    "VerifiedLastValidationAt (Status sample_br) = None"
    by (simp_all add: failureStatus_def Let_def preservedCondition_def sample_br_def sample_status_def
        sample_deps_def status_of_def view_def)
  have m: "merges (Status sample_br) (on_wire (Status ?b)) (Status ?cur) (Status ?s)"
    using same(1,4) by (simp add: merges_def picks_def picks_object_def on_wire_def)
  show ?thesis
    using stale_read_loses_result [OF sample_deps_ok(1) r old _ same(4,2,3) _ m] r m by auto
qed

end
