(* ===== verification/Schedule.thy ===== *)
theory Schedule
  imports Progress
begin

text \<open>
  Which validation a reconcile starts when nothing stands in the way: the first due level,
  in the order E2, E3, E4. This is the liveness side of the safety properties of \<^verbatim>\<open>Levels\<close> and \<^verbatim>\<open>Reconciler\<close>.
\<close>

section \<open>The schedule\<close>

definition nextLevel :: "clock \<Rightarrow> BackupRepository \<Rightarrow> string option" where
  "nextLevel clk br =
     (let g = forceGates br in
      if e2Due clk br (fg_e2 g) then Some labelLevelE2
      else if e3Due clk br (fg_e3 g) then Some labelLevelE3
      else if e4Due clk br (fg_e4 g) then Some labelLevelE4
      else None)"

text \<open>
  Nothing stands before the first due level: the Jobs of every level up to it can be listed, and none of them is in
  flight. Jobs of the later levels do not count.
\<close>

definition free :: "api_error + Job list \<Rightarrow> bool" where
  "free r = (case r of Inl e \<Rightarrow> False | Inr jobs \<Rightarrow> \<not> inFlight jobs)"

definition unblocked :: "kube \<Rightarrow> clock \<Rightarrow> BackupRepository \<Rightarrow> bool" where
  "unblocked K clk br \<longleftrightarrow>
     (let g = forceGates br in
      free (listE2Jobs K br) \<and>
      (e2Due clk br (fg_e2 g) \<or>
       free (e3Jobs K br) \<and> (e3Due clk br (fg_e3 g) \<or> free (listE4Jobs K br))))"

lemma free_cases: "free r \<longleftrightarrow> (\<exists>jobs. r = Inr jobs \<and> \<not> inFlight jobs)"
  by (auto simp: free_def split: sum.splits)

text \<open>The API server accepts every object, an image is configured, and there is something to retrieve.\<close>

definition equipped :: "deps \<Rightarrow> ValidatorImages \<Rightarrow> kube \<Rightarrow> BackupRepository \<Rightarrow> S3Credentials \<Rightarrow> bool" where
  "equipped D VI K br creds \<longleftrightarrow>
     cooperative K br \<and> (\<forall>p. \<exists>p'. setPVCOwner K br p = Inr p' \<and> createPVC K p' = None) \<and>
     (\<exists>img. validatorImageFor D VI (Format (Spec br)) = Inr img) \<and>
     (SampledRetrievalInterval (Spec br) \<noteq> None \<longrightarrow> (\<exists>ivc. e3CommandArgsEnv D br creds = Ret (Inr ivc))) \<and>
     (\<exists>ivc. e4CommandArgsEnv D br = Inr ivc)"

section \<open>One level at a time\<close>

text \<open>The one Job of a level: with all safeguards, and named after the level, the repository and the minute.\<close>

definition levelJobName :: "deps \<Rightarrow> clock \<Rightarrow> BackupRepository \<Rightarrow> string \<Rightarrow> string" where
  "levelJobName D clk br lv =
     (if lv = labelLevelE2 then e2JobName D br (now_e2_name clk)
      else if lv = labelLevelE3 then e3JobName D br (now_e3_name clk)
      else e4JobName D br (now_e4_name clk))"

lemma levelJobName_simps [simp]:
  "levelJobName D clk br labelLevelE2 = e2JobName D br (now_e2_name clk)"
  "levelJobName D clk br labelLevelE3 = e3JobName D br (now_e3_name clk)"
  "levelJobName D clk br labelLevelE4 = e4JobName D br (now_e4_name clk)"
  using level_labels_neq by (simp_all add: levelJobName_def)

definition starts :: "deps \<Rightarrow> clock \<Rightarrow> BackupRepository \<Rightarrow> string option \<Rightarrow> effect list \<Rightarrow> bool" where
  "starts D clk br next_level effs \<longleftrightarrow>
     (case next_level of
        None \<Rightarrow> createdJobs effs = []
      | Some lv \<Rightarrow> \<exists>j. createdJobs effs = [j] \<and> hardened br lv j \<and> j_Name j = levelJobName D clk br lv)"

lemma starts_simps [simp]:
  "starts D clk br None effs \<longleftrightarrow> createdJobs effs = []"
  "starts D clk br (Some lv) effs \<longleftrightarrow>
     (\<exists>j. createdJobs effs = [j] \<and> hardened br lv j \<and> j_Name j = levelJobName D clk br lv)"
  by (simp_all add: starts_def)

lemma starts_cong: "createdJobs effs = createdJobs effs' \<Longrightarrow> starts D clk br n effs = starts D clk br n effs'"
  by (cases n) simp_all

lemma created_hardened:
  assumes "cooperative K br" "spawn_outcome K br lv (effs, r)" "createdJobs effs = [j]"
  shows "hardened br lv j"
  using spawn_outcome_contract(2) [OF assms(2)] assms(1,3) by (simp add: cooperative_def)

lemma spawnE3Job_succeeds:
  assumes "equipped D VI K br creds" "SampledRetrievalInterval (Spec br) \<noteq> None"
  shows "\<exists>effs j. spawnE3Job D VI K now br creds = Ret (effs, Inr j) \<and> createdJobs effs = [j] \<and>
    hardened br labelLevelE3 j \<and> j_Name j = e3JobName D br now"
proof -
  obtain img ivc where "validatorImageFor D VI (Format (Spec br)) = Inr img" "e3CommandArgsEnv D br creds = Ret (Inr ivc)"
    using assms by (auto simp: equipped_def)
  then obtain j where s: "spawnE3Job D VI K now br creds = Ret ([CreateJob j], Inr j)" "j_Name j = e3JobName D br now"
    using submitJob_succeeds assms(1) by (fastforce simp: spawnE3Job_def equipped_def validatorJob_def)
  then show ?thesis
    using created_hardened [OF _ spawnE3_outcome [OF s(1)]] s assms(1) by (simp add: equipped_def)
qed

lemma spawnE4Job_succeeds:
  assumes "equipped D VI K br creds" "FullRetrievalPVCSize (Spec br) \<noteq> None"
  shows "\<exists>effs j. spawnE4Job D VI K now br forced = Ret (effs, Inr j) \<and> createdJobs effs = [j] \<and>
    hardened br labelLevelE4 j \<and> j_Name j = e4JobName D br now"
proof -
  obtain img ivc size where i: "validatorImageFor D VI (Format (Spec br)) = Inr img" "e4CommandArgsEnv D br = Inr ivc"
    "FullRetrievalPVCSize (Spec br) = Some size"
    using assms by (auto simp: equipped_def)
  let ?pvc = "\<lparr>pvc_Name = e4PVCName br, pvc_Namespace = jobNamespace br,
    pvc_Labels = levelLabels br labelLevelE4, pvc_Owner = None, pvc_AccessModes = [''ReadWriteOnce''],
    pvc_StorageClassName = FullRetrievalStorageClass (Spec br), pvc_Storage = size\<rparr>"
  obtain p where "setPVCOwner K br ?pvc = Inr p" "createPVC K p = None"
    using assms(1) unfolding equipped_def by blast
  then have pvc: "ensureE4PVC K br = Ret ([CreatePVC p], None)"
    by (simp add: ensureE4PVC_def i(3))
  obtain f where "\<And>j. submitJob K br ''set job owner reference: '' j = ([CreateJob (f j)], Inr (f j))"
    "\<And>j. j_Name (f j) = j_Name j"
    using submitJob_succeeds [of K br] assms(1) unfolding equipped_def by metis
  then have "\<exists>j. spawnE4Job D VI K now br forced = Ret ([CreatePVC p, CreateJob j], Inr j) \<and> j_Name j = e4JobName D br now"
    by (simp add: spawnE4Job_def Let_def pvc i) (simp add: validatorJob_def)
  then obtain j where s: "spawnE4Job D VI K now br forced = Ret ([CreatePVC p, CreateJob j], Inr j)"
    "j_Name j = e4JobName D br now"
    by blast
  then show ?thesis
    using created_hardened [OF _ spawnE4_outcome [OF s(1)]] s assms(1) by (simp add: equipped_def)
qed

lemma processE3_schedule:
  assumes "free (e3Jobs K br)" "equipped D VI K br creds"
  shows "\<exists>effs out. processE3 D VI K clk br creds force = Ret (effs, out) \<and> e3_jobActive out = e3Due clk br force \<and>
    starts D clk br (if e3Due clk br force then Some labelLevelE3 else None) effs"
proof (cases "SampledRetrievalInterval (Spec br) = None")
  case True
  then show ?thesis
    by (simp add: processE3_def e3Due_def noE3_def)
next
  case False
  then obtain jobs where l: "listE3Jobs K br = Inr jobs" "\<not> inFlight jobs"
    using assms(1) by (auto simp: free_cases e3Jobs_def simp del: not_None_eq)
  obtain effs0 out0 where c: "collectE3 D K br jobs = (effs0, out0)"
    by fastforce
  note f = collectE3_fields(1,2) [OF c]
  obtain effs j where s: "spawnE3Job D VI K (now_e3_name clk) br creds = Ret (effs, Inr j)" "createdJobs effs = [j]"
    "hardened br labelLevelE3 j" "j_Name j = e3JobName D br (now_e3_name clk)"
    using spawnE3Job_succeeds [OF assms(2) False] by blast
  show ?thesis
    using False l c f s by (auto simp: processE3_def e3Due_def)
qed

lemma processE4_schedule:
  assumes "free (listE4Jobs K br)" "equipped D VI K br creds"
  shows "\<exists>effs out br'. processE4 D VI K clk br force = Ret (effs, out, br') \<and>
    starts D clk br (if e4Due clk br force then Some labelLevelE4 else None) effs"
proof -
  obtain jobs where l: "listE4Jobs K br = Inr jobs" "\<not> inFlight jobs"
    using assms(1) by (auto simp: free_cases)
  obtain effs0 out0 where c: "collectE4 D K br jobs = (effs0, out0)"
    by fastforce
  note f = collectE4_fields(1,2) [OF c]
  show ?thesis
  proof (cases "e4Due clk br force")
    case False
    then show ?thesis
      using l c f by (auto simp: processE4_def e4Due_def Let_def)
  next
    case True
    then obtain effs j where s: "spawnE4Job D VI K (now_e4_name clk) br force = Ret (effs, Inr j)"
      "createdJobs effs = [j]" "hardened br labelLevelE4 j" "j_Name j = e4JobName D br (now_e4_name clk)"
      using spawnE4Job_succeeds [OF assms(2)] by (fastforce simp: e4Due_def)
    then show ?thesis
      using True l c f clearForceE4_creates_none [of K br]
      by (auto simp: processE4_def e4Due_def shouldSpawnE4_def Let_def split: prod.split option.splits)
  qed
qed

section \<open>The whole reconcile\<close>

lemma runLevels_schedule:
  assumes "unblocked K clk br" "equipped D VI K br creds"
  shows "\<exists>effs e2 e3 e4 br'. runLevels D VI K clk br creds (forceGates br) = Ret (effs, e2, e3, e4, br') \<and>
    starts D clk br (nextLevel clk br) effs"
proof -
  let ?g = "forceGates br"
  obtain j2 where jobs: "listE2Jobs K br = Inr j2" "\<not> inFlight j2"
    using assms(1) by (auto simp: unblocked_def free_cases Let_def)
  obtain img where k: "cooperative K br" "validatorImageFor D VI (Format (Spec br)) = Inr img"
    using assms(2) unfolding equipped_def by blast
  show ?thesis
  proof (cases "e2Due clk br (fg_e2 ?g)")
    case True
    obtain effs e2 j where "processE2 D VI K clk br (fg_e2 ?g) = (effs, e2)" "e2_jobActive e2"
      "createdJobs effs = [j]" "hardened br labelLevelE2 j" "j_Name j = e2JobName D br (now_e2_name clk)"
      by (rule processE2_starts [OF jobs True k])
    with True show ?thesis
      by (simp add: runLevels_busy nextLevel_def Let_def)
  next
    case e2: False
    obtain effs2 out2 where p2: "processE2 D VI K clk br (fg_e2 ?g) = (effs2, out2)"
      by fastforce
    have l2: "createdJobs effs2 = []" "\<not> e2_jobActive out2"
      using processE2_eqs(2) [OF jobs(1) p2] e2 jobs(2) by (simp_all add: launch_def)
    obtain effs3 out3 where p3: "processE3 D VI K clk br creds (fg_e3 ?g) = Ret (effs3, out3)"
      "e3_jobActive out3 = e3Due clk br (fg_e3 ?g)"
      and l3: "starts D clk br (if e3Due clk br (fg_e3 ?g) then Some labelLevelE3 else None) effs3"
      using processE3_schedule [OF _ assms(2)] assms(1) e2 by (metis unblocked_def)
    show ?thesis
    proof (cases "e3Due clk br (fg_e3 ?g)")
      case True
      then show ?thesis
        using e2 p2 l2 p3 l3 by (auto simp: runLevels_def nextLevel_def Let_def)
    next
      case False
      obtain effs4 out4 br' where p4: "processE4 D VI K clk br (fg_e4 ?g) = Ret (effs4, out4, br')"
        and l4: "starts D clk br (if e4Due clk br (fg_e4 ?g) then Some labelLevelE4 else None) effs4"
        using processE4_schedule [OF _ assms(2)] assms(1) e2 False by (metis unblocked_def)
      show ?thesis
        using e2 p2 l2 p3 l3 p4 l4 False by (auto simp: runLevels_def nextLevel_def Let_def)
    qed
  qed
qed

lemma Reconcile_schedule:
  assumes "getBackupRepository K req = Inr br" "resolveCredentials D K br = Inr creds"
    and "unblocked K clk br" "equipped D VI K br creds"
  shows "\<exists>seen' effs res. Reconcile D VI K clk req seen = Ret (seen', effs, res) \<and>
    starts D clk br (nextLevel clk br) effs"
proof -
  let ?g = "forceGates br"
  have "\<exists>effs e2 e3 e4 br'. runLevels D VI K clk br creds ?g = Ret (effs, e2, e3, e4, br') \<and>
    starts D clk br (nextLevel clk br) effs"
    by (rule runLevels_schedule [OF assms(3,4)])
  then obtain effs e2 e3 e4 br' where r: "runLevels D VI K clk br creds ?g = Ret (effs, e2, e3, e4, br')"
    "starts D clk br (nextLevel clk br) effs"
    by blast
  have "\<exists>effs' res. validateAndPublish D VI K clk br creds = Ret (effs', res) \<and> createdJobs effs' = createdJobs effs"
    by (auto simp: validateAndPublish_def r(1) applyStatus_def Let_def split: sum.split)
  with assms(1,2) r(2) show ?thesis
    by (auto simp: Reconcile_def cong: starts_cong)
qed

text \<open>
  C14: the first due level is started. If the credentials can be read, no validation of this level or an earlier one is
  in flight, and image, arguments and API server allow it, the reconcile returns, and what it starts is exactly what
  the schedule says: one hardened Job of the first due level in the order E2, E3, E4, or none if no level is due. A full retrieval is
  due by its interval or by a live force-e4 annotation, and needs a storage class and a size.
\<close>

theorem due_level_starts:
  assumes "getBackupRepository K req = Inr br" "resolveCredentials D K br = Inr creds"
    and "unblocked K clk br" "equipped D VI K br creds"
  shows "\<exists>seen' effs res. Reconcile D VI K clk req seen = Ret (seen', effs, res) \<and>
    starts D clk br (nextLevel clk br) effs"
  by (rule Reconcile_schedule [OF assms])

text \<open>A repository validated just now whose first full retrieval is due.\<close>

definition retrieval_br :: BackupRepository where
  "retrieval_br = sample_br\<lparr>
     Spec := sample_spec\<lparr>SampledRetrievalInterval := None, FullRetrievalInterval := Some Hour,
       FullRetrievalStorageClass := Some ''fast'', FullRetrievalPVCSize := Some (Quantity 1000)\<rparr>,
     Status := sample_status\<lparr>VerifiedLastValidationAt := Some sample_now\<rparr>\<rparr>"

theorem due_level_starts_witness:
  "\<exists>seen' effs res j. Reconcile sample_deps sample_images (sample_kube_br retrieval_br) (frozen sample_now) sample_req
     Map.empty = Ret (seen', effs, res) \<and> createdJobs effs = [j] \<and> hardened retrieval_br labelLevelE4 j"
proof -
  let ?K = "sample_kube_br retrieval_br"
  have "getBackupRepository ?K sample_req = Inr retrieval_br"
    by (simp add: sample_kube_br_def)
  moreover have "resolveCredentials sample_deps ?K retrieval_br = Inr sample_creds"
    by code_simp
  moreover have "unblocked ?K (frozen sample_now) retrieval_br"
    by (simp add: unblocked_def free_def firstActiveJob_def Let_def e3Jobs_def listE2Jobs_def listE3Jobs_def listE4Jobs_def sample_kube_br_def sample_kube_def)
  moreover have "validatorImageFor sample_deps sample_images (Format (Spec retrieval_br)) = Inr (Walg sample_images)"
    "Format (Spec retrieval_br) = BackupFormatWalg" "SampledRetrievalInterval (Spec retrieval_br) = None"
    by code_simp+
  then have "equipped sample_deps sample_images ?K retrieval_br sample_creds"
    by (auto simp: equipped_def cooperative_def owner_ok_def accepted_def e4CommandArgsEnv_def sample_kube_br_def sample_kube_def)
  moreover have "nextLevel (frozen sample_now) retrieval_br = Some labelLevelE4"
    by code_simp
  ultimately show ?thesis
    using due_level_starts [where K = ?K and req = sample_req and br = retrieval_br and D = sample_deps and
        creds = sample_creds and VI = sample_images and clk = "frozen sample_now"]
    by fastforce
qed

end
