(* ===== verification/Cluster.thy ===== *)
theory Cluster
  imports Schedule
begin

text \<open>
  The Jobs of a cluster over any number of reconciles. The other side of the API server, the Job controller and
  users are events of their own: Jobs run, finish and disappear between reconciles, and the operator may be killed
  after any of its calls. What a single reconcile guarantees about the Jobs it asks for becomes an invariant of the
  cluster, and the levels' progress becomes a round: a Job is asked for, it finishes, its verdict is published.
\<close>

section \<open>The API server's Jobs\<close>

text \<open>\<^verbatim>\<open>client.InNamespace\<close> and \<^verbatim>\<open>client.MatchingLabels\<close>.\<close>

definition selected :: "string \<Rightarrow> gomap \<Rightarrow> Job \<Rightarrow> bool" where
  "selected ns ls j \<longleftrightarrow> j_Namespace j = ns \<and> list_all (\<lambda>(k, v). map_of (j_Labels j) k = Some v) ls"

definition job_key :: "Job \<Rightarrow> string \<times> string" where
  "job_key j = (j_Namespace j, j_Name j)"

text \<open>
  The server's answers in a reconcile: a name can be taken only once in a namespace, and a list that succeeds shows
  the selected Jobs. If the client lags, a list may show anything.
\<close>

definition serves :: "bool \<Rightarrow> kube \<Rightarrow> Job list \<Rightarrow> bool" where
  "serves lag K js \<longleftrightarrow>
     owner_ok K \<and> (\<forall>j. createJob K j = None \<longrightarrow> job_key j \<notin> job_key ` set js) \<and>
     (lag \<or> (\<forall>ns ls out. listJobs K ns ls = Inr out \<longrightarrow> set out = {j \<in> set js. selected ns ls j}))"

text \<open>The Jobs that are there after some calls; the server sets the creation time.\<close>

definition stored_jobs :: "kube \<Rightarrow> time \<Rightarrow> effect list \<Rightarrow> Job list" where
  "stored_jobs K t effs =
     map (\<lambda>j. j\<lparr>j_CreationTimestamp := t\<rparr>) (filter (\<lambda>j. createJob K j = None) (createdJobs effs))"

inductive tick :: "bool \<Rightarrow> Job list \<Rightarrow> Job list \<Rightarrow> bool" for lag where
  reconciles: "serves lag K js \<Longrightarrow> Reconcile D VI K clk req seen = Ret (seen', effs, res) \<Longrightarrow>
    tick lag js (js @ stored_jobs K t (take n effs))"
| runs_on: "\<not> jobInFlight j \<longrightarrow> \<not> jobInFlight (j\<lparr>j_Conditions := cs\<rparr>) \<Longrightarrow>
    tick lag (xs @ j # ys) (xs @ j\<lparr>j_Conditions := cs, j_StartTime := s, j_CompletionTime := c\<rparr> # ys)"
| vanishes: "tick lag (xs @ j # ys) (xs @ ys)"
| foreign: "map_of (j_Labels j) labelOwnerName = None \<Longrightarrow> job_key j \<notin> job_key ` set js \<Longrightarrow> tick lag js (js @ [j])"

definition no_jobs_yet :: "Job list \<Rightarrow> bool" where
  "no_jobs_yet js \<longleftrightarrow> distinct (map job_key js) \<and> (\<forall>j\<in>set js. map_of (j_Labels j) labelOwnerName = None)"

section \<open>The Jobs of one reconcile\<close>

lemma spawn_outcome_pending:
  assumes "spawn_outcome K br level (effs, r)" "owner_ok K" "j \<in> set (createdJobs effs)"
  shows "j_Conditions j = []"
  using assms
proof cases
  case (submitted effs1 deadline m name extra img ivc mounts vols effs2)
  then show ?thesis
    using assms(3) by (auto simp: submitJob_def validatorJob_def dest!: owner_keeps(2) [OF assms(2)] split: sum.splits)
qed simp

lemma launch_creates:
  assumes "owner_ok K" "spawn_outcome K br level s" "launch jobs isDue s effs isActive" "j \<in> set (createdJobs effs)"
  shows "hardened br level j \<and> j_Conditions j = [] \<and> \<not> inFlight jobs"
proof -
  obtain es r where s: "s = (es, r)"
    by fastforce
  have "list_all (hardened br level) (createdJobs es)"
    using spawn_outcome_contract(2) [OF assms(2) [unfolded s] assms(1)] .
  then show ?thesis
    using assms(3,4) spawn_outcome_pending [OF assms(2) [unfolded s] assms(1)]
    by (auto simp: launch_def s list_all_iff split: if_splits)
qed

text \<open>A Job that is asked for is new, and belongs to a level that was listed and had nothing in flight.\<close>

definition alone :: "kube \<Rightarrow> Job \<Rightarrow> bool" where
  "alone K j \<longleftrightarrow> (\<exists>br lv jobs. hardened br lv j \<and> j_Conditions j = [] \<and> listJobs K (jobNamespace br) (levelLabels br lv) = Inr jobs \<and>
     \<not> inFlight jobs)"

lemma process_alone:
  assumes "owner_ok K"
  shows "processE2 D VI K clk br f = (effs2, out2) \<Longrightarrow> j \<in> set (createdJobs effs2) \<Longrightarrow> alone K j"
    "processE3 D VI K clk br creds f = Ret (effs3, out3) \<Longrightarrow> j \<in> set (createdJobs effs3) \<Longrightarrow> alone K j"
    "processE4 D VI K clk br f = Ret (effs4, out4, br') \<Longrightarrow> j \<in> set (createdJobs effs4) \<Longrightarrow> alone K j"
proof -
  show "alone K j" if p: "processE2 D VI K clk br f = (effs2, out2)" "j \<in> set (createdJobs effs2)"
  proof (cases "listE2Jobs K br")
    case (Inr js)
    show ?thesis
      using launch_creates [OF assms spawnE2_outcome processE2_eqs(2) [OF Inr p(1)] p(2)] Inr
      unfolding alone_def listE2Jobs_def by blast
  qed (use p in \<open>simp add: processE2_def\<close>)
  show "alone K j" if p: "processE3 D VI K clk br creds f = Ret (effs3, out3)" "j \<in> set (createdJobs effs3)"
  proof -
    have en: "SampledRetrievalInterval (Spec br) \<noteq> None"
      using p processE3_disabled [of br D VI K clk creds f]
      by (cases "SampledRetrievalInterval (Spec br)") auto
    then obtain js where js: "listE3Jobs K br = Inr js"
      using p by (cases "listE3Jobs K br") (auto simp: processE3_def)
    show ?thesis
      using processE3_eqs(2) [OF js p(1) en] launch_creates [OF assms _ _ p(2)] js
      unfolding alone_def listE3Jobs_def by blast
  qed
  show "alone K j" if p: "processE4 D VI K clk br f = Ret (effs4, out4, br')" "j \<in> set (createdJobs effs4)"
  proof (cases "listE4Jobs K br")
    case (Inr js)
    show ?thesis
      using processE4_eqs(2) [OF Inr p(1)] launch_creates [OF assms _ _ p(2)] Inr
      unfolding alone_def listE4Jobs_def by blast
  qed (use p in \<open>simp add: processE4_def\<close>)
qed

lemma Reconcile_alone:
  assumes "Reconcile D VI K clk req seen = Ret (seen', effs, res)" "owner_ok K" "j \<in> set (createdJobs effs)"
  shows "alone K j"
  using assms(1)
proof (cases rule: Reconcile_cases)
  case (ran br creds)
  from ran(3) obtain levels e2 e3 e4 br' where
    l: "runLevels D VI K clk br creds (forceGates br) = Ret (levels, e2, e3, e4, br')" "createdJobs effs = createdJobs levels"
    by (rule createdJobs_validateAndPublish)
  from l(1) show ?thesis
  proof (cases rule: runLevels_cases)
    case (1 effs2 effs3 effs4)
    then show ?thesis
      using assms(3) l(2) process_alone [OF assms(2)] by (auto split: if_splits)
  qed
qed (use assms(3) in \<open>auto simp: recordCredentialsFailure_def Let_def split: sum.splits\<close>)

lemma Reconcile_accepts_one:
  assumes "Reconcile D VI K clk req seen = Ret (seen', effs, res)"
  shows "length (acceptedJobs K effs) \<le> 1"
  using assms
proof (cases rule: Reconcile_cases)
  case (ran br creds)
  from ran(3) obtain levels e2 e3 e4 br' where
    l: "runLevels D VI K clk br creds (forceGates br) = Ret (levels, e2, e3, e4, br')" "createdJobs effs = createdJobs levels"
    by (rule createdJobs_validateAndPublish)
  then show ?thesis
    using runLevels_one_job [OF l(1)] by (simp add: acceptedJobs_def)
qed (auto simp: acceptedJobs_def recordCredentialsFailure_def Let_def split: sum.splits)

lemma length_filter_weaken: "(\<And>x. P x \<Longrightarrow> Q x) \<Longrightarrow> length (filter P xs) \<le> length (filter Q xs)"
  by (induction xs) (simp_all add: le_SucI)

lemma createdJobs_take: "createdJobs effs = createdJobs (take n effs) @ createdJobs (drop n effs)"
  by (metis append_take_drop_id createdJobs_simps(9))

text \<open>What a reconcile, or the part of it that was carried out, leaves in the cluster: nothing, or one Job that is alone.\<close>

lemma stored_cases:
  assumes "serves lag K js" "Reconcile D VI K clk req seen = Ret (seen', effs, res)"
  obtains (none) "stored_jobs K t (take n effs) = []"
  | (one) j where "stored_jobs K t (take n effs) = [j\<lparr>j_CreationTimestamp := t\<rparr>]" "alone K j" "createJob K j = None"
proof -
  let ?new = "filter (\<lambda>j. createJob K j = None) (createdJobs (take n effs))"
  have "length ?new \<le> length (filter (accepted K) (createdJobs (take n effs)))"
    by (rule length_filter_weaken) (simp add: accepted_def)
  also have "\<dots> \<le> length (acceptedJobs K effs)"
    by (simp add: acceptedJobs_def createdJobs_take [of effs n])
  finally have "length ?new \<le> 1"
    using Reconcile_accepts_one [OF assms(2)] by simp
  moreover have "alone K j \<and> createJob K j = None" if "j \<in> set ?new" for j
    using that Reconcile_alone [OF assms(2)] assms(1) by (simp add: serves_def createdJobs_take [of effs n])
  ultimately show thesis
    using none one by (cases ?new) (auto simp: stored_jobs_def)
qed

section \<open>Invariants of the cluster\<close>

definition running :: "string \<Rightarrow> string \<Rightarrow> string \<Rightarrow> Job list \<Rightarrow> Job list" where
  "running ns name lv js =
     filter (\<lambda>j. selected ns [(labelOwnerName, name), (labelLevel, lv)] j \<and> jobInFlight j) js"

lemma running_simps [simp]:
  "running ns name lv (xs @ ys) = running ns name lv xs @ running ns name lv ys"
  "running ns name lv (j # ys) =
     (if selected ns [(labelOwnerName, name), (labelLevel, lv)] j \<and> jobInFlight j then [j] else []) @ running ns name lv ys"
  "running ns name lv [] = []"
  by (simp_all add: running_def)

lemma hardened_selected:
  "hardened br lv j \<Longrightarrow> selected ns [(labelOwnerName, name), (labelLevel, lv')] j \<longleftrightarrow>
     ns = jobNamespace br \<and> name = br_Name br \<and> lv' = lv"
  by (auto simp: hardened_def selected_def)

lemma selected_update [simp]:
  "selected ns ls (j\<lparr>j_CreationTimestamp := t\<rparr>) = selected ns ls j"
  "selected ns ls (j\<lparr>j_Conditions := cs, j_StartTime := s, j_CompletionTime := c\<rparr>) = selected ns ls j"
  by (simp_all add: selected_def)

lemma job_key_update [simp]:
  "job_key (j\<lparr>j_CreationTimestamp := t\<rparr>) = job_key j"
  "job_key (j\<lparr>j_Conditions := cs, j_StartTime := s, j_CompletionTime := c\<rparr>) = job_key j"
  by (simp_all add: job_key_def)

lemma hardened_update [simp]:
  "hardened br lv (j\<lparr>j_CreationTimestamp := t\<rparr>) = hardened br lv j"
  "hardened br lv (j\<lparr>j_Conditions := cs, j_StartTime := s, j_CompletionTime := c\<rparr>) = hardened br lv j"
  by (simp_all add: hardened_def)

lemma jobInFlight_update [simp]:
  "jobInFlight (j\<lparr>j_CreationTimestamp := t\<rparr>) = jobInFlight j"
  "jobInFlight (j\<lparr>j_Conditions := cs, j_StartTime := s, j_CompletionTime := c\<rparr>) = jobInFlight (j\<lparr>j_Conditions := cs\<rparr>)"
  by (simp_all add: jobInFlight_def)

definition one_per_level :: "Job list \<Rightarrow> bool" where
  "one_per_level js \<longleftrightarrow> (\<forall>ns name lv. length (running ns name lv js) \<le> 1)"

definition safeguarded :: "Job list \<Rightarrow> bool" where
  "safeguarded js \<longleftrightarrow> distinct (map job_key js) \<and>
     (\<forall>j\<in>set js. map_of (j_Labels j) labelOwnerName \<noteq> None \<longrightarrow> (\<exists>br lv. hardened br lv j))"

lemma running_alone:
  assumes "serves False K js" "alone K j" "selected ns [(labelOwnerName, name), (labelLevel, lv)] j"
  shows "running ns name lv js = []"
proof -
  obtain br lv' jobs where a: "hardened br lv' j" "listJobs K (jobNamespace br) (levelLabels br lv') = Inr jobs"
    "\<not> inFlight jobs"
    using assms(2) by (auto simp: alone_def)
  then have k: "ns = jobNamespace br" "name = br_Name br" "lv' = lv"
    using assms(3) hardened_selected by auto
  have "set jobs = {j \<in> set js. selected ns [(labelOwnerName, name), (labelLevel, lv)] j}"
    using assms(1) a(2) unfolding serves_def levelLabels_def k by blast
  then show ?thesis
    using a(3) by (auto simp: running_def firstActiveJob_None filter_empty_conv)
qed

lemma tick_one_per_level:
  assumes "tick False js js'" "one_per_level js"
  shows "one_per_level js'"
  using assms
proof cases
  case (reconciles K D VI clk req seen seen' effs res t n)
  show ?thesis
    using reconciles(2,3)
  proof (cases rule: stored_cases [where t = t and n = n])
    case none
    then show ?thesis
      using assms(2) reconciles(1) by simp
  next
    case (one j)
    show ?thesis
      unfolding one_per_level_def reconciles(1) one(1)
    proof (intro allI)
      fix ns name lv
      show "length (running ns name lv (js @ [j\<lparr>j_CreationTimestamp := t\<rparr>])) \<le> 1"
        using assms(2) running_alone [OF reconciles(2) one(2), of ns name lv] by (auto simp: one_per_level_def)
    qed
  qed
next
  case (runs_on j cs xs ys s c)
  have "length (running ns name lv js') \<le> length (running ns name lv js)" for ns name lv
    using runs_on(3) unfolding runs_on(1,2) by auto
  then show ?thesis
    using assms(2) unfolding one_per_level_def by (meson le_trans)
next
  case (vanishes xs j ys)
  have "length (running ns name lv js') \<le> length (running ns name lv js)" for ns name lv
    unfolding vanishes by auto
  then show ?thesis
    using assms(2) unfolding one_per_level_def by (meson le_trans)
next
  case (foreign j)
  then show ?thesis
    using assms(2) by (auto simp: one_per_level_def selected_def)
qed

lemma tick_safeguarded:
  assumes "tick lag js js'" "safeguarded js"
  shows "safeguarded js'"
  using assms
proof cases
  case (reconciles K D VI clk req seen seen' effs res t n)
  show ?thesis
    using reconciles(2,3)
  proof (cases rule: stored_cases [where t = t and n = n])
    case none
    then show ?thesis
      using assms(2) reconciles(1) by simp
  next
    case (one j)
    have "job_key j \<notin> job_key ` set js"
      using reconciles(2) one(3) by (simp add: serves_def)
    then show ?thesis
      using assms(2) one(2) unfolding reconciles(1) one(1) safeguarded_def alone_def by auto
  qed
qed (use assms(2) in \<open>auto simp: safeguarded_def\<close>)

lemma no_jobs_yet_invariants: "no_jobs_yet js \<Longrightarrow> one_per_level js \<and> safeguarded js"
  by (auto simp: no_jobs_yet_def one_per_level_def safeguarded_def running_def selected_def)

interpretation cluster: machine_invariant no_jobs_yet "tick False" one_per_level
  by unfold_locales (simp_all add: no_jobs_yet_invariants tick_one_per_level)

interpretation guarded_cluster: machine_invariant no_jobs_yet "tick lag" safeguarded for lag
  by unfold_locales (simp add: no_jobs_yet_invariants, rule tick_safeguarded)

text \<open>
  C6: validations never pile up. Take any number of repositories and reconciles, with whatever specs, statuses, clocks
  and answers of S3, Jobs that run, finish or are deleted at any time, and an operator that is killed after any call.
  No two Jobs have the same name, and every Job with the operator's label has all the safeguards. As long as a
  list of Jobs that succeeds is current, there is at most one Job in flight for each repository, namespace and level.
\<close>

theorem jobs_never_pile_up:
  assumes "reached no_jobs_yet (tick lag) js"
  shows "distinct (map job_key js) \<and>
    (\<forall>j\<in>set js. map_of (j_Labels j) labelOwnerName \<noteq> None \<longrightarrow> (\<exists>br lv. hardened br lv j)) \<and>
    (lag \<or> (\<forall>ns name lv. length (running ns name lv js) \<le> 1))"
  using assms guarded_cluster.holds [of lag js] cluster.holds [of js] unfolding one_per_level_def safeguarded_def
  by (cases lag) auto

section \<open>Three validations at once\<close>

text \<open>
  A restic repository whose last validation was 20 minutes ago and whose last sampled retrieval 23.5 hours ago, with
  intervals of an hour and a day; its first full retrieval is due.
\<close>

definition contended_br :: BackupRepository where
  "contended_br = sample_br\<lparr>
     Spec := sample_spec\<lparr>Format := BackupFormatRestic, FullRetrievalInterval := Some Hour,
       FullRetrievalStorageClass := Some ''fast'', FullRetrievalPVCSize := Some (Quantity 1000)\<rparr>,
     Status := sample_status\<lparr>VerifiedLastValidationAt := Some (sample_now - 20 * Minute),
       VerifiedLastSampledRetrievalAt := Some (sample_now - 1410 * Minute)\<rparr>\<rparr>"

definition contended_kube :: "Job list \<Rightarrow> kube" where
  "contended_kube js = (sample_kube_br contended_br)\<lparr>
     listJobs := (\<lambda>ns ls. Inr (filter (selected ns ls) js)),
     createJob := (\<lambda>j. if job_key j \<in> job_key ` set js then Some (AlreadyExists ''taken'') else None)\<rparr>"

lemma contended_kube_serves: "serves False (contended_kube js) js"
  by (auto simp: serves_def contended_kube_def sample_kube_br_def sample_kube_def owner_ok_def)

lemma contended_credentials: "resolveCredentials sample_deps (contended_kube js) contended_br = Inr sample_creds"
proof -
  have "resolveCredentials sample_deps (contended_kube js) contended_br =
      resolveCredentials sample_deps (contended_kube []) contended_br"
    by (simp add: resolveCredentials_def contended_kube_def)
  also have "\<dots> = Inr sample_creds"
    by code_simp
  finally show ?thesis .
qed

lemma contended_equipped: "equipped sample_deps sample_images (contended_kube js) contended_br sample_creds"
proof -
  have "validatorImageFor sample_deps sample_images (Format (Spec contended_br)) = Inr (Restic sample_images)"
    "Format (Spec contended_br) = BackupFormatRestic" "SampledRetrievalObjects (Spec contended_br) = Some 5"
    by code_simp+
  then show ?thesis
    by (auto simp: equipped_def cooperative_def owner_ok_def accepted_def e3CommandArgsEnv_def e4CommandArgsEnv_def
        contended_kube_def sample_kube_br_def sample_kube_def)
qed

lemma contended_lists:
  "listE2Jobs (contended_kube js) contended_br =
     Inr (filter (selected (jobNamespace contended_br) (levelLabels contended_br labelLevelE2)) js)"
  "e3Jobs (contended_kube js) contended_br =
     Inr (filter (selected (jobNamespace contended_br) (levelLabels contended_br labelLevelE3)) js)"
  "listE4Jobs (contended_kube js) contended_br =
     Inr (filter (selected (jobNamespace contended_br) (levelLabels contended_br labelLevelE4)) js)"
  by (simp_all add: listE2Jobs_def e3Jobs_def listE3Jobs_def listE4Jobs_def contended_kube_def contended_br_def
      sample_br_def sample_spec_def)

lemma contended_start:
  assumes "reached no_jobs_yet (tick False) js" "unblocked (contended_kube js) (frozen t) contended_br"
    and "nextLevel (frozen t) contended_br = Some lv"
    and "\<forall>k\<in>set js. j_Name k \<noteq> levelJobName sample_deps (frozen t) contended_br lv"
  shows "\<exists>j. reached no_jobs_yet (tick False) (js @ [j]) \<and> hardened contended_br lv j \<and> jobInFlight j \<and>
    j_Name j = levelJobName sample_deps (frozen t) contended_br lv"
proof -
  let ?K = "contended_kube js"
  have "getBackupRepository ?K sample_req = Inr contended_br"
    by (simp add: contended_kube_def sample_kube_br_def)
  then obtain seen' effs res j where
    r: "Reconcile sample_deps sample_images ?K (frozen t) sample_req Map.empty = Ret (seen', effs, res)"
    and j: "createdJobs effs = [j]" "hardened contended_br lv j"
      "j_Name j = levelJobName sample_deps (frozen t) contended_br lv"
    using Reconcile_schedule [OF _ contended_credentials assms(2) contended_equipped, where req = sample_req and
        seen = Map.empty] assms(3) by fastforce
  have k: "owner_ok ?K"
    using contended_kube_serves by (simp add: serves_def)
  have "createJob ?K j = None"
    using assms(4) j(3) by (auto simp: contended_kube_def job_key_def)
  then have "stored_jobs ?K t (take (length effs) effs) = [j\<lparr>j_CreationTimestamp := t\<rparr>]"
    using j(1) by (simp add: stored_jobs_def)
  with tick.reconciles [OF contended_kube_serves r, of t "length effs"]
  have "tick False js (js @ [j\<lparr>j_CreationTimestamp := t\<rparr>])"
    by simp
  moreover have "jobInFlight j"
    using Reconcile_alone [OF r k, of j] j(1) by (auto simp: alone_def jobInFlight_def)
  ultimately show ?thesis
    using j(2,3) moves [OF assms(1)] by (intro exI [of _ "j\<lparr>j_CreationTimestamp := t\<rparr>"]) simp
qed

lemma contended_times:
  "nextLevel (frozen sample_now) contended_br = Some labelLevelE4"
  "nextLevel (frozen (sample_now + 30 * Minute)) contended_br = Some labelLevelE3"
  "nextLevel (frozen (sample_now + 45 * Minute)) contended_br = Some labelLevelE2"
  by code_simp+

lemma level_names_neq:
  "e3JobName sample_deps br t \<noteq> e4JobName sample_deps br u" "e2JobName sample_deps br t \<noteq> e4JobName sample_deps br u"
  "e2JobName sample_deps br t \<noteq> e3JobName sample_deps br u"
  using sample_deps_ok(4) by (auto simp: e2JobName_def e3JobName_def e4JobName_def dest!: jobName_eq_base)

lemma frozen_names:
  "levelJobName D (frozen t) br labelLevelE2 = e2JobName D br t"
  "levelJobName D (frozen t) br labelLevelE3 = e3JobName D br t"
  "levelJobName D (frozen t) br labelLevelE4 = e4JobName D br t"
  by (simp_all add: frozen_def)

lemma unblocked_levels:
  "nextLevel clk br = Some labelLevelE2 \<Longrightarrow> free (listE2Jobs K br) \<Longrightarrow> unblocked K clk br"
  "nextLevel clk br = Some labelLevelE3 \<Longrightarrow> free (listE2Jobs K br) \<Longrightarrow> free (e3Jobs K br) \<Longrightarrow> unblocked K clk br"
  using level_labels_neq by (auto simp: nextLevel_def unblocked_def Let_def split: if_splits)

lemma contended_free:
  "\<forall>j\<in>set js. hardened contended_br labelLevelE3 j \<or> hardened contended_br labelLevelE4 j \<Longrightarrow>
     free (listE2Jobs (contended_kube js) contended_br)"
  "\<forall>j\<in>set js. hardened contended_br labelLevelE4 j \<Longrightarrow> free (e3Jobs (contended_kube js) contended_br)"
  using level_labels_neq
  by (auto simp: contended_lists free_def levelLabels_def firstActiveJob_None hardened_selected)

text \<open>After half an hour, a full and a sampled retrieval are in flight.\<close>

lemma contended_retrievals:
  "\<exists>j4 j3. reached no_jobs_yet (tick False) [j4, j3] \<and> jobInFlight j4 \<and> jobInFlight j3 \<and>
     hardened contended_br labelLevelE4 j4 \<and> hardened contended_br labelLevelE3 j3 \<and>
     j_Name j4 = e4JobName sample_deps contended_br sample_now \<and>
     j_Name j3 = e3JobName sample_deps contended_br (sample_now + 30 * Minute)"
proof -
  have "reached no_jobs_yet (tick False) []"
    by (rule begins) (simp add: no_jobs_yet_def)
  moreover have "unblocked (contended_kube []) (frozen sample_now) contended_br"
    by (simp add: unblocked_def contended_lists free_def firstActiveJob_def Let_def)
  ultimately obtain j4 where j4: "reached no_jobs_yet (tick False) [j4]" "hardened contended_br labelLevelE4 j4"
    "jobInFlight j4" "j_Name j4 = e4JobName sample_deps contended_br sample_now"
    using contended_start [of "[]", OF _ _ contended_times(1)] unfolding frozen_names by auto
  have "unblocked (contended_kube [j4]) (frozen (sample_now + 30 * Minute)) contended_br"
    by (rule unblocked_levels(2) [OF contended_times(2)]; rule contended_free) (simp_all add: j4(2))
  then obtain j3 where "reached no_jobs_yet (tick False) [j4, j3]" "hardened contended_br labelLevelE3 j3"
    "jobInFlight j3" "j_Name j3 = e3JobName sample_deps contended_br (sample_now + 30 * Minute)"
    using contended_start [OF j4(1) _ contended_times(2)] j4(4) level_names_neq(1) [symmetric] unfolding frozen_names by auto
  with j4 show ?thesis
    by blast
qed

lemma contended_unblocked:
  "hardened contended_br labelLevelE4 j4 \<Longrightarrow> hardened contended_br labelLevelE3 j3 \<Longrightarrow>
   unblocked (contended_kube [j4, j3]) (frozen (sample_now + 45 * Minute)) contended_br"
  by (rule unblocked_levels(1) [OF contended_times(3)], rule contended_free(1)) simp

lemma contended_run:
  "\<exists>j4 j3 j2. reached no_jobs_yet (tick False) [j4, j3, j2] \<and> jobInFlight j4 \<and> jobInFlight j3 \<and> jobInFlight j2 \<and>
     hardened contended_br labelLevelE4 j4 \<and> hardened contended_br labelLevelE3 j3 \<and> hardened contended_br labelLevelE2 j2"
proof -
  obtain j4 j3 where j: "reached no_jobs_yet (tick False) [j4, j3]" "jobInFlight j4" "jobInFlight j3"
    "hardened contended_br labelLevelE4 j4" "hardened contended_br labelLevelE3 j3"
    and names: "j_Name j4 = e4JobName sample_deps contended_br sample_now"
      "j_Name j3 = e3JobName sample_deps contended_br (sample_now + 30 * Minute)"
    using contended_retrievals by blast
  obtain j2 where "reached no_jobs_yet (tick False) [j4, j3, j2]" "hardened contended_br labelLevelE2 j2" "jobInFlight j2"
    using contended_start [OF j(1) contended_unblocked [OF j(4,5)] contended_times(3)] names
      level_names_neq(2,3) [symmetric] unfolding frozen_names by auto
  with j show ?thesis
    by blast
qed

lemma selected_hardened:
  assumes "hardened br lv j" "job_key j' = job_key j" "j_Labels j' = j_Labels j"
  shows "selected (jobNamespace br) (levelLabels br lv) j'"
  using assms by (simp add: hardened_def selected_def job_key_def levelLabels_def)





theorem jobs_never_pile_up_witness:
  "\<exists>js. length js = 3 \<and> reached no_jobs_yet (tick False) js \<and> list_all jobInFlight js \<and>
     (\<forall>ns name lv. length (running ns name lv js) \<le> 1)"
proof -
  obtain j4 j3 j2 where run: "reached no_jobs_yet (tick False) [j4, j3, j2]" "jobInFlight j4" "jobInFlight j3" "jobInFlight j2"
    using contended_run by blast
  then show ?thesis
    using jobs_never_pile_up [OF run(1)] by (intro exI [of _ "[j4, j3, j2]"]) simp
qed

section \<open>A round of validation\<close>

lemma served_newest:
  assumes "serves False K js" "listE2Jobs K br = Inr jobs"
  shows "set jobs = {j \<in> set js. selected (jobNamespace br) (levelLabels br labelLevelE2) j}"
  using assms unfolding serves_def listE2Jobs_def by blast

text \<open>A finished Job is the last word of its level in the cluster: newer than the record and than every other run.\<close>

definition last_word :: "BackupRepository \<Rightarrow> Job list \<Rightarrow> Job \<Rightarrow> bool" where
  "last_word br js j \<longleftrightarrow> j \<in> set js \<and> \<not> jobInFlight j \<and>
     (\<forall>m. VerifiedLastValidationAt (Status br) = Some m \<longrightarrow> m < jobCompletionTime j) \<and>
     (\<forall>k\<in>set js. selected (jobNamespace br) (levelLabels br labelLevelE2) k \<and> \<not> jobInFlight k \<and> k \<noteq> j \<longrightarrow>
        jobCompletionTime k < jobCompletionTime j)"

text \<open>
  C15: a round of validation. If a validation is due, none is in flight and nothing stands in the way, a reconcile
  returns and asks for one E2 Job with all safeguards. When this Job has finished, as the last of its level, any later
  reconcile of the same repository that gets its credentials, can list the Jobs of a current cluster and returns
  publishes the Job's completion time, and MetadataValid True or False as the Job succeeded or failed.
\<close>

theorem validation_round:
  assumes "conditions_ok D" "sorts (SortJobs D)"
    and "getBackupRepository K req = Inr br" "resolveCredentials D K br = Inr creds"
    and "free (listE2Jobs K br)" "e2Due clk br (fg_e2 (forceGates br))"
    and "validatorImageFor D VI (Format (Spec br)) = Inr img" "cooperative K br"
  shows "\<exists>seen' effs res j. Reconcile D VI K clk req seen = Ret (seen', effs, res) \<and> createdJobs effs = [j] \<and>
    hardened br labelLevelE2 j \<and>
    (\<forall>K2 clk2 seen2 seen2' effs2 res2 br2 creds2 jobs js j'.
       job_key j' = job_key j \<and> j_Labels j' = j_Labels j \<and> last_word br2 js j' \<and> serves False K2 js \<and>
       getBackupRepository K2 req = Inr br2 \<and> br_Name br2 = br_Name br \<and> jobNamespace br2 = jobNamespace br \<and>
       resolveCredentials D K2 br2 = Inr creds2 \<and> listE2Jobs K2 br2 = Inr jobs \<and>
       Reconcile D VI K2 clk2 req seen2 = Ret (seen2', effs2, res2) \<longrightarrow>
       (\<exists>b. PatchStatus b \<in> set effs2 \<and> VerifiedLastValidationAt (Status b) = Some (jobCompletionTime j') \<and>
          status_of D (conds b) ConditionMetadataValid =
            Some (if jobSucceeded j' then ConditionTrue else ConditionFalse)))"
proof -
  obtain jobs1 where idle: "listE2Jobs K br = Inr jobs1" "\<not> inFlight jobs1"
    using assms(5) by (auto simp: free_cases)
  obtain seen' effs res j where run: "Reconcile D VI K clk req seen = Ret (seen', effs, res)" "createdJobs effs = [j]"
    and j: "hardened br labelLevelE2 j"
    using Reconcile_starts_E2 [OF assms(3,4) idle assms(6-8)] by blast
  have "\<exists>b. PatchStatus b \<in> set effs2 \<and> VerifiedLastValidationAt (Status b) = Some (jobCompletionTime j') \<and>
      status_of D (conds b) ConditionMetadataValid = Some (if jobSucceeded j' then ConditionTrue else ConditionFalse)"
    if j': "job_key j' = job_key j" "j_Labels j' = j_Labels j" "last_word br2 js j'" and K2: "serves False K2 js"
      and br2: "getBackupRepository K2 req = Inr br2" "br_Name br2 = br_Name br" "jobNamespace br2 = jobNamespace br"
        "resolveCredentials D K2 br2 = Inr creds2" "listE2Jobs K2 br2 = Inr jobs"
      and run2: "Reconcile D VI K2 clk2 req seen2 = Ret (seen2', effs2, res2)"
    for K2 clk2 seen2 seen2' effs2 res2 br2 creds2 jobs js j'
  proof -
    have "selected (jobNamespace br2) (levelLabels br2 labelLevelE2) j'"
      using selected_hardened [OF j j'(1,2)] br2(2,3) by (simp add: levelLabels_def)
    then have mem: "j' \<in> set jobs"
      using j'(3) served_newest [OF K2 br2(5)] by (simp add: last_word_def)
    obtain b k where b: "PatchStatus b \<in> set effs2" "k \<in> set jobs" "\<not> jobInFlight k"
      "VerifiedLastValidationAt (Status b) = Some (jobCompletionTime k)" "jobCompletionTime j' \<le> jobCompletionTime k"
      "status_of D (conds b) ConditionMetadataValid = Some (if jobSucceeded k then ConditionTrue else ConditionFalse)"
      using validation_recorded [OF assms(1,2) br2(1,4,5) mem _ _ run2] j'(3) unfolding last_word_def by blast
    have "k = j'"
      using b(2,3,5) j'(3) served_newest [OF K2 br2(5)] unfolding last_word_def by fastforce
    with b show ?thesis
      by blast
  qed
  with run j show ?thesis
    by blast
qed

lemma contended_returns:
  "\<exists>seen' effs res. Reconcile sample_deps sample_images (contended_kube js) clk sample_req seen = Ret (seen', effs, res)"
proof -
  have "sampling_configured (Spec contended_br)"
    by (simp add: sampling_configured_def contended_br_def sample_spec_def)
  then obtain r where r: "runLevels sample_deps sample_images (contended_kube js) clk contended_br sample_creds
      (forceGates contended_br) = Ret r"
    using runLevels_returns by blast
  have "getBackupRepository (contended_kube js) sample_req = Inr contended_br"
    by (simp add: contended_kube_def sample_kube_br_def)
  with r show ?thesis
    by (cases r)
      (simp add: Reconcile_def contended_credentials validateAndPublish_def applyStatus_def Let_def split: sum.split)
qed

text \<open>The repository above is validated: the Job takes a minute and succeeds, and its time is published.\<close>

theorem validation_round_witness:
  "\<exists>mem effs res j k mem2 effs2 res2 b.
     Reconcile sample_deps sample_images (contended_kube []) (frozen (sample_now + 45 * Minute)) sample_req Map.empty =
       Ret (mem, effs, res) \<and> createdJobs effs = [j] \<and> hardened contended_br labelLevelE2 j \<and> job_key k = job_key j \<and>
     Reconcile sample_deps sample_images (contended_kube [k]) (frozen (sample_now + 47 * Minute)) sample_req mem =
       Ret (mem2, effs2, res2) \<and> PatchStatus b \<in> set effs2 \<and>
     VerifiedLastValidationAt (Status b) = Some (sample_now + 46 * Minute) \<and>
     status_of sample_deps (conds b) ConditionMetadataValid = Some ConditionTrue"
proof -
  let ?t = "sample_now + 45 * Minute"
  have br: "getBackupRepository (contended_kube js) sample_req = Inr contended_br" for js
    by (simp add: contended_kube_def sample_kube_br_def)
  have idle: "free (listE2Jobs (contended_kube []) contended_br)"
    by (rule contended_free) simp
  have due: "e2Due (frozen ?t) contended_br (fg_e2 (forceGates contended_br))"
    by code_simp
  have img: "validatorImageFor sample_deps sample_images (Format (Spec contended_br)) = Inr (Restic sample_images)"
    by code_simp
  have "cooperative (contended_kube []) contended_br"
    using contended_equipped by (simp add: equipped_def)
  from validation_round [OF sample_deps_ok(1,2) br contended_credentials idle due img this, of Map.empty]
  show ?thesis
  proof (elim exE conjE, goal_cases)
    case (1 mem effs res j)
    define k where "k = j\<lparr>j_Conditions := [\<lparr>jc_Type = JobComplete, jc_Status = ConditionTrue\<rparr>],
      j_CompletionTime := Some (sample_now + 46 * Minute)\<rparr>"
    have k: "job_key k = job_key j" "j_Labels k = j_Labels j" "jobCompletionTime k = sample_now + 46 * Minute"
      "jobSucceeded k" "\<not> jobInFlight k"
      by (simp_all add: k_def job_key_def jobCompletionTime_def jobSucceeded_def jobInFlight_def has_condition_def)
    have "VerifiedLastValidationAt (Status contended_br) = Some (sample_now - 20 * Minute)" "0 < Minute"
      by code_simp+
    then have "last_word contended_br [k] k"
      using k by (simp add: last_word_def)
    moreover obtain mem2 effs2 res2 where
      run2: "Reconcile sample_deps sample_images (contended_kube [k]) (frozen (sample_now + 47 * Minute)) sample_req mem =
        Ret (mem2, effs2, res2)"
      using contended_returns by blast
    ultimately obtain b where "PatchStatus b \<in> set effs2"
      "VerifiedLastValidationAt (Status b) = Some (sample_now + 46 * Minute)"
      "status_of sample_deps (conds b) ConditionMetadataValid = Some ConditionTrue"
      using 1(4) [rule_format, of k contended_br "[k]", OF conjI [OF k(1) conjI [OF k(2) conjI [OF _ conjI [OF
        contended_kube_serves conjI [OF br conjI [OF refl conjI [OF refl conjI [OF contended_credentials
        conjI [OF contended_lists(1) run2]]]]]]]]]] k(3,4) by auto
    with 1(1-3) run2 k(1) show ?case
      by blast
  qed
qed

end
