(* ===== verification/Verdict.thy ===== *)
theory Verdict
  imports Lifecycle
begin

text \<open>
  When a reconcile publishes Healthy: the exact conditions on the probe and on the results of the levels,
  and what the other controller does with that verdict.
\<close>

section \<open>Healthy as a function of the inputs\<close>

definition passed :: "Condition option \<Rightarrow> bool" where
  "passed r \<longleftrightarrow> map_option cStatus r = Some ConditionTrue"

lemma passed_simps [simp]: "passed None = False" "passed (Some c) = (cStatus c = ConditionTrue)"
  by (simp_all add: passed_def)

lemma view_sub_types:
  assumes "conditions_ok D" "reachable inp = Some c1" "bucketSecurityValid inp = Some c2"
    "backupCurrent inp = Some c3"
  shows "view D (subConditions D br inp) ConditionReachable = Some (core c1)"
    "view D (subConditions D br inp) ConditionBucketSecurityValid = Some (core c2)"
    "view D (subConditions D br inp) ConditionBackupCurrent = Some (core c3)"
    "view D (subConditions D br inp) ConditionSizeWithinBudget =
       map_option (\<lambda>b. core (computeSizeWithinBudget D br b)) (ExpectedSizeBudget (Spec br))"
    "status_of D (subConditions D br inp) ConditionMetadataValid =
       Some (case metadataValid inp of Some c \<Rightarrow> cStatus c | None \<Rightarrow> ConditionUnknown)"
    "status_of D (subConditions D br inp) ConditionSampledIntegrityValid =
       (if SampledRetrievalInterval (Spec br) = None then None
        else Some (case sampledIntegrityValid inp of Some c \<Rightarrow> cStatus c | None \<Rightarrow> ConditionUnknown))"
    "status_of D (subConditions D br inp) ConditionFullRetrievalCompleted =
       (if \<not> e4Meaningful br inp then None
        else Some (case fullRetrievalCompleted inp of
            Some c \<Rightarrow> cStatus c
          | None \<Rightarrow> if e4JobActive inp then ConditionUnknown
                     else (case status_of D (conds br) ConditionFullRetrievalCompleted of
                             Some st \<Rightarrow> st | None \<Rightarrow> ConditionUnknown)))"
  using assms
  by (auto simp: subConditions_def status_of_def core_def cond_simps pending_def split: option.split)

lemma all_statuses:
  "(\<forall>s\<in>statuses D cs ts. s = x) \<longleftrightarrow> (\<forall>t\<in>set ts. status_of D cs t \<in> {None, Some x})"
proof
  assume "\<forall>s\<in>statuses D cs ts. s = x"
  then have "status_of D cs t \<in> {None, Some x}" if "t \<in> set ts" for t
    using that by (cases "status_of D cs t") (auto simp: statuses_def)
  then show "\<forall>t\<in>set ts. status_of D cs t \<in> {None, Some x}"
    by blast
qed (auto simp: statuses_def)

lemma healthy_inputs_iff:
  assumes "conditions_ok D" "reachable inp = Some c1" "bucketSecurityValid inp = Some c2"
    "backupCurrent inp = Some c3"
  shows "status_of D (conds (applyConditions D br inp)) ConditionHealthy = Some ConditionTrue \<longleftrightarrow>
    cStatus c1 = ConditionTrue \<and> cStatus c2 = ConditionTrue \<and> cStatus c3 = ConditionTrue \<and>
    (\<forall>b. ExpectedSizeBudget (Spec br) = Some b \<longrightarrow> cStatus (computeSizeWithinBudget D br b) = ConditionTrue) \<and>
    passed (metadataValid inp) \<and>
    (SampledRetrievalInterval (Spec br) = None \<or> passed (sampledIntegrityValid inp)) \<and>
    (\<not> e4Meaningful br inp \<or> passed (fullRetrievalCompleted inp) \<or>
       fullRetrievalCompleted inp = None \<and> \<not> e4JobActive inp \<and>
       status_of D (conds br) ConditionFullRetrievalCompleted = Some ConditionTrue)"
proof -
  let ?cs = "subConditions D br inp"
  have "status_of D (conds (applyConditions D br inp)) ConditionHealthy =
      Some (conjunction (statuses D ?cs sub_types))"
    using applyConditions_rollups(3) [OF assms(1), of inp br] assms(2)
      statuses_subConditions [OF assms(1), of sub_types br inp] by simp
  moreover have "conjunction (statuses D ?cs sub_types) = ConditionTrue \<longleftrightarrow>
      (\<forall>t\<in>set sub_types. status_of D ?cs t \<in> {None, Some ConditionTrue})"
  proof -
    have "ConditionReachable \<in> set sub_types" "status_of D ?cs ConditionReachable \<noteq> None"
      using view_sub_types(1) [OF assms, of br] by (simp_all add: status_of_def type_list_defs)
    then have "statuses D ?cs sub_types \<noteq> {}"
      unfolding statuses_def by blast
    then have "conjunction (statuses D ?cs sub_types) = ConditionTrue \<longleftrightarrow>
        (\<forall>s\<in>statuses D ?cs sub_types. s = ConditionTrue)"
      using conjunction_True_iff [OF finite_statuses, of D ?cs sub_types] by blast
    then show ?thesis
      unfolding all_statuses .
  qed
  moreover have "(\<forall>t\<in>set sub_types. status_of D ?cs t \<in> {None, Some ConditionTrue}) \<longleftrightarrow>
    status_of D ?cs ConditionReachable \<in> {None, Some ConditionTrue} \<and>
    status_of D ?cs ConditionBucketSecurityValid \<in> {None, Some ConditionTrue} \<and>
    status_of D ?cs ConditionBackupCurrent \<in> {None, Some ConditionTrue} \<and>
    status_of D ?cs ConditionSizeWithinBudget \<in> {None, Some ConditionTrue} \<and>
    status_of D ?cs ConditionMetadataValid \<in> {None, Some ConditionTrue} \<and>
    status_of D ?cs ConditionSampledIntegrityValid \<in> {None, Some ConditionTrue} \<and>
    status_of D ?cs ConditionFullRetrievalCompleted \<in> {None, Some ConditionTrue}"
    by (auto simp: type_list_defs)
  moreover note v = view_sub_types [OF assms, of br]
  have "status_of D ?cs ConditionReachable \<in> {None, Some ConditionTrue} \<longleftrightarrow> cStatus c1 = ConditionTrue"
    "status_of D ?cs ConditionBucketSecurityValid \<in> {None, Some ConditionTrue} \<longleftrightarrow> cStatus c2 = ConditionTrue"
    "status_of D ?cs ConditionBackupCurrent \<in> {None, Some ConditionTrue} \<longleftrightarrow> cStatus c3 = ConditionTrue"
    by (simp_all add: status_of_def v(1-3) core_def)
  moreover have "status_of D ?cs ConditionSizeWithinBudget \<in> {None, Some ConditionTrue} \<longleftrightarrow>
      (\<forall>b. ExpectedSizeBudget (Spec br) = Some b \<longrightarrow> cStatus (computeSizeWithinBudget D br b) = ConditionTrue)"
    by (cases "ExpectedSizeBudget (Spec br)") (simp_all add: status_of_def v(4) core_def)
  moreover have "status_of D ?cs ConditionMetadataValid \<in> {None, Some ConditionTrue} \<longleftrightarrow> passed (metadataValid inp)"
    by (cases "metadataValid inp") (simp_all add: v(5))
  moreover have "status_of D ?cs ConditionSampledIntegrityValid \<in> {None, Some ConditionTrue} \<longleftrightarrow>
      SampledRetrievalInterval (Spec br) = None \<or> passed (sampledIntegrityValid inp)"
    by (cases "sampledIntegrityValid inp"; cases "SampledRetrievalInterval (Spec br)") (simp_all add: v(6))
  moreover have "status_of D ?cs ConditionFullRetrievalCompleted \<in> {None, Some ConditionTrue} \<longleftrightarrow>
      \<not> e4Meaningful br inp \<or> passed (fullRetrievalCompleted inp) \<or>
       fullRetrievalCompleted inp = None \<and> \<not> e4JobActive inp \<and>
       status_of D (conds br) ConditionFullRetrievalCompleted = Some ConditionTrue"
    by (cases "fullRetrievalCompleted inp"; cases "status_of D (conds br) ConditionFullRetrievalCompleted")
       (simp_all add: v(7))
  ultimately show ?thesis
    by (simp only: option.inject)
qed

section \<open>Healthy as a function of what a cycle finds\<close>

text \<open>
  A level's result as the status shows it: the one ingested in this cycle, otherwise the recorded condition,
  which counts only beside the time it was recorded with.
\<close>

definition standing ::
  "deps \<Rightarrow> BackupRepository \<Rightarrow> string \<Rightarrow> bool \<Rightarrow> Condition option \<Rightarrow> Condition option" where
  "standing D br t recorded new =
     (case new of
        Some c \<Rightarrow> Some c
      | None \<Rightarrow> if recorded then preservedCondition D br t else None)"

lemma preserved_conds: "conds a = conds b \<Longrightarrow> preservedCondition D a t = preservedCondition D b t"
  by (simp add: preservedCondition_def)

lemma recorded_results:
  "snd (recordE2 D e2 br) =
     standing D br ConditionMetadataValid (VerifiedLastValidationAt (Status br) \<noteq> None) (e2_completedResult e2)"
  "snd (recordE3 D e3 br) =
     standing D br ConditionSampledIntegrityValid (VerifiedLastSampledRetrievalAt (Status br) \<noteq> None)
       (e3_completedResult e3)"
  "snd (recordE4 D e4 br) =
     standing D br ConditionFullRetrievalCompleted (LastFullRetrieval (Status br) \<noteq> None) (e4_completedResult e4)"
  by (auto simp: recordE2_def recordE3_def recordE4_def standing_def split: option.splits)

text \<open>Everything Healthy asks for, in terms of the probe, the spec and the level results.\<close>

definition all_passed ::
  "deps \<Rightarrow> time \<Rightarrow> BackupRepository \<Rightarrow> probeResult \<Rightarrow> e2Outcome \<Rightarrow> e3Outcome \<Rightarrow> e4Outcome \<Rightarrow>
   BackupRepository \<Rightarrow> bool" where
  "all_passed D now br p e2 e3 e4 b \<longleftrightarrow>
     pr_Reachable p \<and> pr_BucketSecurityValid p \<and>
     (\<exists>t. LastSuccessfulBackup p = Some t \<and> Sub now t \<le> MaxBackupLag (Spec br)) \<and>
     (\<forall>budget. ExpectedSizeBudget (Spec br) = Some budget \<longrightarrow>
        cStatus (computeSizeWithinBudget D b budget) = ConditionTrue) \<and>
     passed (standing D br ConditionMetadataValid (VerifiedLastValidationAt (Status br) \<noteq> None)
       (e2_completedResult e2)) \<and>
     (SampledRetrievalInterval (Spec br) = None \<or>
      passed (standing D br ConditionSampledIntegrityValid (VerifiedLastSampledRetrievalAt (Status br) \<noteq> None)
        (e3_completedResult e3))) \<and>
     (let full = standing D br ConditionFullRetrievalCompleted (LastFullRetrieval (Status br) \<noteq> None)
            (e4_completedResult e4)
      in FullRetrievalInterval (Spec br) = None \<and> LastFullRetrieval (Status b) = None \<and> \<not> e4_jobActive e4 \<or>
         passed full \<or>
         full = None \<and> \<not> e4_jobActive e4 \<and>
         status_of D (conds br) ConditionFullRetrievalCompleted = Some ConditionTrue)"

lemma record_marks [simp]:
  "VerifiedLastSampledRetrievalAt (Status (fst (recordE2 D e2 br))) = VerifiedLastSampledRetrievalAt (Status br)"
  "LastFullRetrieval (Status (fst (recordE2 D e2 br))) = LastFullRetrieval (Status br)"
  "LastFullRetrieval (Status (fst (recordE3 D e3 br))) = LastFullRetrieval (Status br)"
  "VerifiedLastValidationAt (Status (recordProbe p h h4 br)) = VerifiedLastValidationAt (Status br)"
  "VerifiedLastSampledRetrievalAt (Status (recordProbe p h h4 br)) = VerifiedLastSampledRetrievalAt (Status br)"
  "LastFullRetrieval (Status (recordProbe p h h4 br)) = LastFullRetrieval (Status br)"
  "ClaimedLastSuccessfulBackup (Status (fst (recordE2 D e2 br))) = ClaimedLastSuccessfulBackup (Status br)"
  "ClaimedLastSuccessfulBackup (Status (fst (recordE3 D e3 br))) = ClaimedLastSuccessfulBackup (Status br)"
  "ClaimedLastSuccessfulBackup (Status (fst (recordE4 D e4 br))) = ClaimedLastSuccessfulBackup (Status br)"
  "ClaimedLastSuccessfulBackup (Status (recordProbe p h h4 br)) = LastSuccessfulBackup p"
  by (auto simp: recordE2_def recordE3_def recordE4_def recordProbe_def split: option.split)

lemma nextStatus_healthy_iff:
  assumes "conditions_ok D" "b = nextStatus D now br p e2 e3 e4 h h4"
  shows "status_of D (conds b) ConditionHealthy = Some ConditionTrue \<longleftrightarrow> all_passed D now br p e2 e3 e4 b"
proof -
  let ?b1 = "recordProbe p h h4 (touch now br)"
  let ?b2 = "fst (recordE2 D e2 ?b1)"
  let ?b3 = "fst (recordE3 D e3 ?b2)"
  let ?b4 = "fst (recordE4 D e4 ?b3)"
  have c: "conds ?b1 = conds br" "conds ?b2 = conds br" "conds ?b3 = conds br" "conds ?b4 = conds br"
    by simp_all
  have full: "LastFullRetrieval (Status b) = LastFullRetrieval (Status ?b4)" "Spec b = Spec br"
    "ObservedInventory (Status b) = ObservedInventory (Status ?b4)"
    unfolding assms(2) nextStatus_eq Let_def by simp_all
  then have size: "computeSizeWithinBudget D b budget = computeSizeWithinBudget D ?b4 budget" for budget
    by (simp add: computeSizeWithinBudget_def)
  let ?r1 = "condFromBool (pr_Reachable p) (ReachableReason p) (ReachableMessage p)"
  let ?r2 = "ifReachable (pr_Reachable p)
    (condFromBool (pr_BucketSecurityValid p) (BucketSecurityReason p) (BucketSecurityMessage p))"
  let ?r3 = "ifReachable (pr_Reachable p) (computeBackupCurrent ?b4 now)"
  have e1: "cStatus ?r1 = ConditionTrue \<longleftrightarrow> pr_Reachable p"
    by (simp add: cond_simps)
  have e2: "pr_Reachable p \<Longrightarrow> cStatus ?r2 = ConditionTrue \<longleftrightarrow> pr_BucketSecurityValid p"
    by (simp add: cond_simps ifReachable_def)
  have e3: "pr_Reachable p \<Longrightarrow> cStatus ?r3 = ConditionTrue \<longleftrightarrow>
      (\<exists>t. LastSuccessfulBackup p = Some t \<and> Sub now t \<le> MaxBackupLag (Spec br))"
    by (simp add: cond_simps ifReachable_def computeBackupCurrent_def Let_def split: option.split)
  have s: "snd (recordE2 D e2 ?b1) =
      standing D br ConditionMetadataValid (VerifiedLastValidationAt (Status br) \<noteq> None) (e2_completedResult e2)"
    "snd (recordE3 D e3 ?b2) = standing D br ConditionSampledIntegrityValid
      (VerifiedLastSampledRetrievalAt (Status br) \<noteq> None) (e3_completedResult e3)"
    "snd (recordE4 D e4 ?b3) = standing D br ConditionFullRetrievalCompleted
      (LastFullRetrieval (Status br) \<noteq> None) (e4_completedResult e4)"
    unfolding recorded_results standing_def preserved_conds [OF c(1)] preserved_conds [OF c(2)]
      preserved_conds [OF c(3)] by (auto split: option.split)
  obtain inp where b: "b = applyConditions D ?b4 inp"
    and inp: "reachable inp = Some ?r1" "bucketSecurityValid inp = Some ?r2" "backupCurrent inp = Some ?r3"
      "metadataValid inp = snd (recordE2 D e2 ?b1)" "sampledIntegrityValid inp = snd (recordE3 D e3 ?b2)"
      "fullRetrievalCompleted inp = snd (recordE4 D e4 ?b3)" "e4JobActive inp = e4_jobActive e4"
    using assms(2) unfolding nextStatus_eq Let_def by (metis conditionInputs.select_convs)
  have m: "\<not> e4Meaningful ?b4 inp \<longleftrightarrow>
      FullRetrievalInterval (Spec br) = None \<and> LastFullRetrieval (Status b) = None \<and> \<not> e4_jobActive e4"
    unfolding e4Meaningful_def inp(7) full(1) by simp
  have spec: "Spec ?b4 = Spec br"
    by simp
  note h = healthy_inputs_iff [OF assms(1) inp(1-3), of ?b4, folded b, unfolded inp(4-7) s]
  show ?thesis
  proof (cases "pr_Reachable p")
    case False
    then show ?thesis
      unfolding h e1 all_passed_def by (simp only: simp_thms)
  next
    case True
    then show ?thesis
      unfolding h e1 e2 [OF True] e3 [OF True] all_passed_def Let_def size m spec c(4)
      by (simp only: simp_thms)
  qed
qed

text \<open>
  C4: Healthy is published exactly when everything holds. A reconcile that gets the credentials and returns sends one
  status, and its Healthy is True if and only if the repository was reachable, its bucket secure, the newest backup
  within the allowed lag, the inventory within the budget if there is one, the standing E2 result positive, and so the
  standing results of E3 and E4 as far as the spec or the history asks for them. A result stands if it was ingested
  in this cycle, or was recorded before together with its time.
\<close>

theorem healthy_exact:
  assumes "conditions_ok D" "Reconcile D VI K clk req seen = Ret (seen', effs, res)"
    and "getBackupRepository K req = Inr br" "resolveCredentials D K br = Inr creds"
  shows "\<exists>levels e2 e3 e4 br' b. runLevels D VI K clk br creds (forceGates br) = Ret (levels, e2, e3, e4, br') \<and>
    patched effs = [b] \<and>
    (status_of D (conds b) ConditionHealthy = Some ConditionTrue \<longleftrightarrow>
       all_passed D (now_status clk) br' (probeRepository D (Spec br) creds) e2 e3 e4 b)"
  using assms(2)
proof (cases rule: Reconcile_patched)
  case (result br0 creds0 levels e2 e3 e4 br')
  then have "br0 = br" "creds0 = creds"
    using assms(3,4) by simp_all
  with result nextStatus_healthy_iff [OF assms(1) refl, of "now_status clk" br'] show ?thesis
    by blast
qed (use assms(3,4) in auto)

section \<open>From a good backup to the restored child\<close>

lemma all_passed_claims:
  assumes "b = nextStatus D now br p e2 e3 e4 h h4" "all_passed D now br p e2 e3 e4 b"
  shows "ClaimedLastSuccessfulBackup (Status b) \<noteq> None"
  using assms(2) unfolding assms(1) nextStatus_eq Let_def by (auto simp: all_passed_def)

lemma on_wire_eq:
  assumes "on_wire s = on_wire s'"
  shows "Conditions s = Conditions s'"
    and "ClaimedLastSuccessfulBackup s = None \<longleftrightarrow> ClaimedLastSuccessfulBackup s' = None"
  using arg_cong [OF assms, of Conditions] arg_cong [OF assms, of ClaimedLastSuccessfulBackup]
  by (auto simp: on_wire_def)

text \<open>
  C5: a good backup reaches the conditional. If a reconcile finds everything Healthy asks for and its status is stored,
  the next reconcile of a conditional on that repository whose manifest for the healthy variant can be read, parsed and
  owned, and whose child the API server accepts, applies exactly that child and records the decision for the healthy
  variant, whatever it had decided before.
\<close>

theorem healthy_restores:
  assumes "conditions_ok D" "Reconcile D VI K clk key seen = Ret (seen', effs, res)"
    and "getBackupRepository K key = Inr br" "resolveCredentials D K br = Inr creds"
    and "runLevels D VI K clk br creds (forceGates br) = Ret (levels, e2, e3, e4, br')"
    and "PatchStatus b \<in> set effs" "all_passed D (now_status clk) br' (probeRepository D (Spec br) creds) e2 e3 e4 b"
    and "compatible D D'" "owner_identity C" "getConditional C ckey = Inr brc"
    and "getBackupRepository K' \<lparr>nn_Namespace = [], nn_Name = RepositoryRef (brc_Spec brc)\<rparr> = Inr r"
    and "on_wire (Status r) = on_wire (Status b)" "WhenHealthy (brc_Spec brc) = Some v"
    and "manifest K' C (brc_Namespace brc) (vs_ManifestRef v) = Some raw" "parsed C raw = Some obj"
    and "SetControllerReference C brc (placed (brc_Namespace brc) obj) = Inr own"
    and "applyObject C own brConditionalFieldManager True = Inr stored"
  shows "\<exists>b' res'. ReconcileConditional D' K' C now ckey =
      ([ApplyChild own brConditionalFieldManager True, PatchConditional b'], res') \<and>
    prior b' = (''whenHealthy'', Some now, Some (refOf stored))"
proof -
  let ?p = "probeRepository D (Spec br) creds"
  have b: "b = nextStatus D (now_status clk) br' ?p e2 e3 e4
      (honoredForce (forceGates br)) (honoredForceE4 (forceGates br))"
    using assms(2) assms(6) [folded patched_iff]
    by (cases rule: Reconcile_patched) (use assms(3-5) in auto)
  have "status_of D (conds r) ConditionHealthy = Some ConditionTrue"
    using nextStatus_healthy_iff [OF assms(1) b] assms(7) on_wire_eq(1) [OF assms(12)] by simp
  moreover have "deriveBRState D r \<noteq> brStateEmpty"
    using all_passed_claims [OF b assms(7)] on_wire_eq(2) [OF assms(12)] by (simp add: deriveBRState_cases(1))
  ultimately have st: "deriveBRState D' r = brStateHealthy"
    by (simp add: deriveBRState_cases(2) compatible_view(6) [OF assms(8)])
  then have "decision D' K' C brc r = Commit ''whenHealthy'' own stored"
    using assms(13-17)
    by (simp add: decision_def decidable_def variantFor_def verdict_def slotFor_def)
  then have "realizes D' C now brc (Commit ''whenHealthy'' own stored) (ReconcileConditional D' K' C now ckey)"
    using ReconcileConditional_realizes [OF compatible_view(1) [OF assms(8)] assms(9-11), of now] by simp
  then show ?thesis
    by (auto simp: realizes_def applies_def)
qed

section \<open>Witnesses\<close>

lemma fresh_client:
  "getBackupRepository fresh_kube sample_req = Inr fresh_br"
  "resolveCredentials sample_deps fresh_kube fresh_br = Inr sample_creds"
  "now_status (frozen sample_now) = sample_now"
  using fresh_parts(1) by (simp_all add: fresh_kube_def sample_kube_br_def frozen_def)

lemma sample_applied:
  "WhenHealthy (brc_Spec sample_conditional) =
     Some \<lparr>vs_ManifestRef = \<lparr>ConfigMap = Some \<lparr>kr_Name = ''recover'', kr_Key = ''m.yaml''\<rparr>, Secret = None\<rparr>\<rparr>"
  "manifest K sample_conditional_client (brc_Namespace sample_conditional)
     (vs_ManifestRef \<lparr>vs_ManifestRef = \<lparr>ConfigMap = Some \<lparr>kr_Name = ''recover'', kr_Key = ''m.yaml''\<rparr>, Secret = None\<rparr>\<rparr>) =
     Some ''manifest''"
  "parsed sample_conditional_client ''manifest'' = Some sample_manifest"
  "SetControllerReference sample_conditional_client sample_conditional
     (placed (brc_Namespace sample_conditional) sample_manifest) =
   Inr (sample_manifest\<lparr>ob_Namespace := ''db'', ob_Owner := Some ''pg-bootstrap''\<rparr>)"
  "applyObject sample_conditional_client obj manager force = Inr obj"
  by (simp_all add: manifest_def parsed_def placed_def sample_conditional_def sample_conditional_client_def sample_manifest_def)

theorem healthy_exact_witness:
  "\<exists>e2 e3 e4 b. all_passed sample_deps sample_now fresh_br (probeRepository sample_deps (Spec fresh_br) sample_creds) e2 e3 e4 b \<and>
     status_of sample_deps (conds b) ConditionHealthy = Some ConditionTrue"
proof -
  obtain mem effs res b where run: "Reconcile sample_deps sample_images fresh_kube (frozen sample_now) sample_req Map.empty =
     Ret (mem, effs, res)" "patched effs = [b]" "status_of sample_deps (conds b) ConditionHealthy = Some ConditionTrue"
    using fresh_run by blast
  obtain levels e2 e3 e4 br' where
    l: "runLevels sample_deps sample_images fresh_kube (frozen sample_now) fresh_br sample_creds (forceGates fresh_br) =
      Ret (levels, e2, e3, e4, br')"
    and "all_passed sample_deps sample_now br' (probeRepository sample_deps (Spec fresh_br) sample_creds) e2 e3 e4 b"
    using healthy_exact [OF sample_deps_ok(1) run(1) fresh_client(1,2)] run(2,3) by (auto simp: fresh_client(3))
  moreover have "br' = fresh_br"
    using runLevels_unforced [OF l] fresh_parts(6) by simp
  ultimately show ?thesis
    using run(3) by blast
qed

theorem healthy_restores_witness:
  "\<exists>r b' res'. status_of sample_deps (conds r) ConditionHealthy = Some ConditionTrue \<and>
     ReconcileConditional sample_deps (sample_kube_br r) sample_conditional_client 7 (ConditionalKey sample_conditional) =
       ([ApplyChild (sample_manifest\<lparr>ob_Namespace := ''db'', ob_Owner := Some ''pg-bootstrap''\<rparr>)
           brConditionalFieldManager True, PatchConditional b'], res') \<and>
     Decided (brc_Status b') = ''whenHealthy''"
proof -
  obtain mem effs res b where run: "Reconcile sample_deps sample_images fresh_kube (frozen sample_now) sample_req Map.empty =
     Ret (mem, effs, res)" "patched effs = [b]" "status_of sample_deps (conds b) ConditionHealthy = Some ConditionTrue"
    using fresh_run by blast
  then obtain levels e2 e3 e4 br' where
    l: "runLevels sample_deps sample_images fresh_kube (frozen sample_now) fresh_br sample_creds (forceGates fresh_br) =
      Ret (levels, e2, e3, e4, br')"
    and b: "b = nextStatus sample_deps (now_status (frozen sample_now)) br'
      (probeRepository sample_deps (Spec fresh_br) sample_creds) e2 e3 e4
      (honoredForce (forceGates fresh_br)) (honoredForceE4 (forceGates fresh_br))"
    by (cases rule: Reconcile_patched) (auto simp: fresh_client(1,2))
  note a = nextStatus_healthy_iff [OF sample_deps_ok(1) b, THEN iffD1, OF run(3)]
  have p: "PatchStatus b \<in> set effs"
    using run(2) by (simp flip: patched_iff)
  let ?r = "fresh_br\<lparr>Status := Status b\<rparr>"
  have "compatible sample_deps sample_deps"
    by (simp add: compatible_def)
  then have "\<exists>b' res'. ReconcileConditional sample_deps (sample_kube_br ?r) sample_conditional_client 7
      (ConditionalKey sample_conditional) =
       ([ApplyChild (sample_manifest\<lparr>ob_Namespace := ''db'', ob_Owner := Some ''pg-bootstrap''\<rparr>)
           brConditionalFieldManager True, PatchConditional b'], res') \<and>
     prior b' = (''whenHealthy'', Some 7,
       Some (refOf (sample_manifest\<lparr>ob_Namespace := ''db'', ob_Owner := Some ''pg-bootstrap''\<rparr>)))"
    by (rule healthy_restores [where r = ?r, OF sample_deps_ok(1) run(1) fresh_client(1,2) l p a _ sample_client_laws(1,4) _ _
          sample_applied]) (simp_all add: sample_kube_br_def)
  moreover have "status_of sample_deps (conds ?r) ConditionHealthy = Some ConditionTrue"
    using run(3) by simp
  ultimately show ?thesis
    by (auto simp: prior_def intro!: exI [of _ ?r])
qed

end
