(* ===== verification/Convergence.thy ===== *)
theory Convergence
  imports Verdict
begin

text \<open>
  A controller has to settle: when nothing has happened since the last cycle, the next one publishes the same status
  again. The rollups depend on the list of conditions only through what it shows, each sub-condition that a
  cycle writes is one that the next cycle reads back, and the fields of the status have one owner each.
\<close>

section \<open>Conditions through what they show\<close>

lemma rollup_step_cong:
  assumes "view D cs t = view D cs' t"
  shows "rollup_step D cs r t = rollup_step D cs' r t"
  using assms
  by (cases "FindStatusCondition D cs t"; cases "FindStatusCondition D cs' t")
     (auto simp: view_def core_def rollup_step_def split: ConditionStatus.split)

lemma rollupAND_cong:
  assumes "\<And>t. t \<in> set ts \<Longrightarrow> view D cs t = view D cs' t"
  shows "rollupAND D cs ts = rollupAND D cs' ts"
proof -
  have "foldl (rollup_step D cs) r ts = foldl (rollup_step D cs') r ts" for r
    using assms by (intro foldl_cong refl rollup_step_cong) auto
  then show ?thesis
    by (simp add: rollupAND_def)
qed

lemma view_emitRollups_cong:
  assumes ok: "conditions_ok D" and eq: "\<And>t. t \<notin> rollup_types \<Longrightarrow> view D cs t = view D cs' t"
  shows "view D (emitRollups D cs) = view D (emitRollups D cs')"
proof -
  have probe: "rollupAND D cs probe_types = rollupAND D cs' probe_types"
    by (rule rollupAND_cong) (use eq in \<open>auto simp: probe_types_def\<close>)
  let ?c = "rollupAND D cs' probe_types"
  have validation: "rollupAND D (setCondition D cs ConditionProbeHealthy (Some ?c)) validation_types =
      rollupAND D (setCondition D cs' ConditionProbeHealthy (Some ?c)) validation_types"
    by (rule rollupAND_cong) (use eq ok in \<open>auto simp: view_setCondition validation_types_def\<close>)
  let ?d = "rollupAND D (setCondition D cs' ConditionProbeHealthy (Some ?c)) validation_types"
  have overall: "rollupAND D (setCondition D (setCondition D cs ConditionProbeHealthy (Some ?c))
        ConditionValidationHealthy (Some ?d)) [ConditionProbeHealthy, ConditionValidationHealthy] =
      rollupAND D (setCondition D (setCondition D cs' ConditionProbeHealthy (Some ?c))
        ConditionValidationHealthy (Some ?d)) [ConditionProbeHealthy, ConditionValidationHealthy]"
    by (rule rollupAND_cong) (use ok in \<open>auto simp: view_setCondition\<close>)
  show ?thesis
  proof
    fix t
    show "view D (emitRollups D cs) t = view D (emitRollups D cs') t"
      using eq [of t] ok unfolding emitRollups_def Let_def probe validation overall
      by (simp add: view_setCondition)
  qed
qed

text \<open>Writing again what is shown already changes nothing.\<close>

definition shows_already :: "deps \<Rightarrow> BackupRepository \<Rightarrow> conditionInputs \<Rightarrow> bool" where
  "shows_already D br inp \<longleftrightarrow> (\<forall>t. view D (subConditions D br inp) t = view D (conds br) t)"

lemma rewrite_idempotent:
  assumes ok: "conditions_ok D" and "shows_already D b inp" "conds b = conds (applyConditions D a inp0)"
  shows "view D (conds (applyConditions D b inp)) = view D (conds b)"
proof -
  have "view D (subConditions D b inp) t = view D (subConditions D a inp0) t" if "t \<notin> rollup_types" for t
    using assms(2) view_subConditions [OF ok that, of a inp0] unfolding shows_already_def assms(3) by simp
  from view_emitRollups_cong [OF ok this] show ?thesis
    unfolding assms(3) conds_applyConditions .
qed

lemma shows_alreadyI:
  assumes ok: "conditions_ok D"
    and "reachable inp = Some r" "view D (conds br) ConditionReachable = Some (core r)"
    and "bucketSecurityValid inp = Some u" "view D (conds br) ConditionBucketSecurityValid = Some (core u)"
    and "backupCurrent inp = Some w" "view D (conds br) ConditionBackupCurrent = Some (core w)"
    and "view D (conds br) ConditionSizeWithinBudget =
      map_option (\<lambda>b. core (computeSizeWithinBudget D br b)) (ExpectedSizeBudget (Spec br))"
    and "view D (conds br) ConditionMetadataValid = view D (emitE2 D inp (conds br)) ConditionMetadataValid"
    and "view D (conds br) ConditionSampledIntegrityValid = view D (emitE3 D br inp (conds br)) ConditionSampledIntegrityValid"
    and "view D (conds br) ConditionFullRetrievalCompleted = view D (emitE4 D br inp (conds br)) ConditionFullRetrievalCompleted"
  shows "shows_already D br inp"
proof -
  have e1: "view D (emitE1 D inp (conds br)) = view D (conds br)"
    using assms(2-7) by (simp add: view_emitE1 [OF ok] fun_eq_iff)
  have e2: "view D (emitSize D br (emitE1 D inp (conds br))) = view D (conds br)"
    using assms(8) by (simp add: view_emitSize [OF ok] e1 fun_eq_iff)
  have e3: "view D (emitE2 D inp (emitSize D br (emitE1 D inp (conds br)))) = view D (conds br)"
    using assms(9) by (simp add: view_emitE2 [OF ok] e2 fun_eq_iff)
  have e4: "view D (emitE3 D br inp (emitE2 D inp (emitSize D br (emitE1 D inp (conds br))))) = view D (conds br)"
    using assms(10) by (simp add: view_emitE3 [OF ok] e3 fun_eq_iff)
  have "view D (subConditions D br inp) = view D (emitE4 D br inp (conds br))"
    unfolding subConditions_def view_emitE4 [OF ok] e4 ..
  moreover have "view D (emitE4 D br inp (conds br)) t = view D (conds br) t" for t
    using assms(11) by (cases "t = ConditionFullRetrievalCompleted") (simp_all add: view_emitE4 [OF ok])
  ultimately show ?thesis
    by (simp add: shows_already_def)
qed

section \<open>What the levels report\<close>

text \<open>
  A result comes with its time, and the validator's output is read only for restic repositories, whose newest
  backup the probe leaves open.
\<close>

lemma processE2_report:
  assumes "processE2 D VI K clk br f = (effs, out)"
  shows "e2_completedResult out \<noteq> None \<Longrightarrow> e2_completedAt out \<noteq> None"
    "e2_latestBackup out \<noteq> None \<Longrightarrow> Format (Spec br) = BackupFormatRestic"
proof -
  have "(e2_completedResult out \<noteq> None \<longrightarrow> e2_completedAt out \<noteq> None) \<and>
      (e2_latestBackup out \<noteq> None \<longrightarrow> Format (Spec br) = BackupFormatRestic)"
  proof (cases "listE2Jobs K br")
    case (Inr jobs)
    obtain effs0 o0 where c: "collectE2 D K br jobs = (effs0, o0)"
      by fastforce
    have "e2_completedResult out = e2_completedResult o0" "e2_completedAt out = e2_completedAt o0"
      "e2_latestBackup out = e2_latestBackup o0"
      using assms Inr c by (auto simp: processE2_def split: if_splits prod.splits sum.splits)
    moreover have "e2_latestBackup o0 \<noteq> None \<longrightarrow> Format (Spec br) = BackupFormatRestic"
      using c by (auto simp: collectE2_def noE2_def Let_def ingestE2Result_def parseE2Output_def
          split: option.splits if_splits BackupFormat.splits)
    ultimately show ?thesis
      using collectE2_fields(3,4) [OF c] by simp
  qed (use assms in \<open>auto simp: processE2_def noE2_def\<close>)
  then show "e2_completedResult out \<noteq> None \<Longrightarrow> e2_completedAt out \<noteq> None"
    "e2_latestBackup out \<noteq> None \<Longrightarrow> Format (Spec br) = BackupFormatRestic"
    by blast+
qed

lemma processE3_report:
  assumes "processE3 D VI K clk br creds f = Ret (effs, out)"
  shows "e3_completedResult out \<noteq> None \<Longrightarrow> e3_completedAt out \<noteq> None"
proof -
  have "e3_completedResult out \<noteq> None \<longrightarrow> e3_completedAt out \<noteq> None"
  proof (cases "SampledRetrievalInterval (Spec br) = None \<or> (\<exists>e. listE3Jobs K br = Inl e)")
    case True
    then show ?thesis
      using assms by (auto simp: processE3_def noE3_def split: if_splits)
  next
    case False
    then obtain jobs where l: "listE3Jobs K br = Inr jobs" "SampledRetrievalInterval (Spec br) \<noteq> None"
      by (cases "listE3Jobs K br") auto
    obtain effs0 o0 where c: "collectE3 D K br jobs = (effs0, o0)"
      by fastforce
    have "e3_completedResult out = e3_completedResult o0 \<and> e3_completedAt out = e3_completedAt o0"
      using assms l c
      by (auto simp: processE3_def go_simps split: if_splits prod.splits sum.splits; metis sum.exhaust)
    then show ?thesis
      using collectE3_fields(3,4) [OF c] by simp
  qed
  then show "e3_completedResult out \<noteq> None \<Longrightarrow> e3_completedAt out \<noteq> None"
    by blast
qed

lemma runLevels_report:
  assumes "runLevels D VI K clk br creds g = Ret (effs, e2, e3, e4, br')"
  shows "e2_completedResult e2 \<noteq> None \<Longrightarrow> e2_completedAt e2 \<noteq> None"
    "e2_latestBackup e2 \<noteq> None \<Longrightarrow> Format (Spec br) = BackupFormatRestic"
    "e3_completedResult e3 \<noteq> None \<Longrightarrow> e3_completedAt e3 \<noteq> None"
  using assms
  by (cases rule: runLevels_cases; auto split: if_splits simp: noE3_def dest: processE2_report processE3_report; fail)+

lemma probe_latest:
  "Format spec = BackupFormatRestic \<Longrightarrow> LatestBackup (probeRepository D spec creds) = None"
  by (auto simp: probeRepository_def reachOnly_def detectFormatAndTimestamp_def Let_def split: sum.split prod.split)

section \<open>A quiet cycle\<close>

text \<open>The repository as the next cycle reads it, once its status is stored.\<close>

definition reread :: "BackupRepository \<Rightarrow> BackupRepository" where
  "reread b = b\<lparr>Status := on_wire (Status b)\<rparr>"

lemma whole_seconds_idem [simp]: "whole_seconds (whole_seconds t) = whole_seconds t"
  by (simp add: whole_seconds_def mod_diff_left_eq [symmetric])

lemma reread_simps [simp]:
  "Conditions (Status (reread b)) = Conditions (Status b)" "Spec (reread b) = Spec b" "Generation (reread b) = Generation b"
  "VerifiedLastValidationAt (Status (reread b)) = None \<longleftrightarrow> VerifiedLastValidationAt (Status b) = None"
  "VerifiedLastSampledRetrievalAt (Status (reread b)) = None \<longleftrightarrow> VerifiedLastSampledRetrievalAt (Status b) = None"
  "LastFullRetrieval (Status (reread b)) = None \<longleftrightarrow> LastFullRetrieval (Status b) = None"
  "map_option TotalBytes (ObservedInventory (Status (reread b))) = map_option TotalBytes (ObservedInventory (Status b))"
  by (simp_all add: reread_def on_wire_def option.map_comp comp_def)

lemma real_preservedE:
  assumes "real D (conds br) t"
  obtains c where "preservedCondition D br t = Some c" "view D (conds br) t = Some (core c)"
proof -
  obtain c where "FindStatusCondition D (conds br) t = Some c" "cReason c \<noteq> ReasonLayerTwoNotYetAvailable"
    using assms by (auto simp: real_def view_def core_def)
  then show thesis
    by (intro that [of c]) (simp_all add: preservedCondition_def view_def)
qed

text \<open>A level that has nothing to report leaves the repository as it is, if its recorded time is backed by a result.\<close>

lemma quiet_record:
  "e2_completedResult e2 = None \<Longrightarrow> (VerifiedLastValidationAt (Status br) \<noteq> None \<Longrightarrow> real D (conds br) ConditionMetadataValid) \<Longrightarrow>
   recordE2 D e2 br =
     (br, if VerifiedLastValidationAt (Status br) = None then None else preservedCondition D br ConditionMetadataValid)"
  "e3_completedResult e3 = None \<Longrightarrow>
   (VerifiedLastSampledRetrievalAt (Status br) \<noteq> None \<Longrightarrow> real D (conds br) ConditionSampledIntegrityValid) \<Longrightarrow>
   recordE3 D e3 br =
     (br, if VerifiedLastSampledRetrievalAt (Status br) = None then None
          else preservedCondition D br ConditionSampledIntegrityValid)"
  "e4_completedResult e4 = None \<Longrightarrow>
   (LastFullRetrieval (Status br) \<noteq> None \<Longrightarrow> real D (conds br) ConditionFullRetrievalCompleted) \<Longrightarrow>
   recordE4 D e4 br =
     (br, if LastFullRetrieval (Status br) = None then None else preservedCondition D br ConditionFullRetrievalCompleted)"
  by (auto simp: recordE2_def recordE3_def recordE4_def elim!: real_preservedE split: option.splits)

text \<open>The outcomes of a cycle in which no Job has finished and the same Jobs are in flight as after the last one.\<close>

definition quiet :: "e2Outcome \<times> e3Outcome \<times> e4Outcome \<Rightarrow> e2Outcome \<times> e3Outcome \<times> e4Outcome \<Rightarrow> bool" where
  "quiet = (\<lambda>(e2, e3, e4) (e2', e3', e4').
     e2_completedResult e2' = None \<and> e3_completedResult e3' = None \<and> e4_completedResult e4' = None \<and>
     e2_jobActive e2' = e2_jobActive e2 \<and> e3_jobActive e3' = e3_jobActive e3 \<and> e4_jobActive e4' = e4_jobActive e4)"

lemma markers_of_results:
  "(e2_completedResult e2 \<noteq> None \<Longrightarrow> e2_completedAt e2 \<noteq> None) \<Longrightarrow>
   VerifiedLastValidationAt (Status (fst (recordE2 D e2 br))) = None \<Longrightarrow> snd (recordE2 D e2 br) = None"
  "(e3_completedResult e3 \<noteq> None \<Longrightarrow> e3_completedAt e3 \<noteq> None) \<Longrightarrow>
   VerifiedLastSampledRetrievalAt (Status (fst (recordE3 D e3 br))) = None \<Longrightarrow> snd (recordE3 D e3 br) = None"
  "e4_completedResult e4 = None \<or> LastFullRetrieval (Status (fst (recordE4 D e4 br))) \<noteq> None \<Longrightarrow>
   LastFullRetrieval (Status (fst (recordE4 D e4 br))) = None \<Longrightarrow> snd (recordE4 D e4 br) = None"
  by (auto simp: recordE2_def recordE3_def recordE4_def split: option.splits if_splits)

text \<open>The inputs a quiet cycle computes, after a cycle that ended with the inputs \<open>inp\<close>.\<close>

definition quiet_inputs :: "deps \<Rightarrow> BackupRepository \<Rightarrow> conditionInputs \<Rightarrow> conditionInputs" where
  "quiet_inputs D b inp = inp\<lparr>
     metadataValid := (if VerifiedLastValidationAt (Status b) = None then None
       else preservedCondition D b ConditionMetadataValid),
     sampledIntegrityValid := (if VerifiedLastSampledRetrievalAt (Status b) = None then None
       else preservedCondition D b ConditionSampledIntegrityValid),
     fullRetrievalCompleted := (if LastFullRetrieval (Status b) = None then None
       else preservedCondition D b ConditionFullRetrievalCompleted)\<rparr>"

lemma quiet_inputs_simps [simp]:
  "reachable (quiet_inputs D b inp) = reachable inp" "bucketSecurityValid (quiet_inputs D b inp) = bucketSecurityValid inp"
  "backupCurrent (quiet_inputs D b inp) = backupCurrent inp" "e2JobActive (quiet_inputs D b inp) = e2JobActive inp"
  "e3JobActive (quiet_inputs D b inp) = e3JobActive inp" "e4JobActive (quiet_inputs D b inp) = e4JobActive inp"
  by (simp_all add: quiet_inputs_def)

lemma quiet_inputs_shown:
  fixes a
  assumes ok: "conditions_ok D" and b: "b = applyConditions D a inp"
    and e1: "reachable inp = Some c1" "bucketSecurityValid inp = Some c2" "backupCurrent inp = Some c3"
    and none: "VerifiedLastValidationAt (Status b) = None \<Longrightarrow> metadataValid inp = None"
      "VerifiedLastSampledRetrievalAt (Status b) = None \<Longrightarrow> sampledIntegrityValid inp = None"
      "LastFullRetrieval (Status b) = None \<Longrightarrow> fullRetrievalCompleted inp = None"
    and backed: "VerifiedLastValidationAt (Status b) \<noteq> None \<Longrightarrow> real D (conds b) ConditionMetadataValid"
      "VerifiedLastSampledRetrievalAt (Status b) \<noteq> None \<Longrightarrow> real D (conds b) ConditionSampledIntegrityValid"
      "LastFullRetrieval (Status b) \<noteq> None \<Longrightarrow> real D (conds b) ConditionFullRetrievalCompleted"
    and x: "conds x = conds b" "Spec x = Spec b"
      "map_option TotalBytes (ObservedInventory (Status x)) = map_option TotalBytes (ObservedInventory (Status b))"
      "LastFullRetrieval (Status x) = None \<longleftrightarrow> LastFullRetrieval (Status b) = None"
  shows "shows_already D x (quiet_inputs D b inp)"
proof -
  have v: "view D (conds b) t = view D (subConditions D a inp) t" if "t \<notin> rollup_types" for t
    unfolding b by (rule view_subConditions [OF ok that])
  note sub = view_sub_types [OF ok e1, of a]
  have sp: "Spec b = Spec a" "LastFullRetrieval (Status b) = LastFullRetrieval (Status a)"
    "ObservedInventory (Status b) = ObservedInventory (Status a)"
    by (simp_all add: b)
  have meta: "view D (conds b) ConditionMetadataValid = view D (emitE2 D (quiet_inputs D b inp) (conds b)) ConditionMetadataValid"
  proof (cases "VerifiedLastValidationAt (Status b)")
    case None
    then show ?thesis
      using none(1) by (simp add: v view_emitE2 [OF ok] quiet_inputs_def subConditions_def view_emitE3 [OF ok] view_emitE4 [OF ok])
  next
    case (Some t)
    then obtain c where "preservedCondition D b ConditionMetadataValid = Some c"
      "view D (conds b) ConditionMetadataValid = Some (core c)"
      using backed(1) by (auto elim: real_preservedE)
    with Some show ?thesis
      by (simp add: view_emitE2 [OF ok] quiet_inputs_def)
  qed
  have sampled: "view D (conds b) ConditionSampledIntegrityValid =
      view D (emitE3 D x (quiet_inputs D b inp) (conds b)) ConditionSampledIntegrityValid"
  proof (cases "VerifiedLastSampledRetrievalAt (Status b)")
    case None
    then show ?thesis
      using none(2) x(2) by (simp add: v view_emitE3 [OF ok] quiet_inputs_def subConditions_def view_emitE4 [OF ok] sp)
  next
    case (Some t)
    then obtain c where c: "preservedCondition D b ConditionSampledIntegrityValid = Some c"
      "view D (conds b) ConditionSampledIntegrityValid = Some (core c)"
      using backed(2) by (auto elim: real_preservedE)
    then have "SampledRetrievalInterval (Spec b) \<noteq> None"
      using v [of ConditionSampledIntegrityValid] sp(1)
      by (simp add: subConditions_def view_emitE3 [OF ok] view_emitE4 [OF ok] split: if_splits)
    with Some c x(2) show ?thesis
      by (simp add: view_emitE3 [OF ok] quiet_inputs_def)
  qed
  have full: "view D (conds b) ConditionFullRetrievalCompleted =
      view D (emitE4 D x (quiet_inputs D b inp) (conds b)) ConditionFullRetrievalCompleted"
  proof (cases "LastFullRetrieval (Status b)")
    case None
    then show ?thesis
      using none(3) x(2,4)
      by (simp add: view_emitE4 [OF ok] quiet_inputs_def e4Meaningful_def)
        (use None in \<open>simp add: v subConditions_def view_emitE4 [OF ok] sp e4Meaningful_def split: option.split\<close>)
  next
    case (Some t)
    then obtain c where "preservedCondition D b ConditionFullRetrievalCompleted = Some c"
      "view D (conds b) ConditionFullRetrievalCompleted = Some (core c)"
      using backed(3) by (auto elim: real_preservedE)
    with Some x(4) show ?thesis
      by (simp add: view_emitE4 [OF ok] quiet_inputs_def e4Meaningful_def del: not_None_eq)
  qed
  have "computeSizeWithinBudget D x = computeSizeWithinBudget D a"
    using x(3) sp(3) by (auto simp: fun_eq_iff computeSizeWithinBudget_def split: option.split)
  then have size: "view D (conds x) ConditionSizeWithinBudget =
      map_option (\<lambda>budget. core (computeSizeWithinBudget D x budget)) (ExpectedSizeBudget (Spec x))"
    unfolding x(1,2) sp(1) by (simp add: v sub(4))
  have "view D (conds x) ConditionReachable = Some (core c1)" "view D (conds x) ConditionBucketSecurityValid = Some (core c2)"
    "view D (conds x) ConditionBackupCurrent = Some (core c3)"
    unfolding x(1) by (simp_all add: v sub(1-3))
  then show ?thesis
    using shows_alreadyI [OF ok, of "quiet_inputs D b inp" c1 x c2 c3] e1 size meta sampled full x(1) by simp
qed

lemma record_owners [simp]:
  "DetectedFormat (Status (fst (recordE2 D e2 br))) = DetectedFormat (Status br)"
  "DetectedFormat (Status (fst (recordE3 D e3 br))) = DetectedFormat (Status br)"
  "DetectedFormat (Status (fst (recordE4 D e4 br))) = DetectedFormat (Status br)"
  "DetectedVersion (Status (fst (recordE2 D e2 br))) = DetectedVersion (Status br)"
  "DetectedVersion (Status (fst (recordE3 D e3 br))) = DetectedVersion (Status br)"
  "DetectedVersion (Status (fst (recordE4 D e4 br))) = DetectedVersion (Status br)"
  "ObservedInventory (Status (fst (recordE2 D e2 br))) = ObservedInventory (Status br)"
  "ObservedInventory (Status (fst (recordE3 D e3 br))) = ObservedInventory (Status br)"
  "ObservedInventory (Status (fst (recordE4 D e4 br))) = ObservedInventory (Status br)"
  "ObservedGeneration (Status (fst (recordE2 D e2 br))) = ObservedGeneration (Status br)"
  "ObservedGeneration (Status (fst (recordE3 D e3 br))) = ObservedGeneration (Status br)"
  "ObservedGeneration (Status (fst (recordE4 D e4 br))) = ObservedGeneration (Status br)"
  "Generation (fst (recordE2 D e2 br)) = Generation br" "Generation (fst (recordE3 D e3 br)) = Generation br"
  "Generation (fst (recordE4 D e4 br)) = Generation br"
  "ClaimedLatestBackup (Status (fst (recordE3 D e3 br))) = ClaimedLatestBackup (Status br)"
  "ClaimedLatestBackup (Status (fst (recordE4 D e4 br))) = ClaimedLatestBackup (Status br)"
  "e2_latestBackup e2 = None \<Longrightarrow> ClaimedLatestBackup (Status (fst (recordE2 D e2 br))) = ClaimedLatestBackup (Status br)"
  by (auto simp: recordE2_def recordE3_def recordE4_def split: option.splits)

text \<open>The fields the probe owns, after a cycle.\<close>

lemma nextStatus_owned:
  assumes "b = nextStatus D now br p e2 e3 e4 h h4"
  shows "DetectedFormat (Status b) = pr_DetectedFormat p" "DetectedVersion (Status b) = pr_DetectedVersion p"
    "ClaimedLastSuccessfulBackup (Status b) = LastSuccessfulBackup p" "ObservedGeneration (Status b) = Generation b"
    "Inventory p \<noteq> None \<Longrightarrow> ObservedInventory (Status b) = Inventory p"
    "LatestBackup p \<noteq> None \<Longrightarrow> e2_latestBackup e2 = None \<Longrightarrow> ClaimedLatestBackup (Status b) = LatestBackup p"
  unfolding assms nextStatus_eq Let_def by (simp_all add: recordProbe_def touch_def)

lemma reprobe_same:
  assumes "b = nextStatus D now br p e2 e3 e4 h h4" "LatestBackup p = None \<or> e2_latestBackup e2 = None"
  shows "(on_wire (Status (recordProbe p None None (touch now' (reread b)))))\<lparr>Conditions := [], LastProbedAt := None\<rparr> =
    (on_wire (Status b))\<lparr>Conditions := [], LastProbedAt := None\<rparr>"
  using nextStatus_owned [OF assms(1)] assms(2)
  by (auto simp: recordProbe_def touch_def reread_def on_wire_def option.map_comp comp_def)

lemma computeBackupCurrent_cong:
  "ClaimedLastSuccessfulBackup (Status a) = ClaimedLastSuccessfulBackup (Status b) \<Longrightarrow> Spec a = Spec b \<Longrightarrow>
   computeBackupCurrent a now = computeBackupCurrent b now"
  by (simp only: computeBackupCurrent_def)

text \<open>The inputs of the condition set that come from the probe and from the Jobs in flight.\<close>

definition evaluates ::
  "probeResult \<Rightarrow> BackupRepository \<Rightarrow> time \<Rightarrow> e2Outcome \<times> e3Outcome \<times> e4Outcome \<Rightarrow> conditionInputs \<Rightarrow> bool" where
  "evaluates p b now = (\<lambda>(e2, e3, e4) inp.
     reachable inp = Some (condFromBool (pr_Reachable p) (ReachableReason p) (ReachableMessage p)) \<and>
     bucketSecurityValid inp = Some (ifReachable (pr_Reachable p)
       (condFromBool (pr_BucketSecurityValid p) (BucketSecurityReason p) (BucketSecurityMessage p))) \<and>
     backupCurrent inp = Some (ifReachable (pr_Reachable p) (computeBackupCurrent b now)) \<and>
     e2JobActive inp = e2_jobActive e2 \<and> e3JobActive inp = e3_jobActive e3 \<and> e4JobActive inp = e4_jobActive e4)"

lemma cycle_inputs:
  assumes run: "runLevels D VI K clk br creds g = Ret (effs, e2, e3, e4, br')"
    and b: "b = nextStatus D now br' p e2 e3 e4 h h4"
    and stats: "e4_completedResult e4 = None \<or> LastFullRetrieval (Status b) \<noteq> None"
  shows "\<exists>a inp. b = applyConditions D a inp \<and> evaluates p b now (e2, e3, e4) inp \<and>
    (VerifiedLastValidationAt (Status b) = None \<longrightarrow> metadataValid inp = None) \<and>
    (VerifiedLastSampledRetrievalAt (Status b) = None \<longrightarrow> sampledIntegrityValid inp = None) \<and>
    (LastFullRetrieval (Status b) = None \<longrightarrow> fullRetrievalCompleted inp = None)"
proof -
  let ?b1 = "recordProbe p h h4 (touch now br')"
  let ?b2 = "fst (recordE2 D e2 ?b1)"
  let ?b3 = "fst (recordE3 D e3 ?b2)"
  let ?b4 = "fst (recordE4 D e4 ?b3)"
  obtain inp where b4: "b = applyConditions D ?b4 inp"
    and inp: "reachable inp = Some (condFromBool (pr_Reachable p) (ReachableReason p) (ReachableMessage p))"
      "bucketSecurityValid inp = Some (ifReachable (pr_Reachable p)
        (condFromBool (pr_BucketSecurityValid p) (BucketSecurityReason p) (BucketSecurityMessage p)))"
      "backupCurrent inp = Some (ifReachable (pr_Reachable p) (computeBackupCurrent ?b4 now))"
      "metadataValid inp = snd (recordE2 D e2 ?b1)" "sampledIntegrityValid inp = snd (recordE3 D e3 ?b2)"
      "fullRetrievalCompleted inp = snd (recordE4 D e4 ?b3)"
      "e2JobActive inp = e2_jobActive e2" "e3JobActive inp = e3_jobActive e3" "e4JobActive inp = e4_jobActive e4"
    using b unfolding nextStatus_eq Let_def by (metis conditionInputs.select_convs)
  have marks: "VerifiedLastValidationAt (Status b) = VerifiedLastValidationAt (Status ?b2)"
    "VerifiedLastSampledRetrievalAt (Status b) = VerifiedLastSampledRetrievalAt (Status ?b3)"
    "LastFullRetrieval (Status b) = LastFullRetrieval (Status ?b4)" "Spec b = Spec ?b4"
    "ClaimedLastSuccessfulBackup (Status b) = ClaimedLastSuccessfulBackup (Status ?b4)"
    by (subst b4, simp)+
  have none: "VerifiedLastValidationAt (Status b) = None \<Longrightarrow> snd (recordE2 D e2 ?b1) = None"
    "VerifiedLastSampledRetrievalAt (Status b) = None \<Longrightarrow> snd (recordE3 D e3 ?b2) = None"
    "LastFullRetrieval (Status b) = None \<Longrightarrow> snd (recordE4 D e4 ?b3) = None"
    unfolding marks
    using markers_of_results runLevels_report(1,3) [OF run] stats [unfolded marks(3)] by blast+
  have "evaluates p b now (e2, e3, e4) inp"
    unfolding evaluates_def prod.case using inp computeBackupCurrent_cong [OF marks(5,4), of now] by simp
  then show ?thesis
    using b4 none inp(4-6) by metis
qed

lemma quiet_cycle_inputs:
  assumes b: "b = nextStatus D now br' p e2 e3 e4 h h4"
    and q: "quiet (e2, e3, e4) (e2', e3', e4')" and ev: "evaluates p b now (e2, e3, e4) inp"
    and age: "computeBackupCurrent b now' = computeBackupCurrent b now"
    and backed: "VerifiedLastValidationAt (Status b) \<noteq> None \<Longrightarrow> real D (conds b) ConditionMetadataValid"
      "VerifiedLastSampledRetrievalAt (Status b) \<noteq> None \<Longrightarrow> real D (conds b) ConditionSampledIntegrityValid"
      "LastFullRetrieval (Status b) \<noteq> None \<Longrightarrow> real D (conds b) ConditionFullRetrievalCompleted"
  shows "nextStatus D now' (reread b) p e2' e3' e4' None None =
    applyConditions D (recordProbe p None None (touch now' (reread b))) (quiet_inputs D b inp)"
proof -
  let ?x = "recordProbe p None None (touch now' (reread b))"
  have x: "conds ?x = conds b" "LastFullRetrieval (Status ?x) = None \<longleftrightarrow> LastFullRetrieval (Status b) = None"
    "VerifiedLastValidationAt (Status ?x) = None \<longleftrightarrow> VerifiedLastValidationAt (Status b) = None"
    "VerifiedLastSampledRetrievalAt (Status ?x) = None \<longleftrightarrow> VerifiedLastSampledRetrievalAt (Status b) = None"
    "Spec ?x = Spec b"
    by simp_all
  have pres: "preservedCondition D ?x t = preservedCondition D b t" for t
    using x(1) by (rule preservedCondition_cong)
  have q': "e2_completedResult e2' = None" "e3_completedResult e3' = None" "e4_completedResult e4' = None"
    "e2_jobActive e2' = e2_jobActive e2" "e3_jobActive e3' = e3_jobActive e3" "e4_jobActive e4' = e4_jobActive e4"
    using q by (simp_all add: quiet_def)
  note rec = quiet_record(1) [of e2' ?x D, OF q'(1), unfolded x pres, OF backed(1)]
    quiet_record(2) [of e3' ?x D, OF q'(2), unfolded x pres, OF backed(2)]
    quiet_record(3) [of e4' ?x D, OF q'(3), unfolded x pres, OF backed(3)]
  have "computeBackupCurrent ?x now' = computeBackupCurrent b now'"
    using nextStatus_owned(3) [OF b] x(5) by (intro computeBackupCurrent_cong) (simp_all add: recordProbe_def)
  then show ?thesis
    using ev unfolding nextStatus_eq Let_def evaluates_def prod.case age
    by (cases inp) (simp add: rec q' quiet_inputs_def)
qed

text \<open>
  C7: the controller settles. Take any cycle that gets as far as a status, and a later one that reads what it stored and in
  which no Job has finished, the same Jobs are in flight, no force annotation is honored, the probe gives the same answer, and the age
  of the newest backup reads the same. Then the later cycle shows the same conditions, and what it stores of every
  other field is the same but for the time of the probe. Two cases are left out: a time of a
  sampled retrieval that was recorded before sampling was switched off, which goes one cycle later than its condition,
  and a full retrieval that finished without leaving its statistics.
\<close>

theorem quiet_cycle_settles:
  assumes ok: "conditions_ok D"
    and run: "runLevels D VI K clk br creds g = Ret (effs, e2, e3, e4, br')"
    and b: "b = nextStatus D now br' (probeRepository D (Spec br) creds) e2 e3 e4 h h4"
    and b': "b' = nextStatus D now' (reread b) (probeRepository D (Spec br) creds) e2' e3' e4' None None"
    and q: "quiet (e2, e3, e4) (e2', e3', e4')"
    and age: "computeBackupCurrent b now' = computeBackupCurrent b now"
    and sampling: "SampledRetrievalInterval (Spec b) \<noteq> None \<or> VerifiedLastSampledRetrievalAt (Status b) = None"
    and stats: "e4_completedResult e4 = None \<or> LastFullRetrieval (Status b) \<noteq> None"
  shows "view D (conds b') = view D (conds b) \<and>
    (on_wire (Status b'))\<lparr>Conditions := [], LastProbedAt := None\<rparr> =
      (on_wire (Status b))\<lparr>Conditions := [], LastProbedAt := None\<rparr>"
proof -
  let ?p = "probeRepository D (Spec br) creds"
  let ?x = "recordProbe ?p None None (touch now' (reread b))"
  obtain a inp where a: "b = applyConditions D a inp" and ev: "evaluates ?p b now (e2, e3, e4) inp"
    and none: "VerifiedLastValidationAt (Status b) = None \<longrightarrow> metadataValid inp = None"
      "VerifiedLastSampledRetrievalAt (Status b) = None \<longrightarrow> sampledIntegrityValid inp = None"
      "LastFullRetrieval (Status b) = None \<longrightarrow> fullRetrievalCompleted inp = None"
    using cycle_inputs [OF run b stats] by (elim exE conjE) (rule that)
  note nb = nextStatus_backed [OF ok run b]
  have sampled: "real D (conds b) ConditionSampledIntegrityValid"
    if m: "VerifiedLastSampledRetrievalAt (Status b) \<noteq> None"
  proof -
    have "SampledRetrievalInterval (Spec b) \<noteq> None"
      using sampling m by (simp only: simp_thms)
    with nb [THEN conjunct2, THEN conjunct1, THEN mp, OF m] show ?thesis
      by (rule mp)
  qed
  note backed = nb [THEN conjunct1, THEN mp] sampled nb [THEN conjunct2, THEN conjunct2, THEN mp]
  have next_inputs: "b' = applyConditions D ?x (quiet_inputs D b inp)"
    unfolding b' by (rule quiet_cycle_inputs [OF b q ev age backed])
  have x: "conds ?x = conds b" "Spec ?x = Spec b"
    "map_option TotalBytes (ObservedInventory (Status ?x)) = map_option TotalBytes (ObservedInventory (Status b))"
    "LastFullRetrieval (Status ?x) = None \<longleftrightarrow> LastFullRetrieval (Status b) = None"
    using nextStatus_owned(5) [OF b] by (simp_all add: recordProbe_def touch_def del: not_None_eq)
  have "shows_already D ?x (quiet_inputs D b inp)"
    using ev unfolding evaluates_def prod.case
    by (intro quiet_inputs_shown [OF ok a _ _ _ none [THEN mp] backed x]) (elim conjE, assumption)+
  then have "view D (conds b') = view D (conds ?x)"
    unfolding next_inputs using rewrite_idempotent [OF ok] x(1) a by metis
  moreover have "LatestBackup ?p = None \<or> e2_latestBackup e2 = None"
    using runLevels_report(2) [OF run] probe_latest by blast
  then have "(on_wire (Status b'))\<lparr>Conditions := [], LastProbedAt := None\<rparr> =
      (on_wire (Status b))\<lparr>Conditions := [], LastProbedAt := None\<rparr>"
    using reprobe_same [OF b, of now'] by (simp add: next_inputs applyConditions_def Let_def on_wire_def)
  ultimately show ?thesis
    using x(1) by simp
qed

theorem quiet_cycle_settles_witness:
  "\<exists>b b' e2 e3 e4. e2_completedResult e2 \<noteq> None \<and>
     b' = nextStatus sample_deps sample_now (reread b) (probeRepository sample_deps (Spec fresh_br) sample_creds)
       (e2\<lparr>e2_completedResult := None\<rparr>) e3 e4 None None \<and>
     status_of sample_deps (conds b) ConditionHealthy = Some ConditionTrue \<and>
     view sample_deps (conds b') = view sample_deps (conds b)"
proof -
  let ?p = "probeRepository sample_deps (Spec fresh_br) sample_creds"
  obtain levels e2 e3 e4 br' where
    l: "runLevels sample_deps sample_images fresh_kube (frozen sample_now) fresh_br sample_creds (forceGates fresh_br) =
      Ret (levels, e2, e3, e4, br')"
    and o: "map_option cStatus (e2_completedResult e2) = Some ConditionTrue" "\<not> e4_jobActive e4"
      "e3_completedResult e3 = None" "e4_completedResult e4 = None"
    using fresh_parts(2) by (auto split: go.splits)
  have br': "br' = fresh_br"
    using runLevels_unforced [OF l] fresh_parts(6) by simp
  from o(1) obtain c where c: "e2_completedResult e2 = Some c" "cStatus c = ConditionTrue"
    by auto
  obtain b where b: "b = nextStatus sample_deps sample_now br' ?p e2 e3 e4 None None"
    by blast
  then have healthy: "status_of sample_deps (conds b) ConditionHealthy = Some ConditionTrue"
    using fresh_next [OF c o(2-4)] fresh_parts(3) br' by (simp add: Let_def)
  have "VerifiedLastSampledRetrievalAt (Status fresh_br) = None"
    by (simp add: fresh_br_def sample_br_def sample_status_def)
  then have "VerifiedLastSampledRetrievalAt (Status b) = None"
    unfolding b br' nextStatus_eq Let_def by (simp add: recordE3_def o(3))
  then have "view sample_deps (conds (nextStatus sample_deps sample_now (reread b) ?p (e2\<lparr>e2_completedResult := None\<rparr>) e3 e4 None None)) =
      view sample_deps (conds b)"
    using quiet_cycle_settles [OF sample_deps_ok(1) l b refl, of "e2\<lparr>e2_completedResult := None\<rparr>" e3 e4] o(3,4)
    by (simp add: quiet_def)
  with healthy c(1) show ?thesis
    by blast
qed

end
