(* ===== verification/Watches.thy ===== *)
theory Watches
  imports Conditional
begin

text \<open>
  The event handlers of both controllers, against what the reconciles read. Each kind of object that influences a
  reconcile is an instance of the locale \<open>watched_store\<close> of the prelude: a change outside the watched keys does not
  influence the result. Together with the handlers this gives the property that no relevant change
  is missed.
\<close>

section \<open>The conditional's inputs\<close>

definition usesSource :: "conditional_client \<Rightarrow> NamespacedName \<Rightarrow> bool \<Rightarrow> NamespacedName \<Rightarrow> bool" where
  "usesSource C req isCM n \<longleftrightarrow>
     (case getConditional C req of
        Inl e \<Rightarrow> False
      | Inr brc \<Rightarrow> nn_Namespace n = brc_Namespace brc \<and> matchesAnyVariantManifestRef brc (nn_Name n) isCM)"

definition readsRepository :: "conditional_client \<Rightarrow> NamespacedName \<Rightarrow> NamespacedName \<Rightarrow> bool" where
  "readsRepository C req n \<longleftrightarrow>
     (case getConditional C req of
        Inl e \<Rightarrow> False
      | Inr brc \<Rightarrow> n = \<lparr>nn_Namespace = [], nn_Name = RepositoryRef (brc_Spec brc)\<rparr>)"

lemma lookupSource_cong:
  "get \<lparr>nn_Namespace = ns, nn_Name = kr_Name r\<rparr> = get' \<lparr>nn_Namespace = ns, nn_Name = kr_Name r\<rparr> \<Longrightarrow>
     lookupSource D kind get ns r = lookupSource D kind get' ns r"
  by (simp add: lookupSource_def)

lemma variant_matches:
  assumes "variantFor brc st = Some v" "\<not> matchesAnyVariantManifestRef brc name isCM"
  shows "isCM \<Longrightarrow> ConfigMap (vs_ManifestRef v) = Some r \<Longrightarrow> kr_Name r \<noteq> name"
    "\<not> isCM \<Longrightarrow> Secret (vs_ManifestRef v) = Some r \<Longrightarrow> kr_Name r \<noteq> name"
  using assms by (cases st; auto simp: matchesAnyVariantManifestRef_def variantFor_def)+

lemma readManifestSource_cong:
  assumes "\<And>r. ConfigMap ref = Some r \<Longrightarrow> kr_Name r \<noteq> nn_Name n \<or> nn_Namespace n \<noteq> ns"
  shows "readManifestSource D K (C\<lparr>getConfigMap := (g)(n := v)\<rparr>) ns ref =
    readManifestSource D K (C\<lparr>getConfigMap := g\<rparr>) ns ref"
  using assms by (force simp: readManifestSource_def intro!: lookupSource_cong split: option.splits)

lemma readManifestSource_cong_secret:
  assumes "\<And>r. Secret ref = Some r \<Longrightarrow> kr_Name r \<noteq> nn_Name n \<or> nn_Namespace n \<noteq> ns"
  shows "readManifestSource D (K\<lparr>getSecret := (g)(n := v)\<rparr>) C ns ref =
    readManifestSource D (K\<lparr>getSecret := g\<rparr>) C ns ref"
  using assms by (force simp: readManifestSource_def intro!: lookupSource_cong split: option.splits)

lemma materialize_config_cong:
  assumes "readManifestSource D K (C\<lparr>getConfigMap := g\<rparr>) (brc_Namespace brc) (vs_ManifestRef v) =
    readManifestSource D K (C\<lparr>getConfigMap := h\<rparr>) (brc_Namespace brc) (vs_ManifestRef v)"
  shows "materialize D K (C\<lparr>getConfigMap := g\<rparr>) now base brc v sl st = materialize D K (C\<lparr>getConfigMap := h\<rparr>) now base brc v sl st"
  using assms by (simp add: materialize_def applyManifest_def finish_def cong: if_cong sum.case_cong option.case_cong)

lemma materialize_secret_cong:
  assumes "readManifestSource D (K\<lparr>getSecret := g\<rparr>) C (brc_Namespace brc) (vs_ManifestRef v) =
    readManifestSource D (K\<lparr>getSecret := h\<rparr>) C (brc_Namespace brc) (vs_ManifestRef v)"
  shows "materialize D (K\<lparr>getSecret := g\<rparr>) C now base brc v sl st = materialize D (K\<lparr>getSecret := h\<rparr>) C now base brc v sl st"
  using assms by (simp add: materialize_def)

lemma decide_cong:
  assumes "patchConditional C = patchConditional C'"
    and "\<And>b v. variantFor brc (deriveBRState D br) = Some v \<Longrightarrow> brc_Namespace b = brc_Namespace brc \<Longrightarrow>
      materialize D K C now base b v (slotFor (deriveBRState D br)) (deriveBRState D br) =
      materialize D K' C' now base b v (slotFor (deriveBRState D br)) (deriveBRState D br)"
  shows "decide D K C now base brc br = decide D K' C' now base brc br"
  using assms(2) [of _ "brc\<lparr>brc_Status := (brc_Status brc)\<lparr>ObservedRepositoryState := state_string (deriveBRState D br)\<rparr>\<rparr>"]
  by (simp add: decide_def Let_def finish_def assms(1) pickVariant_table split: option.split)

lemma variantFor_spec: "brc_Spec a = brc_Spec b \<Longrightarrow> variantFor a st = variantFor b st"
  by (simp add: variantFor_def split: brState.split)

interpretation configs: watched_store
  "\<lambda>g. ReconcileConditional D K (C\<lparr>getConfigMap := g\<rparr>) now req" "usesSource C req True" for D K C now req
proof
  fix k g v
  assume k: "\<not> usesSource C req True k"
  show "ReconcileConditional D K (C\<lparr>getConfigMap := g(k := v)\<rparr>) now req =
    ReconcileConditional D K (C\<lparr>getConfigMap := g\<rparr>) now req"
  proof (cases "getConditional C req")
    case (Inr base)
    have "decide D K (C\<lparr>getConfigMap := g(k := v)\<rparr>) now base brc br = decide D K (C\<lparr>getConfigMap := g\<rparr>) now base brc br"
      if "brc_Spec brc = brc_Spec base" "brc_Namespace brc = brc_Namespace base" for brc br
    proof (rule decide_cong)
      fix b :: BackupRepositoryConditional and w
      assume "variantFor brc (deriveBRState D br) = Some w" "brc_Namespace b = brc_Namespace brc"
      with that k Inr show "materialize D K (C\<lparr>getConfigMap := g(k := v)\<rparr>) now base b w (slotFor (deriveBRState D br)) (deriveBRState D br) =
        materialize D K (C\<lparr>getConfigMap := g\<rparr>) now base b w (slotFor (deriveBRState D br)) (deriveBRState D br)"
        using variant_matches(1) [of base _ w "nn_Name k" True] variantFor_spec [of brc base]
        by (intro materialize_config_cong readManifestSource_cong) (auto simp: usesSource_def)
    qed simp
    with Inr show ?thesis
      by (simp add: ReconcileConditional_def finish_def Let_def split: sum.split)
  qed (simp add: ReconcileConditional_def)
qed

interpretation secrets: watched_store
  "\<lambda>g. ReconcileConditional D (K\<lparr>getSecret := g\<rparr>) C now req" "usesSource C req False" for D K C now req
proof
  fix k g v
  assume k: "\<not> usesSource C req False k"
  show "ReconcileConditional D (K\<lparr>getSecret := g(k := v)\<rparr>) C now req =
    ReconcileConditional D (K\<lparr>getSecret := g\<rparr>) C now req"
  proof (cases "getConditional C req")
    case (Inr base)
    have "decide D (K\<lparr>getSecret := g(k := v)\<rparr>) C now base brc br = decide D (K\<lparr>getSecret := g\<rparr>) C now base brc br"
      if "brc_Spec brc = brc_Spec base" "brc_Namespace brc = brc_Namespace base" for brc br
    proof (rule decide_cong)
      fix b :: BackupRepositoryConditional and w
      assume "variantFor brc (deriveBRState D br) = Some w" "brc_Namespace b = brc_Namespace brc"
      with that k Inr show "materialize D (K\<lparr>getSecret := g(k := v)\<rparr>) C now base b w (slotFor (deriveBRState D br)) (deriveBRState D br) =
        materialize D (K\<lparr>getSecret := g\<rparr>) C now base b w (slotFor (deriveBRState D br)) (deriveBRState D br)"
        using variant_matches(2) [of base _ w "nn_Name k" False] variantFor_spec [of brc base]
        by (intro materialize_secret_cong readManifestSource_cong_secret) (auto simp: usesSource_def)
    qed simp
    with Inr show ?thesis
      by (simp add: ReconcileConditional_def finish_def Let_def split: sum.split)
  qed (simp add: ReconcileConditional_def)
qed

lemma readManifestSource_getRepository [simp]:
  "readManifestSource D (K\<lparr>getBackupRepository := g\<rparr>) C ns ref = readManifestSource D K C ns ref"
  by (simp add: readManifestSource_def cong: option.case_cong)

lemma decide_getRepository [simp]:
  "decide D (K\<lparr>getBackupRepository := g\<rparr>) C now base brc br = decide D K C now base brc br"
  by (rule decide_cong) (simp_all add: materialize_def)

interpretation repositories: watched_store
  "\<lambda>g. ReconcileConditional D (K\<lparr>getBackupRepository := g\<rparr>) C now req" "readsRepository C req" for D K C now req
proof
  fix k g v
  assume k: "\<not> readsRepository C req k"
  show "ReconcileConditional D (K\<lparr>getBackupRepository := g(k := v)\<rparr>) C now req =
    ReconcileConditional D (K\<lparr>getBackupRepository := g\<rparr>) C now req"
  proof (cases "getConditional C req")
    case (Inr base)
    with k have "\<lparr>nn_Namespace = [], nn_Name = RepositoryRef (brc_Spec base)\<rparr> \<noteq> k"
      by (simp add: readsRepository_def)
    with Inr show ?thesis
      by (simp add: ReconcileConditional_def Let_def split: sum.split)
  qed (simp add: ReconcileConditional_def)
qed

lemma usesSource_mapped:
  assumes "lists C items" "getConditional C req = Inr brc" "brc \<in> set items" "ConditionalKey brc = req"
    and "usesSource C req isCM n"
  shows "req \<in> set (conditionalsUsing C n isCM)"
proof -
  have "brc \<in> set (filter (\<lambda>c. matchesAnyVariantManifestRef c (nn_Name n) isCM)
      (filter (\<lambda>c. brc_Namespace c = nn_Namespace n) items))"
    using assms(2,3,5) by (simp add: usesSource_def)
  moreover have "conditionalsUsing C n isCM = map ConditionalKey
      (filter (\<lambda>c. matchesAnyVariantManifestRef c (nn_Name n) isCM) (filter (\<lambda>c. brc_Namespace c = nn_Namespace n) items))"
    using assms(1) by (simp add: conditionalsUsing_def lists_def)
  ultimately show ?thesis
    using assms(4) by (metis image_eqI set_map)
qed

text \<open>
  C25: a conditional is woken by every change that matters. Whenever finitely many ConfigMaps, Secrets or
  repositories change and the reconcile of a listed conditional would now act differently, one of the changed objects is
  mapped to that conditional by the watch handler of its kind.
\<close>

theorem conditional_watches_complete:
  assumes "lists C items" "getConditional C req = Inr brc" "brc \<in> set items" "ConditionalKey brc = req"
    and "finite {k. g k \<noteq> h k}" "finite {k. r k \<noteq> s k}"
  shows "(ReconcileConditional D K (C\<lparr>getConfigMap := g\<rparr>) now req \<noteq> ReconcileConditional D K (C\<lparr>getConfigMap := h\<rparr>) now req \<longrightarrow>
      (\<exists>k. g k \<noteq> h k \<and> req \<in> set (mapManifestSourceToConditionals C (WatchedConfigMap k)))) \<and>
    (ReconcileConditional D (K\<lparr>getSecret := g\<rparr>) C now req \<noteq> ReconcileConditional D (K\<lparr>getSecret := h\<rparr>) C now req \<longrightarrow>
      (\<exists>k. g k \<noteq> h k \<and> req \<in> set (mapManifestSourceToConditionals C (WatchedSecret k)))) \<and>
    (ReconcileConditional D (K\<lparr>getBackupRepository := r\<rparr>) C now req \<noteq>
        ReconcileConditional D (K\<lparr>getBackupRepository := s\<rparr>) C now req \<longrightarrow>
      (\<exists>k. r k \<noteq> s k \<and>
        (\<forall>br. br_Name br = nn_Name k \<longrightarrow> req \<in> set (mapBRToConditionals C (WatchedRepository br)))))"
proof (intro conjI)
  show "ReconcileConditional D K (C\<lparr>getConfigMap := g\<rparr>) now req \<noteq> ReconcileConditional D K (C\<lparr>getConfigMap := h\<rparr>) now req \<longrightarrow>
      (\<exists>k. g k \<noteq> h k \<and> req \<in> set (mapManifestSourceToConditionals C (WatchedConfigMap k)))"
    using configs.silent_change [OF assms(5)] usesSource_mapped [OF assms(1-4)]
    by (fastforce simp: mapManifestSourceToConditionals_def)
  show "ReconcileConditional D (K\<lparr>getSecret := g\<rparr>) C now req \<noteq> ReconcileConditional D (K\<lparr>getSecret := h\<rparr>) C now req \<longrightarrow>
      (\<exists>k. g k \<noteq> h k \<and> req \<in> set (mapManifestSourceToConditionals C (WatchedSecret k)))"
    using secrets.silent_change [OF assms(5)] usesSource_mapped [OF assms(1-4)]
    by (fastforce simp: mapManifestSourceToConditionals_def)
  have "req \<in> set (mapBRToConditionals C (WatchedRepository br))" if "readsRepository C req k" "br_Name br = nn_Name k" for br k
    using that assms(1-4) by (auto simp: mapBRToConditionals_def readsRepository_def lists_def)
  then show "ReconcileConditional D (K\<lparr>getBackupRepository := r\<rparr>) C now req \<noteq>
        ReconcileConditional D (K\<lparr>getBackupRepository := s\<rparr>) C now req \<longrightarrow>
      (\<exists>k. r k \<noteq> s k \<and>
        (\<forall>br. br_Name br = nn_Name k \<longrightarrow> req \<in> set (mapBRToConditionals C (WatchedRepository br))))"
    using repositories.silent_change [OF assms(6)] by blast
qed

text \<open>
  On the sample, deleting the recovery manifest changes what the healthy conditional does, and the event is mapped to it.
\<close>

definition emptied :: "NamespacedName \<Rightarrow> api_error + gomap" where
  "emptied = (getConfigMap sample_conditional_client)(\<lparr>nn_Namespace = ''db'', nn_Name = ''recover''\<rparr> := Inr [])"

lemma sample_decision_emptied:
  "decision sample_deps (conditional_kube [healthy_cond]) (sample_conditional_client\<lparr>getConfigMap := emptied\<rparr>) sample_conditional
     (sample_br\<lparr>Status := sample_status\<lparr>Conditions := [healthy_cond]\<rparr>\<rparr>) =
   Refuse None BRConditionalReasonManifestSourceMiss"
  by (simp add: decision_def decidable_def deriveBRState_def variantFor_def manifest_def emptied_def
      sample_conditional_def sample_deps_def sample_status_def condTrue_def plainCondition_def)

lemma emptied_acts_differently:
  "ReconcileConditional sample_deps (conditional_kube [healthy_cond])
       (sample_conditional_client\<lparr>getConfigMap := getConfigMap sample_conditional_client\<rparr>) 7 (ConditionalKey sample_conditional) \<noteq>
   ReconcileConditional sample_deps (conditional_kube [healthy_cond])
       (sample_conditional_client\<lparr>getConfigMap := emptied\<rparr>) 7 (ConditionalKey sample_conditional)"
proof -
  have laws: "owner_identity (sample_conditional_client\<lparr>getConfigMap := emptied\<rparr>)"
    "getConditional (sample_conditional_client\<lparr>getConfigMap := emptied\<rparr>) (ConditionalKey sample_conditional) = Inr sample_conditional"
    by simp_all
  note a = ReconcileConditional_realizes [OF sample_deps_ok(1) sample_client_laws(1,4) sample_repository [of "[healthy_cond]"], where now = 7]
  note b = ReconcileConditional_realizes [OF sample_deps_ok(1) laws sample_repository [of "[healthy_cond]"], where now = 7]
  obtain b1 b2 where
    "fst (ReconcileConditional sample_deps (conditional_kube [healthy_cond]) sample_conditional_client 7
      (ConditionalKey sample_conditional)) =
      applies (Some (sample_manifest\<lparr>ob_Namespace := ''db'', ob_Owner := Some ''pg-bootstrap''\<rparr>)) @ [PatchConditional b1]"
    "fst (ReconcileConditional sample_deps (conditional_kube [healthy_cond]) (sample_conditional_client\<lparr>getConfigMap := emptied\<rparr>) 7
      (ConditionalKey sample_conditional)) = applies None @ [PatchConditional b2]"
    using realizes_effects [OF a] realizes_effects [OF b]
    unfolding sample_decision sample_decision_emptied attempted.simps by (elim exE)
  then have "length (fst (ReconcileConditional sample_deps (conditional_kube [healthy_cond]) sample_conditional_client 7
      (ConditionalKey sample_conditional))) = 2"
    "length (fst (ReconcileConditional sample_deps (conditional_kube [healthy_cond])
      (sample_conditional_client\<lparr>getConfigMap := emptied\<rparr>) 7 (ConditionalKey sample_conditional))) = 1"
    by (simp_all add: applies_def)
  moreover have "sample_conditional_client\<lparr>getConfigMap := getConfigMap sample_conditional_client\<rparr> = sample_conditional_client"
    by simp
  ultimately show ?thesis
    by (metis one_eq_numeral_iff semiring_norm(85))
qed

theorem conditional_watches_complete_witness:
  "\<exists>k. getConfigMap sample_conditional_client k \<noteq> emptied k \<and>
     ConditionalKey sample_conditional \<in> set (mapManifestSourceToConditionals sample_conditional_client (WatchedConfigMap k))"
proof -
  have "finite {k. getConfigMap sample_conditional_client k \<noteq> emptied k}"
    by (rule finite_subset [of _ "{\<lparr>nn_Namespace = ''db'', nn_Name = ''recover''\<rparr>}"]) (auto simp: emptied_def)
  from conditional_watches_complete [OF sample_client_laws(3,4) _ refl this,
    where r = "getBackupRepository sample_kube" and s = "getBackupRepository sample_kube"]
  show ?thesis
    using emptied_acts_differently by auto
qed

section \<open>The repository's inputs\<close>

text \<open>No step of a reconcile but the credential lookup reads a Secret.\<close>

lemma secret_selectors:
  "getBackupRepository (K\<lparr>getSecret := g\<rparr>) = getBackupRepository K" "listJobs (K\<lparr>getSecret := g\<rparr>) = listJobs K"
  "listPods (K\<lparr>getSecret := g\<rparr>) = listPods K" "PodLogs (K\<lparr>getSecret := g\<rparr>) = PodLogs K"
  "setJobOwner (K\<lparr>getSecret := g\<rparr>) = setJobOwner K" "setPVCOwner (K\<lparr>getSecret := g\<rparr>) = setPVCOwner K"
  "createJob (K\<lparr>getSecret := g\<rparr>) = createJob K" "createPVC (K\<lparr>getSecret := g\<rparr>) = createPVC K"
  "patchMetadata (K\<lparr>getSecret := g\<rparr>) = patchMetadata K" "patchStatus (K\<lparr>getSecret := g\<rparr>) = patchStatus K"
  by simp_all

lemma secret_frame [simp]:
  "listE2Jobs (K\<lparr>getSecret := g\<rparr>) = listE2Jobs K" "listE3Jobs (K\<lparr>getSecret := g\<rparr>) = listE3Jobs K"
  "listE4Jobs (K\<lparr>getSecret := g\<rparr>) = listE4Jobs K" "readJobOutput (K\<lparr>getSecret := g\<rparr>) = readJobOutput K"
  "submitJob (K\<lparr>getSecret := g\<rparr>) = submitJob K" "ensureE4PVC (K\<lparr>getSecret := g\<rparr>) = ensureE4PVC K"
  "clearForceE4Annotation (K\<lparr>getSecret := g\<rparr>) = clearForceE4Annotation K"
  unfolding fun_eq_iff listE2Jobs_def listE3Jobs_def listE4Jobs_def readJobOutput_def submitJob_def ensureE4PVC_def
    clearForceE4Annotation_def secret_selectors by simp_all

lemma secret_frame_spawn [simp]:
  "spawnE2Job D VI (K\<lparr>getSecret := g\<rparr>) = spawnE2Job D VI K" "spawnE3Job D VI (K\<lparr>getSecret := g\<rparr>) = spawnE3Job D VI K"
  "spawnE4Job D VI (K\<lparr>getSecret := g\<rparr>) = spawnE4Job D VI K"
  unfolding fun_eq_iff spawnE2Job_def spawnE3Job_def spawnE4Job_def secret_frame by simp_all

lemma secret_frame_collect [simp]:
  "collectE2 D (K\<lparr>getSecret := g\<rparr>) = collectE2 D K" "collectE3 D (K\<lparr>getSecret := g\<rparr>) = collectE3 D K"
  "collectE4 D (K\<lparr>getSecret := g\<rparr>) = collectE4 D K"
  unfolding fun_eq_iff collectE2_def collectE3_def collectE4_def ingestE2Result_def ingestE3Result_def ingestE4Result_def
    secret_frame by simp_all

lemma secret_frame_run [simp]:
  "processE2 D VI (K\<lparr>getSecret := g\<rparr>) = processE2 D VI K" "processE3 D VI (K\<lparr>getSecret := g\<rparr>) = processE3 D VI K"
  "processE4 D VI (K\<lparr>getSecret := g\<rparr>) = processE4 D VI K"
  "validateAndPublish D VI (K\<lparr>getSecret := g\<rparr>) = validateAndPublish D VI K"
  "recordCredentialsFailure D (K\<lparr>getSecret := g\<rparr>) = recordCredentialsFailure D K"
proof -
  show p: "processE2 D VI (K\<lparr>getSecret := g\<rparr>) = processE2 D VI K" "processE3 D VI (K\<lparr>getSecret := g\<rparr>) = processE3 D VI K"
    "processE4 D VI (K\<lparr>getSecret := g\<rparr>) = processE4 D VI K"
    unfolding fun_eq_iff processE2_def processE3_def processE4_def secret_frame secret_frame_spawn secret_frame_collect
    by simp_all
  show "validateAndPublish D VI (K\<lparr>getSecret := g\<rparr>) = validateAndPublish D VI K"
    unfolding fun_eq_iff validateAndPublish_def runLevels_def applyStatus_def p secret_selectors by simp
  show "recordCredentialsFailure D (K\<lparr>getSecret := g\<rparr>) = recordCredentialsFailure D K"
    unfolding fun_eq_iff recordCredentialsFailure_def secret_selectors by simp
qed

definition usesSecret :: "kube \<Rightarrow> NamespacedName \<Rightarrow> NamespacedName \<Rightarrow> bool" where
  "usesSecret K req n \<longleftrightarrow>
     (case getBackupRepository K req of
        Inl e \<Rightarrow> False
      | Inr br \<Rightarrow> n = \<lparr>nn_Namespace = sr_Namespace (CredentialsSecret (S3 (Spec br))),
          nn_Name = sr_Name (CredentialsSecret (S3 (Spec br)))\<rparr>)"

interpretation credentials: watched_store
  "\<lambda>g. Reconcile D VI (K\<lparr>getSecret := g\<rparr>) clk req seen" "usesSecret K req" for D VI K clk req seen
proof
  fix k g v
  assume k: "\<not> usesSecret K req k"
  show "Reconcile D VI (K\<lparr>getSecret := g(k := v)\<rparr>) clk req seen = Reconcile D VI (K\<lparr>getSecret := g\<rparr>) clk req seen"
  proof (cases "getBackupRepository K req")
    case (Inr br)
    with k have "resolveCredentials D (K\<lparr>getSecret := g(k := v)\<rparr>) br = resolveCredentials D (K\<lparr>getSecret := g\<rparr>) br"
      by (simp add: resolveCredentials_def usesSecret_def Let_def)
    with Inr show ?thesis
      unfolding Reconcile_def secret_frame_run secret_selectors by simp
  qed (simp add: Reconcile_def)
qed

text \<open>
  C26: a repository is woken by every change that matters. If finitely many Secrets change and the reconcile of a listed
  repository would now act differently, one of the changed Secrets is mapped to it. If only annotations change and
  the force gates differ, the update event passes the predicate.
\<close>

theorem repository_watches_complete:
  assumes "listBackupRepositories K = Inr items" "getBackupRepository K req = Inr br" "br \<in> set items" "ObjectKey br = req"
    and "finite {k. g k \<noteq> h k}"
  shows "(Reconcile D VI (K\<lparr>getSecret := g\<rparr>) clk req seen \<noteq> Reconcile D VI (K\<lparr>getSecret := h\<rparr>) clk req seen \<longrightarrow>
      (\<exists>k. g k \<noteq> h k \<and> req \<in> set (mapSecretToRepositories K (WatchedSecret k)))) \<and>
    (forceGates (br\<lparr>Annotations := new\<rparr>) \<noteq> forceGates br \<longrightarrow>
      forceRevalidatePredicate (UpdateEvent (Some (Annotations br)) (Some new)))"
proof (intro conjI impI)
  assume "Reconcile D VI (K\<lparr>getSecret := g\<rparr>) clk req seen \<noteq> Reconcile D VI (K\<lparr>getSecret := h\<rparr>) clk req seen"
  then obtain k where k: "g k \<noteq> h k" "usesSecret K req k"
    using credentials.silent_change [OF assms(5)] by blast
  have "br \<in> set (filter (\<lambda>br. let ref = CredentialsSecret (S3 (Spec br)) in
      sr_Name ref = nn_Name k \<and> sr_Namespace ref = nn_Namespace k) items)"
    using k(2) assms(2,3) by (simp add: usesSecret_def Let_def)
  then have "ObjectKey br \<in> set (mapSecretToRepositories K (WatchedSecret k))"
    using assms(1) by (simp add: mapSecretToRepositories_def)
  with k(1) assms(4) show "\<exists>k. g k \<noteq> h k \<and> req \<in> set (mapSecretToRepositories K (WatchedSecret k))"
    by blast
next
  assume gates: "forceGates (br\<lparr>Annotations := new\<rparr>) \<noteq> forceGates br"
  have "forceGates (br\<lparr>Annotations := new\<rparr>) = forceGates br"
    if "map_get (Annotations br) AnnotationForceRevalidate = map_get new AnnotationForceRevalidate"
      "map_get (Annotations br) AnnotationForceE4 = map_get new AnnotationForceE4"
  proof -
    have frame: "Status (br\<lparr>Annotations := new\<rparr>) = Status br" "Spec (br\<lparr>Annotations := new\<rparr>) = Spec br"
      "Annotations (br\<lparr>Annotations := new\<rparr>) = new"
      by simp_all
    have "resolveForceRevalidate (br\<lparr>Annotations := new\<rparr>) = resolveForceRevalidate br"
      "resolveForceE4 (br\<lparr>Annotations := new\<rparr>) = resolveForceE4 br"
      unfolding resolveForceRevalidate_def resolveForceE4_def frame that by simp_all
    then show ?thesis
      unfolding forceGates_def frame by simp
  qed
  with gates show "forceRevalidatePredicate (UpdateEvent (Some (Annotations br)) (Some new))"
    by auto
qed

text \<open>The sample's credentials Secret is created: the reconcile changes, and the event is mapped to the repository.\<close>

definition listed_kube :: kube where
  "listed_kube = sample_kube\<lparr>getBackupRepository := (\<lambda>n. Inr sample_br), listBackupRepositories := Inr [sample_br]\<rparr>"

definition created_secret :: "NamespacedName \<Rightarrow> api_error + gomap" where
  "created_secret = (getSecret sample_kube)(\<lparr>nn_Namespace = ''db'', nn_Name = ''s3-creds''\<rparr> :=
     Inr [(''AWS_ACCESS_KEY_ID'', ''key''), (''AWS_SECRET_ACCESS_KEY'', ''secret'')])"

lemma created_acts_differently:
  "Reconcile sample_deps sample_images (listed_kube\<lparr>getSecret := getSecret sample_kube\<rparr>) (frozen sample_now) sample_req Map.empty \<noteq>
   Reconcile sample_deps sample_images (listed_kube\<lparr>getSecret := created_secret\<rparr>) (frozen sample_now) sample_req Map.empty"
proof -
  have "resolveCredentials sample_deps (listed_kube\<lparr>getSecret := created_secret\<rparr>) sample_br = Inr sample_creds"
    "resolveCredentials sample_deps (listed_kube\<lparr>getSecret := getSecret sample_kube\<rparr>) sample_br =
       Inl (ErrCredentialsSecretNotFound '': db/s3-creds'')"
    "Sub sample_now sample_now < credentialsTransientTolerance"
    by code_simp+
  moreover have "getBackupRepository (listed_kube\<lparr>getSecret := g\<rparr>) sample_req = Inr sample_br" for g
    by (simp add: listed_kube_def)
  moreover have "now_stored (frozen sample_now) = sample_now" "now_since (frozen sample_now) = sample_now"
    by (simp_all add: frozen_def)
  ultimately show ?thesis
    by (cases "validateAndPublish sample_deps sample_images listed_kube (frozen sample_now) sample_br sample_creds")
       (auto simp: Reconcile_def fun_eq_iff)
qed

theorem repository_watches_complete_witness:
  "\<exists>k. getSecret sample_kube k \<noteq> created_secret k \<and> sample_req \<in> set (mapSecretToRepositories listed_kube (WatchedSecret k))"
proof -
  have fin: "finite {k. getSecret sample_kube k \<noteq> created_secret k}"
    by (rule finite_subset [of _ "{\<lparr>nn_Namespace = ''db'', nn_Name = ''s3-creds''\<rparr>}"]) (auto simp: created_secret_def)
  have "listBackupRepositories listed_kube = Inr [sample_br]" "getBackupRepository listed_kube sample_req = Inr sample_br"
    "sample_br \<in> set [sample_br]" "ObjectKey sample_br = sample_req"
    by (simp_all add: listed_kube_def ObjectKey_def sample_req_def sample_br_def)
  from repository_watches_complete [OF this fin] created_acts_differently show ?thesis
    by blast
qed

end
