(* ===== verification/Wiring.thy ===== *)
theory Wiring
  imports Watches
begin

text \<open>
  How the two controllers are connected to the API server: the registrations their
  \<open>SetupWithManager\<close> makes, the events of watched objects, and the requests an event leads to. The
  builder, the handlers and the predicates of controller-runtime are parameters with their documented
  behaviour as a law; the map functions and the force predicate are the program's own.
\<close>

section \<open>Events and registrations\<close>

datatype object_kind =
  KindBackupRepository | KindBackupRepositoryConditional | KindJob | KindSecret | KindConfigMap

text \<open>
  A watched object: the metadata that predicates and owner handlers look at, and the object as a map
  function sees it.
\<close>

record watched_object =
  wo_Kind :: object_kind
  wo_Key :: NamespacedName
  wo_Generation :: int
  wo_Annotations :: gomap
  wo_Controller :: "(object_kind \<times> NamespacedName) option"
  wo_Object :: watched

datatype object_event =
    Created watched_object
  | Updated watched_object watched_object
  | Deleted watched_object
  | Generic watched_object

fun event_objects :: "object_event \<Rightarrow> watched_object list" where
  "event_objects (Created w) = [w]"
| "event_objects (Updated old new) = [old, new]"
| "event_objects (Deleted w) = [w]"
| "event_objects (Generic w) = [w]"

text \<open>The part of an event the force predicate reads.\<close>

fun force_view :: "object_event \<Rightarrow> watch_event" where
  "force_view (Created w) = CreateEvent"
| "force_view (Updated old new) = UpdateEvent (Some (wo_Annotations old)) (Some (wo_Annotations new))"
| "force_view (Deleted w) = DeleteEvent"
| "force_view (Generic w) = GenericEvent"

datatype registration =
    For object_kind "object_event \<Rightarrow> bool"
  | Owns object_kind
  | WatchesMap object_kind "watched \<Rightarrow> NamespacedName list"

record controller =
  ctl_Name :: string
  ctl_Registrations :: "registration list"

text \<open>What the program takes from controller-runtime.\<close>

record controller_runtime =
  GenerationChangedPredicate :: "object_event \<Rightarrow> bool"
  Or :: "(object_event \<Rightarrow> bool) list \<Rightarrow> object_event \<Rightarrow> bool"
  enqueued :: "controller \<Rightarrow> object_event \<Rightarrow> NamespacedName list"

text \<open>
  \<open>BackupRepositoryReconciler.SetupWithManager\<close> and
  \<open>BackupRepositoryConditionalReconciler.SetupWithManager\<close>, as the registrations they complete.
\<close>

definition BackupRepository_SetupWithManager :: "controller_runtime \<Rightarrow> kube \<Rightarrow> controller" where
  "BackupRepository_SetupWithManager R K =
     \<lparr>ctl_Name = ''backuprepository'',
      ctl_Registrations =
        [For KindBackupRepository
           (Or R [GenerationChangedPredicate R, \<lambda>e. forceRevalidatePredicate (force_view e)]),
         Owns KindJob,
         WatchesMap KindSecret (mapSecretToRepositories K)]\<rparr>"

definition BackupRepositoryConditional_SetupWithManager ::
  "controller_runtime \<Rightarrow> conditional_client \<Rightarrow> controller" where
  "BackupRepositoryConditional_SetupWithManager R C =
     \<lparr>ctl_Name = ''backuprepositoryconditional'',
      ctl_Registrations =
        [For KindBackupRepositoryConditional (GenerationChangedPredicate R),
         WatchesMap KindBackupRepository (mapBRToConditionals C),
         WatchesMap KindConfigMap (mapManifestSourceToConditionals C),
         WatchesMap KindSecret (mapManifestSourceToConditionals C)]\<rparr>"

section \<open>The documented behaviour of controller-runtime\<close>

fun reconciled_kind :: "registration list \<Rightarrow> object_kind option" where
  "reconciled_kind [] = None"
| "reconciled_kind (For k p # rs) = Some k"
| "reconciled_kind (Owns k # rs) = reconciled_kind rs"
| "reconciled_kind (WatchesMap k f # rs) = reconciled_kind rs"

text \<open>
  \<open>For\<close> enqueues the object itself when its predicate passes, \<open>Owns\<close> the controlling owner of the
  reconciled kind, and a map function what it returns for the objects of the event (old and new for
  an update).
\<close>

fun registration_requests :: "object_kind option \<Rightarrow> object_event \<Rightarrow> registration \<Rightarrow> NamespacedName set" where
  "registration_requests self e (For k p) =
     {wo_Key w | w. w \<in> set (event_objects e) \<and> wo_Kind w = k \<and> p e}"
| "registration_requests self e (Owns k) =
     {n. \<exists>w\<in>set (event_objects e). wo_Kind w = k \<and>
           (\<exists>k'. wo_Controller w = Some (k', n) \<and> self = Some k')}"
| "registration_requests self e (WatchesMap k f) =
     (\<Union>w\<in>set (event_objects e). if wo_Kind w = k then set (f (wo_Object w)) else {})"

definition runtime_ok :: "controller_runtime \<Rightarrow> bool" where
  "runtime_ok R \<longleftrightarrow>
     (\<forall>old new. GenerationChangedPredicate R (Updated old new) \<longleftrightarrow> wo_Generation old \<noteq> wo_Generation new)
     \<and> (\<forall>w. GenerationChangedPredicate R (Created w) \<and> GenerationChangedPredicate R (Deleted w)
          \<and> GenerationChangedPredicate R (Generic w))
     \<and> (\<forall>ps e. Or R ps e \<longleftrightarrow> (\<exists>p\<in>set ps. p e))
     \<and> (\<forall>c e. set (enqueued R c e) =
          (\<Union>r\<in>set (ctl_Registrations c).
             registration_requests (reconciled_kind (ctl_Registrations c)) e r))"

text \<open>An update of one object: kind and key stay.\<close>

definition same_object :: "watched_object \<Rightarrow> watched_object \<Rightarrow> bool" where
  "same_object old new \<longleftrightarrow> wo_Kind old = wo_Kind new \<and> wo_Key old = wo_Key new"


lemma runtime_okD:
  assumes "runtime_ok R"
  shows "GenerationChangedPredicate R (Updated old new) \<longleftrightarrow> wo_Generation old \<noteq> wo_Generation new"
    and "Or R ps e \<longleftrightarrow> (\<exists>p\<in>set ps. p e)"
    and "set (enqueued R c e) = (\<Union>r\<in>set (ctl_Registrations c).
      registration_requests (reconciled_kind (ctl_Registrations c)) e r)"
  using assms by (simp_all add: runtime_ok_def)

lemma repository_requests:
  assumes "runtime_ok R"
  shows "set (enqueued R (BackupRepository_SetupWithManager R K) e) =
    {wo_Key w | w. w \<in> set (event_objects e) \<and> wo_Kind w = KindBackupRepository \<and>
       (GenerationChangedPredicate R e \<or> forceRevalidatePredicate (force_view e))} \<union>
    {n. \<exists>w\<in>set (event_objects e). wo_Kind w = KindJob \<and> wo_Controller w = Some (KindBackupRepository, n)} \<union>
    (\<Union>w\<in>set (event_objects e).
       if wo_Kind w = KindSecret then set (mapSecretToRepositories K (wo_Object w)) else {})"
  by (simp add: runtime_okD [OF assms] BackupRepository_SetupWithManager_def Un_assoc)

lemma conditional_requests:
  assumes "runtime_ok R"
  shows "set (enqueued R (BackupRepositoryConditional_SetupWithManager R C) e) =
    {wo_Key w | w. w \<in> set (event_objects e) \<and> wo_Kind w = KindBackupRepositoryConditional \<and>
       GenerationChangedPredicate R e} \<union>
    (\<Union>w\<in>set (event_objects e).
       if wo_Kind w = KindBackupRepository then set (mapBRToConditionals C (wo_Object w)) else {}) \<union>
    (\<Union>w\<in>set (event_objects e).
       if wo_Kind w = KindConfigMap \<or> wo_Kind w = KindSecret
       then set (mapManifestSourceToConditionals C (wo_Object w)) else {})"
  by (auto simp add: runtime_okD [OF assms] BackupRepositoryConditional_SetupWithManager_def
      split: if_splits)

section \<open>What wakes the controllers\<close>


text \<open>
  What wakes the conditional controller. An update of a conditional enqueues it exactly if its
  generation changed, so its own status patches do not; any update of a repository, a status write
  included, enqueues exactly the conditionals that \<open>mapBRToConditionals\<close> finds for the old or the new
  object; events of ConfigMaps and Secrets enqueue exactly the conditionals that use them as a
  manifest source; Jobs enqueue nothing.
\<close>

theorem conditional_wakeups:
  assumes "runtime_ok R" and "same_object old new" and "\<forall>w\<in>set (event_objects e). wo_Kind w = kind"
  shows "(wo_Kind old = KindBackupRepositoryConditional \<longrightarrow>
      set (enqueued R (BackupRepositoryConditional_SetupWithManager R C) (Updated old new)) =
        (if wo_Generation old \<noteq> wo_Generation new then {wo_Key new} else {}))
    \<and> (kind = KindBackupRepository \<longrightarrow>
      set (enqueued R (BackupRepositoryConditional_SetupWithManager R C) e) =
        (\<Union>w\<in>set (event_objects e). set (mapBRToConditionals C (wo_Object w))))
    \<and> (kind \<in> {KindConfigMap, KindSecret} \<longrightarrow>
      set (enqueued R (BackupRepositoryConditional_SetupWithManager R C) e) =
        (\<Union>w\<in>set (event_objects e). set (mapManifestSourceToConditionals C (wo_Object w))))
    \<and> (kind = KindJob \<longrightarrow> enqueued R (BackupRepositoryConditional_SetupWithManager R C) e = [])"
proof (intro conjI impI)
  assume "wo_Kind old = KindBackupRepositoryConditional"
  then show "set (enqueued R (BackupRepositoryConditional_SetupWithManager R C) (Updated old new)) =
      (if wo_Generation old \<noteq> wo_Generation new then {wo_Key new} else {})"
    using assms(2)
    by (auto simp: conditional_requests [OF assms(1)] runtime_okD(1) [OF assms(1)] same_object_def)
next
  assume "kind = KindJob"
  then have "set (enqueued R (BackupRepositoryConditional_SetupWithManager R C) e) = {}"
    using assms(3) by (auto simp: conditional_requests [OF assms(1)])
  then show "enqueued R (BackupRepositoryConditional_SetupWithManager R C) e = []"
    by simp
qed (use assms(3) in \<open>auto simp: conditional_requests [OF assms(1)]\<close>)

section \<open>A reconcile does not feed itself\<close>

text \<open>
  The update event of a repository that a write leads to. The generation is the API server's count of
  spec changes: a write to the status subresource changes neither it nor the metadata, a metadata
  patch that removes an annotation changes only that annotation.
\<close>

definition write_event :: "effect \<Rightarrow> watched_object \<Rightarrow> watched_object \<Rightarrow> bool" where
  "write_event eff old new \<longleftrightarrow>
     same_object old new \<and> wo_Kind old = KindBackupRepository \<and> wo_Generation new = wo_Generation old \<and>
     (case eff of
        PatchStatus br \<Rightarrow> wo_Annotations new = wo_Annotations old
      | PatchMetadata k \<Rightarrow> wo_Annotations new = filter (\<lambda>(k', v). k' \<noteq> k) (wo_Annotations old)
      | _ \<Rightarrow> False)"

lemma Reconcile_objectWrites:
  assumes "Reconcile D VI K clk req seen = Ret (seen', effs, res)"
  shows "objectWrites effs = [] \<or>
    (\<exists>ws b. objectWrites effs = ws @ [PatchStatus b] \<and>
      (ws = [] \<or> ws = [PatchMetadata AnnotationForceE4] \<and>
        (\<exists>br. getBackupRepository K req = Inr br \<and> fg_e4 (forceGates br))))"
  using assms
proof (cases rule: Reconcile_cases)
  case (failed br err)
  then show ?thesis
    by (auto simp: recordCredentialsFailure_def Let_def)
next
  case (ran br creds)
  from ran(3) obtain levels e2 e3 e4 br' b where
    l: "runLevels D VI K clk br creds (forceGates br) = Ret (levels, e2, e3, e4, br')" and
    "objectWrites effs = objectWrites levels @ [PatchStatus b]"
    by (cases rule: validateAndPublish_cases) (auto split: sum.splits)
  then show ?thesis
    using ran(1) objectWrites_runLevels [OF l] by auto
qed auto

text \<open>
  C17: a reconcile does not feed itself. A reconcile writes the repository object at most twice; the
  update event of a status write enqueues nothing, and only the removal of a live
  \<open>force-e4\<close> annotation wakes the controller again.
\<close>

theorem no_self_feeding:
  assumes "runtime_ok R" and "Reconcile D VI K clk req seen = Ret (seen', effs, res)"
    and "eff \<in> set (objectWrites effs)" and "write_event eff old new"
  shows "length (objectWrites effs) \<le> 2 \<and>
    (enqueued R (BackupRepository_SetupWithManager R K') (Updated old new) \<noteq> [] \<longrightarrow>
      eff = PatchMetadata AnnotationForceE4 \<and>
      (\<exists>br. getBackupRepository K req = Inr br \<and> fg_e4 (forceGates br)))"
proof -
  have "set (enqueued R (BackupRepository_SetupWithManager R K') (Updated old new)) = {}"
    if "eff = PatchStatus b" for b
    using that assms(4)
    by (auto simp: repository_requests [OF assms(1)] runtime_okD(1) [OF assms(1)] write_event_def
        same_object_def)
  moreover have "length (objectWrites effs) \<le> 2 \<and> (eff = PatchMetadata AnnotationForceE4 \<and>
      (\<exists>br. getBackupRepository K req = Inr br \<and> fg_e4 (forceGates br)) \<or> (\<exists>b. eff = PatchStatus b))"
    using Reconcile_objectWrites [OF assms(2)] assms(3) by auto
  ultimately show ?thesis
    by auto
qed

section \<open>A concrete runtime\<close>

fun sample_requests ::
  "object_kind option \<Rightarrow> object_event \<Rightarrow> registration \<Rightarrow> NamespacedName list" where
  "sample_requests self e (For k p) = map wo_Key (filter (\<lambda>w. wo_Kind w = k \<and> p e) (event_objects e))"
| "sample_requests self e (Owns k) =
     concat (map (\<lambda>w. case wo_Controller w of
         Some (k', n) \<Rightarrow> if wo_Kind w = k \<and> self = Some k' then [n] else [] | None \<Rightarrow> [])
       (event_objects e))"
| "sample_requests self e (WatchesMap k f) =
     concat (map (\<lambda>w. if wo_Kind w = k then f (wo_Object w) else []) (event_objects e))"

definition sample_runtime :: controller_runtime where
  "sample_runtime = \<lparr>
     GenerationChangedPredicate = (\<lambda>e. case e of
         Updated old new \<Rightarrow> wo_Generation old \<noteq> wo_Generation new | _ \<Rightarrow> True),
     Or = (\<lambda>ps e. list_ex (\<lambda>p. p e) ps),
     enqueued = (\<lambda>c e. concat (map (sample_requests (reconciled_kind (ctl_Registrations c)) e)
       (ctl_Registrations c))) \<rparr>"

lemma set_sample_requests: "set (sample_requests self e r) = registration_requests self e r"
proof (induction self e r rule: sample_requests.induct)
  case (2 self e k)
  then show ?case
    by (auto split: option.split if_splits)
qed (auto split: if_splits)

lemma sample_runtime_ok: "runtime_ok sample_runtime"
  by (auto simp: runtime_ok_def sample_runtime_def list_ex_iff set_sample_requests)

definition sample_watched :: watched_object where
  "sample_watched = \<lparr>wo_Kind = KindBackupRepository, wo_Key = sample_req, wo_Generation = 1,
     wo_Annotations = [(AnnotationForceE4, ''1770000000'')], wo_Controller = None,
     wo_Object = WatchedRepository sample_br\<rparr>"



text \<open>A spec change of the sample conditional wakes it; a status write of its repository wakes it too.\<close>

definition watched_conditional :: watched_object where
  "watched_conditional = sample_watched\<lparr>wo_Kind := KindBackupRepositoryConditional,
     wo_Key := ConditionalKey sample_conditional, wo_Object := WatchedOther\<rparr>"

theorem conditional_wakeups_witness:
  "set (enqueued sample_runtime
      (BackupRepositoryConditional_SetupWithManager sample_runtime sample_conditional_client)
      (Updated watched_conditional (watched_conditional\<lparr>wo_Generation := 2\<rparr>))) =
     {ConditionalKey sample_conditional}
   \<and> ConditionalKey sample_conditional \<in> set (enqueued sample_runtime
      (BackupRepositoryConditional_SetupWithManager sample_runtime sample_conditional_client)
      (Updated sample_watched sample_watched))"
proof -
  have "same_object watched_conditional (watched_conditional\<lparr>wo_Generation := 2\<rparr>)"
    "wo_Kind watched_conditional = KindBackupRepositoryConditional"
    "wo_Generation watched_conditional \<noteq> 2" "wo_Key watched_conditional = ConditionalKey sample_conditional"
    by (simp_all add: same_object_def watched_conditional_def sample_watched_def)
  moreover have "\<forall>w\<in>set (event_objects (Updated sample_watched sample_watched)). wo_Kind w = KindBackupRepository"
    by (simp add: sample_watched_def)
  moreover have "ConditionalKey sample_conditional
      \<in> set (mapBRToConditionals sample_conditional_client (wo_Object sample_watched))"
    by (simp add: sample_watched_def mapBRToConditionals_def sample_conditional_client_def
        sample_conditional_def sample_br_def)
  ultimately show ?thesis
    using conditional_wakeups [OF sample_runtime_ok, where old = watched_conditional
        and new = "watched_conditional\<lparr>wo_Generation := 2\<rparr>" and C = sample_conditional_client
        and e = "Updated sample_watched sample_watched" and kind = KindBackupRepository]
    by auto
qed

theorem no_self_feeding_witness:
  "\<exists>b res. Reconcile sample_deps sample_images forbidden_kube (frozen 9) sample_req Map.empty =
       Ret (Map.empty, [PatchStatus b], res)
     \<and> enqueued sample_runtime (BackupRepository_SetupWithManager sample_runtime sample_kube)
         (Updated sample_watched (sample_watched\<lparr>wo_Object := WatchedRepository b\<rparr>)) = []"
proof -
  have "getBackupRepository forbidden_kube sample_req = Inr validated_br"
    "resolveCredentials sample_deps forbidden_kube validated_br =
      Inl (GoError (''get secret '' @ KeyString sample_deps \<lparr>nn_Namespace = ''db'', nn_Name = ''s3-creds''\<rparr>
        @ '': '' @ ''forbidden''))"
    by (simp_all add: forbidden_kube_def resolveCredentials_def validated_br_def sample_br_def
        sample_spec_def sample_secret_def Let_def)
  then obtain b res where r: "Reconcile sample_deps sample_images forbidden_kube (frozen 9) sample_req Map.empty =
      Ret (Map.empty, [PatchStatus b], res)"
    by (simp add: Reconcile_def recordCredentialsFailure_def Let_def)
  have "write_event (PatchStatus b) sample_watched (sample_watched\<lparr>wo_Object := WatchedRepository b\<rparr>)"
    by (simp add: write_event_def same_object_def sample_watched_def)
  then show ?thesis
    using r no_self_feeding [OF sample_runtime_ok r, of "PatchStatus b"] by auto
qed

end
