(* ===== verification/Go_Heap.thy ===== *)
theory Go_Heap
  imports Prelude "HOL-Library.AList"
begin

text \<open>
  A model of the part of Go's memory that the generated deep-copy functions work on: cells behind
  pointers, slices and maps, addressed by their position in a heap that only grows; the shapes of
  Go types; what it means for a value to conform to a shape in a heap; the value a reader sees
  through all pointers; the cells such a reading touches; and the contract of a deep copy. The
  combinators at the end are the statement forms of the generated code, each with the lemma that it
  meets the contract.
\<close>

section \<open>Values, cells and shapes\<close>

text \<open>Predeclared types whose values hold no reference.\<close>

datatype basic = BString string | BInt int | BBool bool

datatype kind = KString | KInt | KBool

text \<open>
  A value as it lies in memory: a nil pointer, slice or map; a pointer (or a map, which Go keeps
  behind a pointer); a slice header with the address of its backing array, its offset into it and
  its length; a struct with its fields in place; and the two kinds of cell contents that only live
  behind a reference, a backing array and the entries of a map.
\<close>

datatype gval =
    GBasic basic
  | GNil
  | GRef nat
  | GSlice nat nat nat
  | GStruct "(string \<times> gval) list"
  | GArray "gval list"
  | GEntries "(string \<times> string) list"

type_synonym heap = "gval list"

text \<open>The Go types that occur in the API, as shapes; field names are kept.\<close>

datatype shape =
    Basic kind
  | Ptr shape
  | Slice shape
  | StrMap
  | Struct "(string \<times> shape) list"

definition getf :: "(string \<times> gval) list \<Rightarrow> string \<Rightarrow> gval" where
  "getf gs f = (case map_of gs f of Some v \<Rightarrow> v | None \<Rightarrow> GNil)"

definition setf :: "(string \<times> gval) list \<Rightarrow> string \<Rightarrow> gval \<Rightarrow> (string \<times> gval) list" where
  "setf gs f w = map (\<lambda>(g, v). (g, if g = f then w else v)) gs"

fun fieldOf :: "gval \<Rightarrow> string \<Rightarrow> gval" where
  "fieldOf (GStruct gs) f = getf gs f"
| "fieldOf _ f = GNil"

fun setField :: "gval \<Rightarrow> string \<Rightarrow> gval \<Rightarrow> gval" where
  "setField (GStruct gs) f w = GStruct (setf gs f w)"
| "setField v f w = v"

fun kindOf :: "basic \<Rightarrow> kind" where
  "kindOf (BString s) = KString"
| "kindOf (BInt i) = KInt"
| "kindOf (BBool b) = KBool"

fun zeroBasic :: "kind \<Rightarrow> basic" where
  "zeroBasic KString = BString []"
| "zeroBasic KInt = BInt 0"
| "zeroBasic KBool = BBool False"

text \<open>The zero value that \<open>new(T)\<close> and \<open>make([]T, n)\<close> put into fresh cells.\<close>

fun zeroOf :: "shape \<Rightarrow> gval" where
  "zeroOf (Basic k) = GBasic (zeroBasic k)"
| "zeroOf (Ptr s) = GNil"
| "zeroOf (Slice s) = GNil"
| "zeroOf StrMap = GNil"
| "zeroOf (Struct fs) = GStruct (map (\<lambda>(f, s). (f, zeroOf s)) fs)"

text \<open>The elements a slice header gives access to.\<close>

definition elems :: "heap \<Rightarrow> nat \<Rightarrow> nat \<Rightarrow> nat \<Rightarrow> gval list" where
  "elems h a off n = (case h ! a of GArray vs \<Rightarrow> take n (drop off vs) | _ \<Rightarrow> [])"

text \<open>
  A value conforms to a shape when it has the declared fields and kinds and every reference in it
  points to a cell of the heap that conforms in turn.
\<close>

fun conf :: "heap \<Rightarrow> shape \<Rightarrow> gval \<Rightarrow> bool" where
  "conf h (Basic k) v = (case v of GBasic b \<Rightarrow> kindOf b = k | _ \<Rightarrow> False)"
| "conf h (Ptr s) v =
     (case v of GNil \<Rightarrow> True | GRef a \<Rightarrow> a < length h \<and> conf h s (h ! a) | _ \<Rightarrow> False)"
| "conf h (Slice s) v =
     (case v of
        GNil \<Rightarrow> True
      | GSlice a off n \<Rightarrow>
          a < length h \<and> (case h ! a of GArray vs \<Rightarrow> off + n \<le> length vs | _ \<Rightarrow> False)
            \<and> list_all (conf h s) (elems h a off n)
      | _ \<Rightarrow> False)"
| "conf h StrMap v =
     (case v of
        GNil \<Rightarrow> True
      | GRef a \<Rightarrow>
          a < length h \<and> (case h ! a of GEntries m \<Rightarrow> distinct (map fst m) | _ \<Rightarrow> False)
      | _ \<Rightarrow> False)"
| "conf h (Struct fs) v =
     (case v of
        GStruct gs \<Rightarrow> map fst gs = map fst fs \<and> list_all (\<lambda>(f, s). conf h s (getf gs f)) fs
      | _ \<Rightarrow> False)"

text \<open>The value seen through all references; a map is seen as the function it represents.\<close>

datatype tree =
    TBasic basic
  | TNil
  | TPtr tree
  | TSlice "tree list"
  | TMap "string \<Rightarrow> string option"
  | TStruct "(string \<times> tree) list"

fun den :: "heap \<Rightarrow> shape \<Rightarrow> gval \<Rightarrow> tree" where
  "den h (Basic k) v = (case v of GBasic b \<Rightarrow> TBasic b | _ \<Rightarrow> TNil)"
| "den h (Ptr s) v = (case v of GRef a \<Rightarrow> TPtr (den h s (h ! a)) | _ \<Rightarrow> TNil)"
| "den h (Slice s) v =
     (case v of GSlice a off n \<Rightarrow> TSlice (map (den h s) (elems h a off n)) | _ \<Rightarrow> TNil)"
| "den h StrMap v =
     (case v of GRef a \<Rightarrow> (case h ! a of GEntries m \<Rightarrow> TMap (map_of m) | _ \<Rightarrow> TNil) | _ \<Rightarrow> TNil)"
| "den h (Struct fs) v =
     (case v of GStruct gs \<Rightarrow> TStruct (map (\<lambda>(f, s). (f, den h s (getf gs f))) fs) | _ \<Rightarrow> TNil)"

text \<open>The cells a reading touches.\<close>

fun cells :: "heap \<Rightarrow> shape \<Rightarrow> gval \<Rightarrow> nat list" where
  "cells h (Basic k) v = []"
| "cells h (Ptr s) v = (case v of GRef a \<Rightarrow> a # cells h s (h ! a) | _ \<Rightarrow> [])"
| "cells h (Slice s) v =
     (case v of GSlice a off n \<Rightarrow> a # concat (map (cells h s) (elems h a off n)) | _ \<Rightarrow> [])"
| "cells h StrMap v = (case v of GRef a \<Rightarrow> [a] | _ \<Rightarrow> [])"
| "cells h (Struct fs) v =
     (case v of GStruct gs \<Rightarrow> concat (map (\<lambda>(f, s). cells h s (getf gs f)) fs) | _ \<Rightarrow> [])"

text \<open>Shapes whose values hold no reference, so that assignment copies them completely.\<close>

fun flat :: "shape \<Rightarrow> bool" where
  "flat (Basic k) = True"
| "flat (Struct fs) = list_all (\<lambda>(f, s). flat s) fs"
| "flat _ = False"

section \<open>Readings depend on the cells they touch\<close>

lemma frame:
  assumes "conf h s v" and "\<forall>a\<in>set (cells h s v). a < length h' \<and> h' ! a = h ! a"
  shows "conf h' s v \<and> den h' s v = den h s v \<and> cells h' s v = cells h s v"
  using assms
proof (induction s arbitrary: v)
  case (Slice s)
  show ?case
  proof (cases v)
    case (GSlice a off n)
    with Slice.prems have el: "elems h' a off n = elems h a off n"
      by (simp add: elems_def)
    have "conf h' s u \<and> den h' s u = den h s u \<and> cells h' s u = cells h s u"
      if "u \<in> set (elems h a off n)" for u
      using Slice.IH [of u] Slice.prems that GSlice by (auto simp: list_all_iff)
    then show ?thesis
      using Slice.prems GSlice el by (auto simp: list_all_iff cong: map_cong)
  qed (use Slice.prems in auto)
next
  case (Struct fs)
  show ?case
  proof (cases v)
    case (GStruct gs)
    have "conf h' s (getf gs f) \<and> den h' s (getf gs f) = den h s (getf gs f)
        \<and> cells h' s (getf gs f) = cells h s (getf gs f)" if "(f, s) \<in> set fs" for f s
      using Struct.IH [of "(f, s)" s "getf gs f"] Struct.prems that GStruct
      by (auto simp: list_all_iff)
    then show ?thesis
      using Struct.prems GStruct by (auto simp: list_all_iff intro!: arg_cong [where f = concat])
  qed (use Struct.prems in auto)
qed (auto split: gval.splits)

lemma cells_bounded: "conf h s v \<Longrightarrow> a \<in> set (cells h s v) \<Longrightarrow> a < length h"
proof (induction s arbitrary: v)
  case (Slice s)
  then show ?case by (auto simp: list_all_iff split: gval.splits)
next
  case (Struct fs)
  then show ?case by (fastforce simp: list_all_iff split: gval.splits)
qed (auto split: gval.splits)

lemma flat_cells: "flat s \<Longrightarrow> cells h s v = []"
proof (induction s arbitrary: v)
  case (Struct fs)
  then show ?case by (fastforce simp: list_all_iff split: gval.splits)
qed auto

text \<open>Heaps that grow: old cells keep their contents.\<close>

definition extends :: "heap \<Rightarrow> heap \<Rightarrow> bool" where
  "extends h h' \<longleftrightarrow> take (length h) h' = h"

lemma extends_refl [simp]: "extends h h"
  by (simp add: extends_def)

lemma extends_iff: "extends h h' \<longleftrightarrow> length h \<le> length h' \<and> (\<forall>a < length h. h' ! a = h ! a)"
  unfolding extends_def by (auto simp: list_eq_iff_nth_eq)

lemma extends_trans: "extends h h1 \<Longrightarrow> extends h1 h2 \<Longrightarrow> extends h h2"
  by (auto simp: extends_iff)

lemma extends_alloc [simp]: "extends h (h @ ext)"
  by (simp add: extends_def)

lemma extends_update: "extends h h' \<Longrightarrow> length h \<le> b \<Longrightarrow> extends h (h'[b := w])"
  by (auto simp: extends_iff)

lemma extends_frame:
  assumes "extends h h'" and "conf h s v"
  shows "conf h' s v \<and> den h' s v = den h s v \<and> cells h' s v = cells h s v"
  using assms by (intro frame) (auto simp: extends_iff dest: cells_bounded intro: order_less_le_trans)

lemma update_frame:
  assumes "conf h s v" and "b \<notin> set (cells h s v)"
  shows "conf (h[b := w]) s v \<and> den (h[b := w]) s v = den h s v
    \<and> cells (h[b := w]) s v = cells h s v"
proof (rule frame [OF assms(1)], intro ballI)
  fix a
  assume "a \<in> set (cells h s v)"
  moreover from this assms(2) have "a \<noteq> b"
    by blast
  ultimately show "a < length (h[b := w]) \<and> h[b := w] ! a = h ! a"
    using cells_bounded [OF assms(1)] by simp
qed

section \<open>The contract of a deep copy\<close>

text \<open>
  The outcome \<open>(h', w)\<close> of copying \<open>v\<close> in heap \<open>h\<close>: no cell that existed is written, the copy
  conforms to the same shape and reads as the original does, and it reaches only cells that did not
  exist before.
\<close>

definition copied :: "shape \<Rightarrow> heap \<Rightarrow> gval \<Rightarrow> heap \<times> gval \<Rightarrow> bool" where
  "copied s h v r \<longleftrightarrow>
     (case r of (h', w) \<Rightarrow>
        extends h h' \<and> conf h' s w \<and> den h' s w = den h s v
          \<and> (\<forall>a\<in>set (cells h' s w). length h \<le> a))"

text \<open>
  A copier is the body of a \<open>DeepCopyInto\<close>: given the value behind \<open>in\<close>, it transforms the heap and
  the value behind \<open>out\<close>. The two are distinct places, as they are in every call the generated code
  makes.
\<close>

type_synonym copier = "gval \<Rightarrow> heap \<times> gval \<Rightarrow> heap \<times> gval"

definition deep_copy :: "shape \<Rightarrow> copier \<Rightarrow> bool" where
  "deep_copy s f \<longleftrightarrow> (\<forall>h v out. conf h s v \<longrightarrow> copied s h v (f v (h, out)))"

text \<open>A copier that is only called on values that are set.\<close>

definition set_copy :: "shape \<Rightarrow> copier \<Rightarrow> bool" where
  "set_copy s f \<longleftrightarrow> (\<forall>h v out. conf h s v \<longrightarrow> v \<noteq> GNil \<longrightarrow> copied s h v (f v (h, out)))"

lemma deep_copyD: "deep_copy s f \<Longrightarrow> conf h s v \<Longrightarrow> copied s h v (f v (h, out))"
  by (simp add: deep_copy_def)

lemma deep_set_copy: "deep_copy s f \<Longrightarrow> set_copy s f"
  by (simp add: deep_copy_def set_copy_def)

lemma copied_extends: "copied s h v (h', w) \<Longrightarrow> extends h h'"
  by (simp add: copied_def)

lemma copied_from_extension:
  assumes "extends h h1" and "conf h s v" and "copied s h1 v r"
  shows "copied s h v r"
  using assms extends_frame [OF assms(1,2)]
  by (auto simp: copied_def extends_iff intro: extends_trans)

text \<open>A copy survives further growth of the heap.\<close>

lemma copied_into_extension:
  assumes "copied s h v (h1, w)" and "extends h1 h2"
  shows "copied s h v (h2, w)"
  using assms extends_frame [of h1 h2 s w] by (auto simp: copied_def intro: extends_trans)

text \<open>
  While a copy is under construction the cell \<open>b\<close> that will hold it is still being written: the copy
  reads nothing from that cell, so it survives both growth of the heap and writes to \<open>b\<close>.
\<close>

definition settled :: "shape \<Rightarrow> heap \<Rightarrow> nat \<Rightarrow> gval \<Rightarrow> heap \<times> gval \<Rightarrow> bool" where
  "settled s h b v r \<longleftrightarrow>
     copied s h v r \<and> length h \<le> b \<and> (case r of (h', w) \<Rightarrow> b \<notin> set (cells h' s w))"

lemma settledI:
  assumes "copied s h1 v (h2, w)" and "conf h s v" and "extends h h1" and "length h \<le> b"
    and "b < length h1"
  shows "settled s h b v (h2, w)"
  using assms copied_from_extension [OF assms(3,2,1)] by (auto simp: settled_def copied_def)

lemma settled_extends:
  assumes "settled s h b v (h1, w)" and "extends h1 h2"
  shows "settled s h b v (h2, w)"
  using assms copied_into_extension [of s h v h1 w h2] extends_frame [of h1 h2 s w]
  by (auto simp: settled_def copied_def)

lemma settled_update:
  assumes "settled s h b v (h1, w)"
  shows "settled s h b v (h1[b := u], w)"
  using assms update_frame [of h1 s w b u]
  by (auto simp: settled_def copied_def intro: extends_update)

lemma settled_copied: "settled s h b v r \<Longrightarrow> copied s h v r"
  by (simp add: settled_def)

section \<open>The statement forms of the generated code\<close>

text \<open>\<open>*out = *in\<close>, \<open>**out = **in\<close> and \<open>out.F = in.F\<close>.\<close>

definition assign :: copier where
  "assign v = (\<lambda>(h, out). (h, v))"

text \<open>\<open>in.F.DeepCopyInto(&out.F)\<close>, and \<open>out.F = in.F\<close> with \<^const>\<open>assign\<close>.\<close>

definition atField :: "string \<Rightarrow> copier \<Rightarrow> copier" where
  "atField f c v = (\<lambda>(h, out).
     case c (fieldOf v f) (h, fieldOf out f) of (h', w) \<Rightarrow> (h', setField out f w))"

text \<open>\<open>if in.F != nil { in, out := &in.F, &out.F; ... }\<close>.\<close>

definition whenSet :: "string \<Rightarrow> copier \<Rightarrow> copier" where
  "whenSet f c v = (\<lambda>(h, out). if fieldOf v f = GNil then (h, out) else atField f c v (h, out))"

text \<open>\<open>*out = call(*in)\<close> for a function that returns the copy.\<close>

definition returned :: "(gval \<Rightarrow> heap \<Rightarrow> heap \<times> gval) \<Rightarrow> copier" where
  "returned g v = (\<lambda>(h, out). g v h)"

text \<open>\<open>*out = new(T); (*in).DeepCopyInto(*out)\<close>: the cell is allocated first and filled afterwards.\<close>

definition newInto :: "shape \<Rightarrow> copier \<Rightarrow> copier" where
  "newInto s c v = (\<lambda>(h, out).
     case v of
       GRef a \<Rightarrow>
         (let b = length h; h1 = h @ [zeroOf s]
          in case c (h1 ! a) (h1, h1 ! b) of (h2, w) \<Rightarrow> (h2[b := w], GRef b))
     | _ \<Rightarrow> (h, out))"

text \<open>\<open>x := (*in).DeepCopy(); *out = &x\<close>: the copy is made first and its cell allocated afterwards.\<close>

definition addressOf :: "(gval \<Rightarrow> heap \<Rightarrow> heap \<times> gval) \<Rightarrow> copier" where
  "addressOf g v = (\<lambda>(h, out).
     case v of
       GRef a \<Rightarrow> (case g (h ! a) h of (h1, x) \<Rightarrow> (h1 @ [x], GRef (length h1)))
     | _ \<Rightarrow> (h, out))"

text \<open>\<open>for i := range *in { (*in)[i].DeepCopyInto(&(*out)[i]) }\<close>, from index \<open>i\<close> on with \<open>k\<close> to go.\<close>

definition elemAt :: "heap \<Rightarrow> nat \<Rightarrow> nat \<Rightarrow> gval" where
  "elemAt h a i = (case h ! a of GArray vs \<Rightarrow> vs ! i | _ \<Rightarrow> GNil)"

definition setElem :: "heap \<Rightarrow> nat \<Rightarrow> nat \<Rightarrow> gval \<Rightarrow> heap" where
  "setElem h a i w = (case h ! a of GArray vs \<Rightarrow> h[a := GArray (vs[i := w])] | _ \<Rightarrow> h)"

fun copyLoop :: "copier \<Rightarrow> nat \<Rightarrow> nat \<Rightarrow> nat \<Rightarrow> nat \<Rightarrow> nat \<Rightarrow> heap \<Rightarrow> heap" where
  "copyLoop c a off b i 0 h = h"
| "copyLoop c a off b i (Suc k) h =
     (case c (elemAt h a (off + i)) (h, elemAt h b i) of (h', w) \<Rightarrow>
        copyLoop c a off b (Suc i) k (setElem h' b i w))"

text \<open>\<open>*out = make([]T, len(*in))\<close> and the loop.\<close>

definition makeSlice :: "shape \<Rightarrow> copier \<Rightarrow> copier" where
  "makeSlice s c v = (\<lambda>(h, out).
     case v of
       GSlice a off n \<Rightarrow>
         (let b = length h
          in (copyLoop c a off b 0 n (h @ [GArray (replicate n (zeroOf s))]), GSlice b 0 n))
     | _ \<Rightarrow> (h, out))"

text \<open>
  \<open>*out = make(map[string]string, len(*in)); for key, val := range *in { (*out)[key] = val }\<close>; the
  order in which \<open>range\<close> visits the entries is a parameter.
\<close>

definition makeMap :: "((string \<times> string) list \<Rightarrow> (string \<times> string) list) \<Rightarrow> copier" where
  "makeMap order v = (\<lambda>(h, out).
     case v of
       GRef a \<Rightarrow>
         (case h ! a of
            GEntries m \<Rightarrow>
              (h @ [GEntries (fold (\<lambda>(key, val). AList.update key val) (order m) [])],
               GRef (length h))
          | _ \<Rightarrow> (h, out))
     | _ \<Rightarrow> (h, out))"

text \<open>The body of a \<open>DeepCopyInto\<close>: its statements in order.\<close>

definition runs :: "copier list \<Rightarrow> copier" where
  "runs sts v r = fold (\<lambda>st. st v) sts r"

text \<open>
  \<open>func (in *T) DeepCopy() *T\<close>: nil for nil, otherwise a new cell filled by \<open>DeepCopyInto\<close>.
\<close>

definition deepCopyPtr :: "shape \<Rightarrow> copier \<Rightarrow> gval \<Rightarrow> heap \<Rightarrow> heap \<times> gval" where
  "deepCopyPtr s c p h = (if p = GNil then (h, GNil) else newInto s c p (h, GNil))"

subsection \<open>Each form meets the contract\<close>

lemma assign_copies: "flat s \<Longrightarrow> deep_copy s assign"
  by (simp add: deep_copy_def copied_def assign_def flat_cells)

lemma newInto_copies:
  assumes "deep_copy s c"
  shows "set_copy (Ptr s) (newInto s c)"
  unfolding set_copy_def
proof (intro allI impI)
  fix h v out
  assume v: "conf h (Ptr s) v" "v \<noteq> GNil"
  then obtain a where a: "v = GRef a" "a < length h" "conf h s (h ! a)"
    by (auto split: gval.splits)
  let ?h1 = "h @ [zeroOf s]"
  have 1: "?h1 ! a = h ! a" "conf ?h1 s (h ! a)"
    using a extends_frame [OF extends_alloc a(3)] by (auto simp: nth_append)
  obtain h2 w where r: "c (h ! a) (?h1, ?h1 ! length h) = (h2, w)"
    by fastforce
  have c: "copied s ?h1 (h ! a) (h2, w)"
    using deep_copyD [OF assms 1(2)] r by metis
  have "copied s h (h ! a) (h2[length h := w], w)"
    by (rule settled_copied [OF settled_update [OF settledI [OF c a(3) extends_alloc]]]) auto
  moreover have "length h < length h2"
    using copied_extends [OF c] by (auto simp: extends_iff)
  ultimately show "copied (Ptr s) h v (newInto s c v (h, out))"
    using a r 1 by (auto simp: newInto_def copied_def Let_def)
qed

lemma addressOf_copies:
  assumes "deep_copy s (returned g)"
  shows "set_copy (Ptr s) (addressOf g)"
  unfolding set_copy_def
proof (intro allI impI)
  fix h v out
  assume v: "conf h (Ptr s) v" "v \<noteq> GNil"
  then obtain a where a: "v = GRef a" "a < length h" "conf h s (h ! a)"
    by (auto split: gval.splits)
  obtain h1 x where r: "g (h ! a) h = (h1, x)"
    by fastforce
  then have c: "copied s h (h ! a) (h1, x)"
    using deep_copyD [OF assms a(3), of out] by (simp add: returned_def)
  then have "copied s h (h ! a) (h1 @ [x], x)"
    by (rule copied_into_extension) simp
  then show "copied (Ptr s) h v (addressOf g v (h, out))"
    using a r copied_extends [OF c] by (auto simp: addressOf_def copied_def extends_iff)
qed

lemma fold_update_map_of:
  "distinct (map fst m) \<Longrightarrow>
   map_of (fold (\<lambda>(key, val). AList.update key val) m al) = map_of al ++ map_of m"
proof (induction m arbitrary: al)
  case (Cons e m)
  obtain k x where "e = (k, x)"
    by fastforce
  with Cons show ?case
    by (auto simp: update_conv' map_add_def fun_eq_iff dom_map_of_conv_image_fst
        split: option.split dest: map_of_SomeD intro: rev_image_eqI)
qed simp

lemma fold_update_distinct:
  "distinct (map fst al) \<Longrightarrow>
   distinct (map fst (fold (\<lambda>(key, val). AList.update key val) m al))"
  by (induction m arbitrary: al) (auto simp: distinct_update)

lemma makeMap_copies:
  assumes "\<And>m. mset (order m) = mset m"
  shows "set_copy StrMap (makeMap order)"
  unfolding set_copy_def
proof (intro allI impI)
  fix h v out
  assume v: "conf h StrMap v" "v \<noteq> GNil"
  then obtain a m where a: "v = GRef a" "a < length h" "h ! a = GEntries m" "distinct (map fst m)"
    by (auto split: gval.splits)
  have "mset (map fst (order m)) = mset (map fst m)" "set (order m) = set m"
    using assms by (metis mset_map, metis mset_eq_setD)
  then have "distinct (map fst (order m))" "map_of (order m) = map_of m"
    using a(4) by (metis mset_eq_imp_distinct_iff, metis map_of_inject_set mset_eq_imp_distinct_iff)
  then show "copied StrMap h v (makeMap order v (h, out))"
    using a by (simp add: makeMap_def copied_def fold_update_map_of fold_update_distinct)
qed

text \<open>
  The loop over a slice: at index \<open>i\<close> the first \<open>i\<close> elements of the new array are settled copies.
\<close>

definition loop_inv :: "shape \<Rightarrow> heap \<Rightarrow> gval list \<Rightarrow> nat \<Rightarrow> heap \<Rightarrow> bool" where
  "loop_inv s h0 vs i h \<longleftrightarrow>
     extends h0 h \<and> length h0 < length h \<and>
     (\<exists>es. h ! length h0 = GArray es \<and> length es = length vs
        \<and> (\<forall>j < i. settled s h0 (length h0) (vs ! j) (h, es ! j)))"

lemma loop_inv_step:
  assumes inv: "loop_inv s h0 vs i h" and c: "deep_copy s c" and i: "i < length vs"
    and v: "conf h0 s (vs ! i)" and r: "c (vs ! i) (h, out) = (h', w)"
  shows "loop_inv s h0 vs (Suc i) (setElem h' (length h0) i w)"
proof -
  let ?b = "length h0"
  obtain es where h: "extends h0 h" "?b < length h" "h ! ?b = GArray es" "length es = length vs"
    and old: "\<forall>j < i. settled s h0 ?b (vs ! j) (h, es ! j)"
    using inv by (auto simp: loop_inv_def)
  have new: "copied s h (vs ! i) (h', w)"
    using deep_copyD [OF c, of h "vs ! i" out] extends_frame [OF h(1) v] r by simp
  then have ext: "extends h h'"
    by (rule copied_extends)
  let ?h = "h'[?b := GArray (es[i := w])]"
  have "h' ! ?b = GArray es" "?b < length h'"
    using ext h by (auto simp: extends_iff)
  then have "setElem h' ?b i w = ?h" "?h ! ?b = GArray (es[i := w])" "?b < length ?h"
    by (auto simp: setElem_def)
  moreover have "extends h0 ?h"
    using h ext by (auto intro: extends_update extends_trans)
  moreover have "settled s h0 ?b (vs ! j) (?h, es[i := w] ! j)" if "j < Suc i" for j
  proof (cases "j = i")
    case True
    then show ?thesis
      using settled_update [OF settledI [OF new v h(1) order_refl h(2)]] i h(4) by simp
  next
    case False
    then show ?thesis
      using that old settled_update [OF settled_extends [OF _ ext]] by simp
  qed
  ultimately show ?thesis
    using h(4) by (auto simp: loop_inv_def)
qed

lemma copyLoop_inv:
  assumes c: "deep_copy s c" and a: "a < length h0" "h0 ! a = GArray as" "off + length vs \<le> length as"
    and vs: "\<forall>i < length vs. vs ! i = as ! (off + i)" "\<forall>i < length vs. conf h0 s (vs ! i)"
  shows "loop_inv s h0 vs i h \<Longrightarrow> i + k = length vs \<Longrightarrow>
    loop_inv s h0 vs (length vs) (copyLoop c a off (length h0) i k h)"
proof (induction k arbitrary: i h)
  case (Suc k)
  have "h ! a = GArray as"
    using Suc.prems(1) a by (simp add: loop_inv_def extends_iff)
  then have at: "elemAt h a (off + i) = vs ! i"
    using vs(1) Suc.prems(2) by (simp add: elemAt_def)
  obtain h' w where r: "c (vs ! i) (h, elemAt h (length h0) i) = (h', w)"
    by fastforce
  show ?case
    using Suc.IH [OF loop_inv_step [OF Suc.prems(1) c _ _ r]] Suc.prems(2) vs(2) at r by simp
qed simp

lemma makeSlice_copies:
  assumes c: "deep_copy s c"
  shows "set_copy (Slice s) (makeSlice s c)"
  unfolding set_copy_def
proof (intro allI impI)
  fix h v out
  assume v: "conf h (Slice s) v" "v \<noteq> GNil"
  then obtain a off n as where a: "v = GSlice a off n" "a < length h" "h ! a = GArray as"
      "off + n \<le> length as" and all: "list_all (conf h s) (elems h a off n)"
    by (auto split: gval.splits)
  define vs where "vs = elems h a off n"
  have vs: "length vs = n" "\<forall>i < length vs. vs ! i = as ! (off + i)"
    "\<forall>i < length vs. conf h s (vs ! i)"
    using a all by (auto simp: vs_def elems_def list_all_length)
  let ?h1 = "h @ [GArray (replicate n (zeroOf s))]"
  let ?h2 = "copyLoop c a off (length h) 0 n ?h1"
  have "loop_inv s h vs 0 ?h1"
    using vs(1) by (simp add: loop_inv_def)
  then have "loop_inv s h vs n ?h2"
    using copyLoop_inv [OF c a(2,3) _ vs(2,3), of 0 ?h1 n] a(4) vs(1) by simp
  then obtain es where es: "extends h ?h2" "length h < length ?h2" "?h2 ! length h = GArray es"
      "length es = n" "\<forall>j < n. copied s h (vs ! j) (?h2, es ! j)"
    using vs(1) by (auto simp: loop_inv_def settled_def)
  have el: "elems ?h2 (length h) 0 n = es"
    using es by (simp add: elems_def)
  have "map (den ?h2 s) es = map (den h s) vs"
    using es(4,5) vs(1) by (auto simp: list_eq_iff_nth_eq copied_def)
  moreover have "conf ?h2 s u \<and> (\<forall>b\<in>set (cells ?h2 s u). length h \<le> b)" if "u \<in> set es" for u
    using that es(4,5) by (auto simp: in_set_conv_nth copied_def)
  ultimately show "copied (Slice s) h v (makeSlice s c v (h, out))"
    using a(1) es el by (auto simp: makeSlice_def copied_def Let_def list_all_iff vs_def)
qed

subsection \<open>Structs\<close>

text \<open>
  A statement handles field \<open>f\<close> when, started with the input's own value in that field of \<open>out\<close>, it
  leaves a copy there and touches no other field.
\<close>

definition handles :: "string \<Rightarrow> shape \<Rightarrow> copier \<Rightarrow> bool" where
  "handles f s st \<longleftrightarrow>
     (\<forall>h vs gs. conf h s (getf vs f) \<longrightarrow> distinct (map fst gs) \<longrightarrow> getf gs f = getf vs f \<longrightarrow>
        (\<exists>h' w. st (GStruct vs) (h, GStruct gs) = (h', GStruct (setf gs f w))
           \<and> copied s h (getf vs f) (h', w)))"

lemma map_of_setf:
  "map_of (setf gs f w) g = (if g = f then map_option (\<lambda>_. w) (map_of gs f) else map_of gs g)"
  unfolding setf_def by (induction gs) auto

lemma getf_setf: "getf (setf gs f w) g = (if g = f \<and> f \<in> fst ` set gs then w else getf gs g)"
proof (cases "f \<in> fst ` set gs")
  case True
  then obtain v where "map_of gs f = Some v"
    by (metis map_of_eq_None_iff not_Some_eq)
  with True show ?thesis
    by (simp add: getf_def map_of_setf)
next
  case False
  then have "map_of (setf gs f w) g = map_of gs g"
    by (cases "g = f") (simp_all add: map_of_setf map_of_eq_None_iff [THEN iffD2])
  with False show ?thesis
    by (simp only: getf_def simp_thms if_False)
qed

lemma setf_same:
  assumes "distinct (map fst gs)"
  shows "setf gs f (getf gs f) = gs"
proof -
  have "(g, if g = f then getf gs f else v) = (g, v)" if "(g, v) \<in> set gs" for g v
    using that assms by (auto simp: getf_def)
  then show ?thesis
    unfolding setf_def by (intro map_idI) auto
qed

lemma names_setf [simp]: "map fst (setf gs f w) = map fst gs"
  by (induction gs) (auto simp: setf_def)

lemma copied_nil [simp]: "copied s h GNil (h, GNil) \<longleftrightarrow> conf h s GNil"
  by (cases s) (auto simp: copied_def)

lemma atField_run:
  assumes "copied s h (getf vs f) (c (getf vs f) (h, getf gs f))"
  shows "\<exists>h' w. atField f c (GStruct vs) (h, GStruct gs) = (h', GStruct (setf gs f w))
    \<and> copied s h (getf vs f) (h', w)"
  using assms by (cases "c (getf vs f) (h, getf gs f)") (auto simp: atField_def)

lemma atField_handles: "deep_copy s c \<Longrightarrow> handles f s (atField f c)"
  unfolding handles_def by (intro allI impI atField_run) (rule deep_copyD)

lemma whenSet_handles:
  assumes "set_copy s c"
  shows "handles f s (whenSet f c)"
  unfolding handles_def
proof (intro allI impI)
  fix h vs gs
  assume 1: "conf h s (getf vs f)" "distinct (map fst gs)" "getf gs f = getf vs f"
  show "\<exists>h' w. whenSet f c (GStruct vs) (h, GStruct gs) = (h', GStruct (setf gs f w))
    \<and> copied s h (getf vs f) (h', w)"
  proof (cases "getf vs f = GNil")
    case True
    with 1 setf_same [OF 1(2), of f] show ?thesis
      by (auto simp: whenSet_def intro!: exI [where x = GNil])
  next
    case False
    with 1 assms atField_run [of s h vs f c gs] show ?thesis
      by (simp add: whenSet_def set_copy_def)
  qed
qed

text \<open>
  The state of a struct copy after the statements for the fields \<open>D\<close>: those fields hold copies, the
  others still hold what the initial assignment put there.
\<close>

definition struct_inv ::
  "(string \<times> shape) list \<Rightarrow> heap \<Rightarrow> (string \<times> gval) list \<Rightarrow> string set \<Rightarrow> heap \<times> gval \<Rightarrow> bool" where
  "struct_inv fs h0 vs D r \<longleftrightarrow>
     (\<exists>h gs. r = (h, GStruct gs) \<and> extends h0 h \<and> map fst gs = map fst fs
        \<and> (\<forall>(f, s)\<in>set fs. if f \<in> D then copied s h0 (getf vs f) (h, getf gs f)
                                else getf gs f = getf vs f))"

lemma struct_inv_step:
  assumes inv: "struct_inv fs h0 vs D r" and st: "handles f s st" and f: "(f, s) \<in> set fs" "f \<notin> D"
    and fs: "distinct (map fst fs)" and conf: "\<forall>(f, s)\<in>set fs. conf h0 s (getf vs f)"
  shows "struct_inv fs h0 vs (insert f D) (st (GStruct vs) r)"
proof -
  obtain h gs where r: "r = (h, GStruct gs)" "extends h0 h" "map fst gs = map fst fs"
    and at: "\<forall>(f, s)\<in>set fs. if f \<in> D then copied s h0 (getf vs f) (h, getf gs f)
                                else getf gs f = getf vs f"
    using inv by (auto simp: struct_inv_def)
  have v: "conf h0 s (getf vs f)" "getf gs f = getf vs f" "distinct (map fst gs)"
    using conf f at fs r by auto
  obtain h' w where run: "st (GStruct vs) r = (h', GStruct (setf gs f w))"
    and w: "copied s h (getf vs f) (h', w)"
    using st v extends_frame [OF r(2) v(1)] unfolding handles_def r(1) by blast
  have mem: "f \<in> fst ` set gs"
    using f(1) r(3) by (metis fst_conv image_eqI image_set)
  have "if g \<in> insert f D then copied t h0 (getf vs g) (h', getf (setf gs f w) g)
        else getf (setf gs f w) g = getf vs g" if g: "(g, t) \<in> set fs" for g t
  proof (cases "g = f")
    case True
    then have "t = s"
      using g f(1) fs by (metis map_of_is_SomeI option.inject)
    then show ?thesis
      using True mem copied_from_extension [OF r(2) v(1) w] by (simp add: getf_setf)
  next
    case False
    then show ?thesis
      using at g copied_into_extension [OF _ copied_extends [OF w]] by (auto simp: getf_setf)
  qed
  then show ?thesis
    using run r copied_extends [OF w] extends_trans unfolding struct_inv_def by fastforce
qed

lemma struct_inv_runs:
  assumes "list_all2 (\<lambda>st f. \<exists>s. (f, s) \<in> set fs \<and> handles f s st) sts names"
    and "distinct names" "D \<inter> set names = {}" "struct_inv fs h0 vs D r"
    and "distinct (map fst fs)" "\<forall>(f, s)\<in>set fs. conf h0 s (getf vs f)"
  shows "struct_inv fs h0 vs (D \<union> set names) (runs sts (GStruct vs) r)"
  using assms
proof (induction sts names arbitrary: D r rule: list_all2_induct)
  case (Cons st sts f names)
  then obtain s where "(f, s) \<in> set fs" "handles f s st"
    by blast
  with Cons struct_inv_step [OF Cons.prems(3), of f s st]
  have "struct_inv fs h0 vs (insert f D) (st (GStruct vs) r)"
    by simp
  with Cons.IH [of "insert f D"] Cons.prems show ?case
    by (simp add: runs_def)
qed (simp add: runs_def)

lemma struct_inv_copied:
  assumes "struct_inv fs h0 vs D r" and "\<forall>(f, s)\<in>set fs. f \<in> D \<or> flat s"
    and "\<forall>(f, s)\<in>set fs. conf h0 s (getf vs f)"
  shows "copied (Struct fs) h0 (GStruct vs) r"
proof -
  obtain h gs where r: "r = (h, GStruct gs)" "extends h0 h" "map fst gs = map fst fs"
    and at: "\<forall>(f, s)\<in>set fs. if f \<in> D then copied s h0 (getf vs f) (h, getf gs f)
                                else getf gs f = getf vs f"
    using assms(1) by (auto simp: struct_inv_def)
  have "copied s h0 (getf vs f) (h, getf gs f)" if "(f, s) \<in> set fs" for f s
  proof (cases "f \<in> D")
    case False
    with that at assms(2) have "getf gs f = getf vs f" "flat s"
      by auto
    then show ?thesis
      using that assms(3) r(2) extends_frame [OF r(2), of s "getf vs f"]
      by (auto simp: copied_def flat_cells)
  qed (use that at in auto)
  then show ?thesis
    using r by (fastforce simp: copied_def list_all_iff)
qed

text \<open>
  A \<open>DeepCopyInto\<close> that starts with \<open>*out = *in\<close> and whose further statements handle distinct fields
  is a deep copy of the struct, provided every field it leaves to the initial assignment holds no
  reference.
\<close>

theorem struct_copies:
  assumes "distinct (map fst fs)"
    and "list_all2 (\<lambda>st f. \<exists>s. (f, s) \<in> set fs \<and> handles f s st) sts names"
    and "distinct names" and "\<forall>(f, s)\<in>set fs. f \<in> set names \<or> flat s"
  shows "deep_copy (Struct fs) (runs (assign # sts))"
  unfolding deep_copy_def
proof (intro allI impI)
  fix h v out
  assume "conf h (Struct fs) v"
  then obtain vs where v: "v = GStruct vs" "map fst vs = map fst fs"
      "\<forall>(f, s)\<in>set fs. conf h s (getf vs f)"
    by (auto simp: list_all_iff split: gval.splits)
  have "struct_inv fs h vs {} (h, v)"
    using v by (simp add: struct_inv_def)
  from struct_inv_runs [OF assms(2,3) _ this assms(1) v(3)]
  have "struct_inv fs h vs (set names) (runs sts v (h, v))"
    using v(1) by simp
  then show "copied (Struct fs) h v (runs (assign # sts) v (h, out))"
    using struct_inv_copied [OF _ assms(4) v(3)] v(1) by (simp add: runs_def assign_def)
qed

lemma deepCopyPtr_copies:
  assumes "deep_copy s c"
  shows "deep_copy (Ptr s) (returned (deepCopyPtr s c))"
  using newInto_copies [OF assms] by (simp add: deep_copy_def set_copy_def returned_def deepCopyPtr_def)

lemma returned_set_copies: "deep_copy s (returned g) \<Longrightarrow> set_copy s (returned g)"
  by (rule deep_set_copy)

named_theorems copies \<open>the deep-copy contracts of statements and functions\<close>

lemmas statement_copies [copies] =
  assign_copies newInto_copies addressOf_copies makeSlice_copies makeMap_copies
  returned_set_copies atField_handles whenSet_handles

text \<open>
  \<open>DeepCopyObject\<close> returns an interface value, which is nil only if it holds no typed pointer at all:
  \<open>if c := in.DeepCopy(); c != nil { return c }; return nil\<close>.
\<close>

datatype iface = NilInterface | Interface string gval

definition deepCopyObject ::
  "string \<Rightarrow> (gval \<Rightarrow> heap \<Rightarrow> heap \<times> gval) \<Rightarrow> gval \<Rightarrow> heap \<Rightarrow> heap \<times> iface" where
  "deepCopyObject T copy p h =
     (case copy p h of (h', c) \<Rightarrow> (h', if c \<noteq> GNil then Interface T c else NilInterface))"

section \<open>Independence of a copy from its original\<close>

text \<open>
  In any later heap that still has the cells the copy allocated, the copy reads as the original did
  when it was copied, whatever was written to older cells and whatever was allocated since; and in
  any later heap that still has the older cells, the original does.
\<close>

lemma copied_independent:
  assumes "copied s h v (h', w)" and "conf h s v"
  shows "(\<forall>g. (\<forall>a. length h \<le> a \<longrightarrow> a < length h' \<longrightarrow> a < length g \<and> g ! a = h' ! a) \<longrightarrow>
          den g s w = den h s v)
    \<and> (\<forall>g. extends h g \<longrightarrow> den g s v = den h s v)"
proof (intro conjI allI impI)
  fix g
  assume "\<forall>a. length h \<le> a \<longrightarrow> a < length h' \<longrightarrow> a < length g \<and> g ! a = h' ! a"
  then show "den g s w = den h s v"
    using assms(1) frame [of h' s w g] cells_bounded [of h' s w] by (auto simp: copied_def)
qed (use assms(2) extends_frame in blast)

end
