(* ===== verification/Deep_Copy.thy ===== *)
theory Deep_Copy
  imports Go_Heap
begin

text \<open>
  The generated deep-copy functions of \<open>api/v1alpha1/zz_generated.deepcopy.go\<close>. Every struct of the
  API has its shape, its \<open>DeepCopyInto\<close> with the statements in source order, and its \<open>DeepCopy\<close>; the
  four kinds registered with the scheme also have \<open>DeepCopyObject\<close>. The types of the Kubernetes
  libraries that occur inside them (\<open>metav1.ObjectMeta\<close>, \<open>metav1.ListMeta\<close>, \<open>metav1.Condition\<close>,
  \<open>metav1.Time\<close>, \<open>resource.Quantity\<close>) keep their shapes and their own copy functions as parameters.
\<close>

section \<open>The library types\<close>

datatype ext_type = ExtObjectMeta | ExtListMeta | ExtCondition | ExtTime | ExtQuantity

text \<open>
  What the generated code calls: \<open>DeepCopyInto\<close> of a library type, \<open>DeepCopy\<close> returning a value
  (\<open>Quantity\<close>), \<open>DeepCopy\<close> returning a pointer (\<open>Time\<close>), and the order in which \<open>range\<close> visits a map.
\<close>

record externals =
  extShape :: "ext_type \<Rightarrow> shape"
  extInto :: "ext_type \<Rightarrow> copier"
  extValue :: "ext_type \<Rightarrow> gval \<Rightarrow> heap \<Rightarrow> heap \<times> gval"
  extPtr :: "ext_type \<Rightarrow> gval \<Rightarrow> heap \<Rightarrow> heap \<times> gval"
  rangeOrder :: "(string \<times> string) list \<Rightarrow> (string \<times> string) list"

text \<open>
  The documented behaviour: the library's functions are deep copies of their own types, and \<open>range\<close>
  visits every entry of a map once.
\<close>

definition externals_ok :: "externals \<Rightarrow> bool" where
  "externals_ok x \<longleftrightarrow>
     (\<forall>t. deep_copy (extShape x t) (extInto x t))
     \<and> deep_copy (extShape x ExtQuantity) (returned (extValue x ExtQuantity))
     \<and> deep_copy (Ptr (extShape x ExtTime)) (returned (extPtr x ExtTime))
     \<and> (\<forall>m. mset (rangeOrder x m) = mset m)"

lemma externals_copies [copies]:
  assumes "externals_ok x"
  shows "deep_copy (extShape x t) (extInto x t)"
    and "deep_copy (extShape x ExtQuantity) (returned (extValue x ExtQuantity))"
    and "deep_copy (Ptr (extShape x ExtTime)) (returned (extPtr x ExtTime))"
    and "mset (rangeOrder x m) = mset m"
  using assms by (simp_all add: externals_ok_def)

text \<open>
  \<open>metav1.TypeMeta\<close> and \<open>metav1.Duration\<close> are copied by assignment: the one is two strings, the other
  wraps an integer.
\<close>

abbreviation (input) TypeMeta_shape :: shape where
  "TypeMeta_shape \<equiv> Struct [(''Kind'', Basic KString), (''APIVersion'', Basic KString)]"

abbreviation (input) Duration_shape :: shape where
  "Duration_shape \<equiv> Struct [(''Duration'', Basic KInt)]"

section \<open>SecretReference\<close>

definition SecretReference_shape :: "externals \<Rightarrow> shape" where
  "SecretReference_shape x = Struct [
     (''Name'', Basic KString),
     (''Namespace'', Basic KString),
     (''KeyMapping'', StrMap)]"

definition SecretReference_DeepCopyInto :: "externals \<Rightarrow> copier" where
  "SecretReference_DeepCopyInto x = runs [
     assign,
     whenSet ''KeyMapping'' (makeMap (rangeOrder x))]"

definition SecretReference_DeepCopy ::
  "externals \<Rightarrow> gval \<Rightarrow> heap \<Rightarrow> heap \<times> gval" where
  "SecretReference_DeepCopy x =
     deepCopyPtr (SecretReference_shape x) (SecretReference_DeepCopyInto x)"

lemma SecretReference_copies [copies]:
  "externals_ok x \<Longrightarrow>
   deep_copy (SecretReference_shape x) (SecretReference_DeepCopyInto x)"
  unfolding SecretReference_shape_def SecretReference_DeepCopyInto_def
  by (rule struct_copies [where names = "[''KeyMapping'']"])
    (simp_all add: copies)

section \<open>S3Source\<close>

definition S3Source_shape :: "externals \<Rightarrow> shape" where
  "S3Source_shape x = Struct [
     (''Endpoint'', Basic KString),
     (''Region'', Basic KString),
     (''Bucket'', Basic KString),
     (''Prefix'', Basic KString),
     (''CredentialsSecret'', SecretReference_shape x),
     (''AdditionalSecrets'', Slice (SecretReference_shape x)),
     (''ExtraEnv'', StrMap),
     (''RequireObjectLock'', Basic KBool),
     (''RequireBucketEncryption'', Basic KBool)]"

definition S3Source_DeepCopyInto :: "externals \<Rightarrow> copier" where
  "S3Source_DeepCopyInto x = runs [
     assign,
     atField ''CredentialsSecret'' (SecretReference_DeepCopyInto x),
     whenSet ''AdditionalSecrets''
       (makeSlice (SecretReference_shape x) (SecretReference_DeepCopyInto x)),
     whenSet ''ExtraEnv'' (makeMap (rangeOrder x))]"

definition S3Source_DeepCopy ::
  "externals \<Rightarrow> gval \<Rightarrow> heap \<Rightarrow> heap \<times> gval" where
  "S3Source_DeepCopy x = deepCopyPtr (S3Source_shape x) (S3Source_DeepCopyInto x)"

lemma S3Source_copies [copies]:
  "externals_ok x \<Longrightarrow> deep_copy (S3Source_shape x) (S3Source_DeepCopyInto x)"
  unfolding S3Source_shape_def S3Source_DeepCopyInto_def
  by (rule struct_copies [where names =
      "[''CredentialsSecret'', ''AdditionalSecrets'', ''ExtraEnv'']"])
    (simp_all add: copies)

section \<open>BackupRepositorySpec\<close>

definition BackupRepositorySpec_shape :: "externals \<Rightarrow> shape" where
  "BackupRepositorySpec_shape x = Struct [
     (''S3'', S3Source_shape x),
     (''Format'', Basic KString),
     (''ProbeInterval'', Duration_shape),
     (''MetadataValidationInterval'', Duration_shape),
     (''SampledRetrievalInterval'', Ptr Duration_shape),
     (''SampledRetrievalObjects'', Ptr (Basic KInt)),
     (''FullRetrievalInterval'', Ptr Duration_shape),
     (''FullRetrievalStorageClass'', Ptr (Basic KString)),
     (''FullRetrievalPVCSize'', Ptr (extShape x ExtQuantity)),
     (''MaxBackupLag'', Duration_shape),
     (''ExpectedSizeBudget'', Ptr (extShape x ExtQuantity)),
     (''AutoCleanStaleLocks'', Ptr (Basic KBool))]"

definition BackupRepositorySpec_DeepCopyInto :: "externals \<Rightarrow> copier" where
  "BackupRepositorySpec_DeepCopyInto x = runs [
     assign,
     atField ''S3'' (S3Source_DeepCopyInto x),
     atField ''ProbeInterval'' assign,
     atField ''MetadataValidationInterval'' assign,
     whenSet ''SampledRetrievalInterval'' (newInto Duration_shape assign),
     whenSet ''SampledRetrievalObjects'' (newInto (Basic KInt) assign),
     whenSet ''FullRetrievalInterval'' (newInto Duration_shape assign),
     whenSet ''FullRetrievalStorageClass'' (newInto (Basic KString) assign),
     whenSet ''FullRetrievalPVCSize'' (addressOf (extValue x ExtQuantity)),
     atField ''MaxBackupLag'' assign,
     whenSet ''ExpectedSizeBudget'' (addressOf (extValue x ExtQuantity)),
     whenSet ''AutoCleanStaleLocks'' (newInto (Basic KBool) assign)]"

definition BackupRepositorySpec_DeepCopy ::
  "externals \<Rightarrow> gval \<Rightarrow> heap \<Rightarrow> heap \<times> gval" where
  "BackupRepositorySpec_DeepCopy x =
     deepCopyPtr (BackupRepositorySpec_shape x) (BackupRepositorySpec_DeepCopyInto x)"

lemma BackupRepositorySpec_copies [copies]:
  "externals_ok x \<Longrightarrow>
   deep_copy (BackupRepositorySpec_shape x) (BackupRepositorySpec_DeepCopyInto x)"
  unfolding BackupRepositorySpec_shape_def BackupRepositorySpec_DeepCopyInto_def
  by (rule struct_copies [where names =
      "[''S3'', ''ProbeInterval'', ''MetadataValidationInterval'',
         ''SampledRetrievalInterval'', ''SampledRetrievalObjects'',
         ''FullRetrievalInterval'', ''FullRetrievalStorageClass'', ''FullRetrievalPVCSize'',
         ''MaxBackupLag'', ''ExpectedSizeBudget'', ''AutoCleanStaleLocks'']"])
    (simp_all add: copies)

section \<open>LatestBackupStatus\<close>

definition LatestBackupStatus_shape :: "externals \<Rightarrow> shape" where
  "LatestBackupStatus_shape x = Struct [
     (''Name'', Basic KString),
     (''CreatedAt'', extShape x ExtTime),
     (''SizeBytes'', extShape x ExtQuantity),
     (''UncompressedSizeBytes'', Ptr (extShape x ExtQuantity))]"

definition LatestBackupStatus_DeepCopyInto :: "externals \<Rightarrow> copier" where
  "LatestBackupStatus_DeepCopyInto x = runs [
     assign,
     atField ''CreatedAt'' (extInto x ExtTime),
     atField ''SizeBytes'' (returned (extValue x ExtQuantity)),
     whenSet ''UncompressedSizeBytes'' (addressOf (extValue x ExtQuantity))]"

definition LatestBackupStatus_DeepCopy ::
  "externals \<Rightarrow> gval \<Rightarrow> heap \<Rightarrow> heap \<times> gval" where
  "LatestBackupStatus_DeepCopy x =
     deepCopyPtr (LatestBackupStatus_shape x) (LatestBackupStatus_DeepCopyInto x)"

lemma LatestBackupStatus_copies [copies]:
  "externals_ok x \<Longrightarrow>
   deep_copy (LatestBackupStatus_shape x) (LatestBackupStatus_DeepCopyInto x)"
  unfolding LatestBackupStatus_shape_def LatestBackupStatus_DeepCopyInto_def
  by (rule struct_copies [where names =
      "[''CreatedAt'', ''SizeBytes'', ''UncompressedSizeBytes'']"])
    (simp_all add: copies)

section \<open>InventoryStatus\<close>

definition InventoryStatus_shape :: "externals \<Rightarrow> shape" where
  "InventoryStatus_shape x = Struct [
     (''ObjectCount'', Basic KInt),
     (''TotalBytes'', extShape x ExtQuantity),
     (''OldestObject'', Ptr (extShape x ExtTime)),
     (''NewestObject'', Ptr (extShape x ExtTime))]"

definition InventoryStatus_DeepCopyInto :: "externals \<Rightarrow> copier" where
  "InventoryStatus_DeepCopyInto x = runs [
     assign,
     atField ''TotalBytes'' (returned (extValue x ExtQuantity)),
     whenSet ''OldestObject'' (returned (extPtr x ExtTime)),
     whenSet ''NewestObject'' (returned (extPtr x ExtTime))]"

definition InventoryStatus_DeepCopy ::
  "externals \<Rightarrow> gval \<Rightarrow> heap \<Rightarrow> heap \<times> gval" where
  "InventoryStatus_DeepCopy x =
     deepCopyPtr (InventoryStatus_shape x) (InventoryStatus_DeepCopyInto x)"

lemma InventoryStatus_copies [copies]:
  "externals_ok x \<Longrightarrow>
   deep_copy (InventoryStatus_shape x) (InventoryStatus_DeepCopyInto x)"
  unfolding InventoryStatus_shape_def InventoryStatus_DeepCopyInto_def
  by (rule struct_copies [where names = "[''TotalBytes'', ''OldestObject'', ''NewestObject'']"])
    (simp_all add: copies)

section \<open>GrowthStatus\<close>

definition GrowthStatus_shape :: "externals \<Rightarrow> shape" where
  "GrowthStatus_shape x = Struct [
     (''Window'', Duration_shape),
     (''Bytes'', extShape x ExtQuantity),
     (''SampledAt'', extShape x ExtTime)]"

definition GrowthStatus_DeepCopyInto :: "externals \<Rightarrow> copier" where
  "GrowthStatus_DeepCopyInto x = runs [
     assign,
     atField ''Window'' assign,
     atField ''Bytes'' (returned (extValue x ExtQuantity)),
     atField ''SampledAt'' (extInto x ExtTime)]"

definition GrowthStatus_DeepCopy ::
  "externals \<Rightarrow> gval \<Rightarrow> heap \<Rightarrow> heap \<times> gval" where
  "GrowthStatus_DeepCopy x = deepCopyPtr (GrowthStatus_shape x) (GrowthStatus_DeepCopyInto x)"

lemma GrowthStatus_copies [copies]:
  "externals_ok x \<Longrightarrow> deep_copy (GrowthStatus_shape x) (GrowthStatus_DeepCopyInto x)"
  unfolding GrowthStatus_shape_def GrowthStatus_DeepCopyInto_def
  by (rule struct_copies [where names = "[''Window'', ''Bytes'', ''SampledAt'']"])
    (simp_all add: copies)

section \<open>FullRetrievalStatus\<close>

definition FullRetrievalStatus_shape :: "externals \<Rightarrow> shape" where
  "FullRetrievalStatus_shape x = Struct [
     (''CompletedAt'', extShape x ExtTime),
     (''DurationSeconds'', Basic KInt),
     (''BytesTransferred'', Basic KInt),
     (''ThroughputBytesPerSec'', Basic KInt),
     (''ObjectsRetrieved'', Basic KInt),
     (''FailedObjects'', Basic KInt),
     (''TriggerSource'', Basic KString)]"

definition FullRetrievalStatus_DeepCopyInto :: "externals \<Rightarrow> copier" where
  "FullRetrievalStatus_DeepCopyInto x = runs [
     assign,
     atField ''CompletedAt'' (extInto x ExtTime)]"

definition FullRetrievalStatus_DeepCopy ::
  "externals \<Rightarrow> gval \<Rightarrow> heap \<Rightarrow> heap \<times> gval" where
  "FullRetrievalStatus_DeepCopy x =
     deepCopyPtr (FullRetrievalStatus_shape x) (FullRetrievalStatus_DeepCopyInto x)"

lemma FullRetrievalStatus_copies [copies]:
  "externals_ok x \<Longrightarrow>
   deep_copy (FullRetrievalStatus_shape x) (FullRetrievalStatus_DeepCopyInto x)"
  unfolding FullRetrievalStatus_shape_def FullRetrievalStatus_DeepCopyInto_def
  by (rule struct_copies [where names = "[''CompletedAt'']"])
    (simp_all add: copies)

section \<open>BackupRepositoryStatus\<close>

definition BackupRepositoryStatus_shape :: "externals \<Rightarrow> shape" where
  "BackupRepositoryStatus_shape x = Struct [
     (''ObservedGeneration'', Basic KInt),
     (''Conditions'', Slice (extShape x ExtCondition)),
     (''LastProbedAt'', Ptr (extShape x ExtTime)),
     (''ClaimedLatestBackup'', Ptr (LatestBackupStatus_shape x)),
     (''ClaimedLastSuccessfulBackup'', Ptr (extShape x ExtTime)),
     (''DetectedFormat'', Basic KString),
     (''DetectedVersion'', Basic KString),
     (''ObservedInventory'', Ptr (InventoryStatus_shape x)),
     (''ObservedGrowth'', Ptr (GrowthStatus_shape x)),
     (''VerifiedLastValidationAt'', Ptr (extShape x ExtTime)),
     (''VerifiedLastSampledRetrievalAt'', Ptr (extShape x ExtTime)),
     (''LastFullRetrieval'', Ptr (FullRetrievalStatus_shape x)),
     (''LastForceRevalidatedAt'', Ptr (extShape x ExtTime)),
     (''LastForcedE4At'', Ptr (extShape x ExtTime))]"

definition BackupRepositoryStatus_DeepCopyInto :: "externals \<Rightarrow> copier" where
  "BackupRepositoryStatus_DeepCopyInto x = runs [
     assign,
     whenSet ''Conditions'' (makeSlice (extShape x ExtCondition) (extInto x ExtCondition)),
     whenSet ''LastProbedAt'' (returned (extPtr x ExtTime)),
     whenSet ''ClaimedLatestBackup''
       (newInto (LatestBackupStatus_shape x) (LatestBackupStatus_DeepCopyInto x)),
     whenSet ''ClaimedLastSuccessfulBackup'' (returned (extPtr x ExtTime)),
     whenSet ''ObservedInventory''
       (newInto (InventoryStatus_shape x) (InventoryStatus_DeepCopyInto x)),
     whenSet ''ObservedGrowth'' (newInto (GrowthStatus_shape x) (GrowthStatus_DeepCopyInto x)),
     whenSet ''VerifiedLastValidationAt'' (returned (extPtr x ExtTime)),
     whenSet ''VerifiedLastSampledRetrievalAt'' (returned (extPtr x ExtTime)),
     whenSet ''LastFullRetrieval''
       (newInto (FullRetrievalStatus_shape x) (FullRetrievalStatus_DeepCopyInto x)),
     whenSet ''LastForceRevalidatedAt'' (returned (extPtr x ExtTime)),
     whenSet ''LastForcedE4At'' (returned (extPtr x ExtTime))]"

definition BackupRepositoryStatus_DeepCopy ::
  "externals \<Rightarrow> gval \<Rightarrow> heap \<Rightarrow> heap \<times> gval" where
  "BackupRepositoryStatus_DeepCopy x =
     deepCopyPtr (BackupRepositoryStatus_shape x) (BackupRepositoryStatus_DeepCopyInto x)"

lemma BackupRepositoryStatus_copies [copies]:
  "externals_ok x \<Longrightarrow>
   deep_copy (BackupRepositoryStatus_shape x) (BackupRepositoryStatus_DeepCopyInto x)"
  unfolding BackupRepositoryStatus_shape_def BackupRepositoryStatus_DeepCopyInto_def
  by (rule struct_copies [where names =
      "[''Conditions'', ''LastProbedAt'', ''ClaimedLatestBackup'',
         ''ClaimedLastSuccessfulBackup'', ''ObservedInventory'', ''ObservedGrowth'',
         ''VerifiedLastValidationAt'', ''VerifiedLastSampledRetrievalAt'',
         ''LastFullRetrieval'', ''LastForceRevalidatedAt'', ''LastForcedE4At'']"])
    (simp_all add: copies)

section \<open>BackupRepository\<close>

definition BackupRepository_shape :: "externals \<Rightarrow> shape" where
  "BackupRepository_shape x = Struct [
     (''TypeMeta'', TypeMeta_shape),
     (''ObjectMeta'', extShape x ExtObjectMeta),
     (''Spec'', BackupRepositorySpec_shape x),
     (''Status'', BackupRepositoryStatus_shape x)]"

definition BackupRepository_DeepCopyInto :: "externals \<Rightarrow> copier" where
  "BackupRepository_DeepCopyInto x = runs [
     assign,
     atField ''TypeMeta'' assign,
     atField ''ObjectMeta'' (extInto x ExtObjectMeta),
     atField ''Spec'' (BackupRepositorySpec_DeepCopyInto x),
     atField ''Status'' (BackupRepositoryStatus_DeepCopyInto x)]"

definition BackupRepository_DeepCopy ::
  "externals \<Rightarrow> gval \<Rightarrow> heap \<Rightarrow> heap \<times> gval" where
  "BackupRepository_DeepCopy x =
     deepCopyPtr (BackupRepository_shape x) (BackupRepository_DeepCopyInto x)"

definition BackupRepository_DeepCopyObject ::
  "externals \<Rightarrow> gval \<Rightarrow> heap \<Rightarrow> heap \<times> iface" where
  "BackupRepository_DeepCopyObject x =
     deepCopyObject ''BackupRepository'' (BackupRepository_DeepCopy x)"

lemma BackupRepository_copies [copies]:
  "externals_ok x \<Longrightarrow>
   deep_copy (BackupRepository_shape x) (BackupRepository_DeepCopyInto x)"
  unfolding BackupRepository_shape_def BackupRepository_DeepCopyInto_def
  by (rule struct_copies [where names = "[''TypeMeta'', ''ObjectMeta'', ''Spec'', ''Status'']"])
    (simp_all add: copies)

section \<open>BackupRepositoryList\<close>

definition BackupRepositoryList_shape :: "externals \<Rightarrow> shape" where
  "BackupRepositoryList_shape x = Struct [
     (''TypeMeta'', TypeMeta_shape),
     (''ListMeta'', extShape x ExtListMeta),
     (''Items'', Slice (BackupRepository_shape x))]"

definition BackupRepositoryList_DeepCopyInto :: "externals \<Rightarrow> copier" where
  "BackupRepositoryList_DeepCopyInto x = runs [
     assign,
     atField ''TypeMeta'' assign,
     atField ''ListMeta'' (extInto x ExtListMeta),
     whenSet ''Items'' (makeSlice (BackupRepository_shape x) (BackupRepository_DeepCopyInto x))]"

definition BackupRepositoryList_DeepCopy ::
  "externals \<Rightarrow> gval \<Rightarrow> heap \<Rightarrow> heap \<times> gval" where
  "BackupRepositoryList_DeepCopy x =
     deepCopyPtr (BackupRepositoryList_shape x) (BackupRepositoryList_DeepCopyInto x)"

definition BackupRepositoryList_DeepCopyObject ::
  "externals \<Rightarrow> gval \<Rightarrow> heap \<Rightarrow> heap \<times> iface" where
  "BackupRepositoryList_DeepCopyObject x =
     deepCopyObject ''BackupRepositoryList'' (BackupRepositoryList_DeepCopy x)"

lemma BackupRepositoryList_copies [copies]:
  "externals_ok x \<Longrightarrow>
   deep_copy (BackupRepositoryList_shape x) (BackupRepositoryList_DeepCopyInto x)"
  unfolding BackupRepositoryList_shape_def BackupRepositoryList_DeepCopyInto_def
  by (rule struct_copies [where names = "[''TypeMeta'', ''ListMeta'', ''Items'']"])
    (simp_all add: copies)

section \<open>BackupRepositoryReference\<close>

definition BackupRepositoryReference_shape :: "externals \<Rightarrow> shape" where
  "BackupRepositoryReference_shape x = Struct [
     (''Name'', Basic KString)]"

definition BackupRepositoryReference_DeepCopyInto :: "externals \<Rightarrow> copier" where
  "BackupRepositoryReference_DeepCopyInto x = runs [
     assign]"

definition BackupRepositoryReference_DeepCopy ::
  "externals \<Rightarrow> gval \<Rightarrow> heap \<Rightarrow> heap \<times> gval" where
  "BackupRepositoryReference_DeepCopy x =
     deepCopyPtr (BackupRepositoryReference_shape x) (BackupRepositoryReference_DeepCopyInto x)"

lemma BackupRepositoryReference_flat [copies]: "flat (BackupRepositoryReference_shape x)"
  by (simp add: BackupRepositoryReference_shape_def)

lemma BackupRepositoryReference_copies [copies]:
  "deep_copy (BackupRepositoryReference_shape x) (BackupRepositoryReference_DeepCopyInto x)"
  unfolding BackupRepositoryReference_shape_def BackupRepositoryReference_DeepCopyInto_def
  by (rule struct_copies [where names = "[]"]) simp_all

section \<open>KeyedConfigMapReference\<close>

definition KeyedConfigMapReference_shape :: "externals \<Rightarrow> shape" where
  "KeyedConfigMapReference_shape x = Struct [
     (''Name'', Basic KString),
     (''Key'', Basic KString)]"

definition KeyedConfigMapReference_DeepCopyInto :: "externals \<Rightarrow> copier" where
  "KeyedConfigMapReference_DeepCopyInto x = runs [
     assign]"

definition KeyedConfigMapReference_DeepCopy ::
  "externals \<Rightarrow> gval \<Rightarrow> heap \<Rightarrow> heap \<times> gval" where
  "KeyedConfigMapReference_DeepCopy x =
     deepCopyPtr (KeyedConfigMapReference_shape x) (KeyedConfigMapReference_DeepCopyInto x)"

lemma KeyedConfigMapReference_flat [copies]: "flat (KeyedConfigMapReference_shape x)"
  by (simp add: KeyedConfigMapReference_shape_def)

lemma KeyedConfigMapReference_copies [copies]:
  "deep_copy (KeyedConfigMapReference_shape x) (KeyedConfigMapReference_DeepCopyInto x)"
  unfolding KeyedConfigMapReference_shape_def KeyedConfigMapReference_DeepCopyInto_def
  by (rule struct_copies [where names = "[]"]) simp_all

section \<open>KeyedSecretReference\<close>

definition KeyedSecretReference_shape :: "externals \<Rightarrow> shape" where
  "KeyedSecretReference_shape x = Struct [
     (''Name'', Basic KString),
     (''Key'', Basic KString)]"

definition KeyedSecretReference_DeepCopyInto :: "externals \<Rightarrow> copier" where
  "KeyedSecretReference_DeepCopyInto x = runs [
     assign]"

definition KeyedSecretReference_DeepCopy ::
  "externals \<Rightarrow> gval \<Rightarrow> heap \<Rightarrow> heap \<times> gval" where
  "KeyedSecretReference_DeepCopy x =
     deepCopyPtr (KeyedSecretReference_shape x) (KeyedSecretReference_DeepCopyInto x)"

lemma KeyedSecretReference_flat [copies]: "flat (KeyedSecretReference_shape x)"
  by (simp add: KeyedSecretReference_shape_def)

lemma KeyedSecretReference_copies [copies]:
  "deep_copy (KeyedSecretReference_shape x) (KeyedSecretReference_DeepCopyInto x)"
  unfolding KeyedSecretReference_shape_def KeyedSecretReference_DeepCopyInto_def
  by (rule struct_copies [where names = "[]"]) simp_all

section \<open>ManifestRef\<close>

definition ManifestRef_shape :: "externals \<Rightarrow> shape" where
  "ManifestRef_shape x = Struct [
     (''ConfigMap'', Ptr (KeyedConfigMapReference_shape x)),
     (''Secret'', Ptr (KeyedSecretReference_shape x))]"

definition ManifestRef_DeepCopyInto :: "externals \<Rightarrow> copier" where
  "ManifestRef_DeepCopyInto x = runs [
     assign,
     whenSet ''ConfigMap'' (newInto (KeyedConfigMapReference_shape x) assign),
     whenSet ''Secret'' (newInto (KeyedSecretReference_shape x) assign)]"

definition ManifestRef_DeepCopy ::
  "externals \<Rightarrow> gval \<Rightarrow> heap \<Rightarrow> heap \<times> gval" where
  "ManifestRef_DeepCopy x = deepCopyPtr (ManifestRef_shape x) (ManifestRef_DeepCopyInto x)"

lemma ManifestRef_copies [copies]:
  "externals_ok x \<Longrightarrow> deep_copy (ManifestRef_shape x) (ManifestRef_DeepCopyInto x)"
  unfolding ManifestRef_shape_def ManifestRef_DeepCopyInto_def
  by (rule struct_copies [where names = "[''ConfigMap'', ''Secret'']"])
    (simp_all add: copies)

section \<open>VariantSpec\<close>

definition VariantSpec_shape :: "externals \<Rightarrow> shape" where
  "VariantSpec_shape x = Struct [
     (''ManifestRef'', ManifestRef_shape x)]"

definition VariantSpec_DeepCopyInto :: "externals \<Rightarrow> copier" where
  "VariantSpec_DeepCopyInto x = runs [
     assign,
     atField ''ManifestRef'' (ManifestRef_DeepCopyInto x)]"

definition VariantSpec_DeepCopy ::
  "externals \<Rightarrow> gval \<Rightarrow> heap \<Rightarrow> heap \<times> gval" where
  "VariantSpec_DeepCopy x = deepCopyPtr (VariantSpec_shape x) (VariantSpec_DeepCopyInto x)"

lemma VariantSpec_copies [copies]:
  "externals_ok x \<Longrightarrow> deep_copy (VariantSpec_shape x) (VariantSpec_DeepCopyInto x)"
  unfolding VariantSpec_shape_def VariantSpec_DeepCopyInto_def
  by (rule struct_copies [where names = "[''ManifestRef'']"])
    (simp_all add: copies)

section \<open>BackupRepositoryConditionalSpec\<close>

definition BackupRepositoryConditionalSpec_shape :: "externals \<Rightarrow> shape" where
  "BackupRepositoryConditionalSpec_shape x = Struct [
     (''RepositoryRef'', BackupRepositoryReference_shape x),
     (''WhenHealthy'', Ptr (VariantSpec_shape x)),
     (''WhenEmpty'', Ptr (VariantSpec_shape x)),
     (''WhenDegraded'', Ptr (VariantSpec_shape x))]"

definition BackupRepositoryConditionalSpec_DeepCopyInto :: "externals \<Rightarrow> copier" where
  "BackupRepositoryConditionalSpec_DeepCopyInto x = runs [
     assign,
     atField ''RepositoryRef'' assign,
     whenSet ''WhenHealthy'' (newInto (VariantSpec_shape x) (VariantSpec_DeepCopyInto x)),
     whenSet ''WhenEmpty'' (newInto (VariantSpec_shape x) (VariantSpec_DeepCopyInto x)),
     whenSet ''WhenDegraded'' (newInto (VariantSpec_shape x) (VariantSpec_DeepCopyInto x))]"

definition BackupRepositoryConditionalSpec_DeepCopy ::
  "externals \<Rightarrow> gval \<Rightarrow> heap \<Rightarrow> heap \<times> gval" where
  "BackupRepositoryConditionalSpec_DeepCopy x =
     deepCopyPtr (BackupRepositoryConditionalSpec_shape x)
       (BackupRepositoryConditionalSpec_DeepCopyInto x)"

lemma BackupRepositoryConditionalSpec_copies [copies]:
  "externals_ok x \<Longrightarrow>
   deep_copy (BackupRepositoryConditionalSpec_shape x) (BackupRepositoryConditionalSpec_DeepCopyInto x)"
  unfolding BackupRepositoryConditionalSpec_shape_def
    BackupRepositoryConditionalSpec_DeepCopyInto_def
  by (rule struct_copies [where names =
      "[''RepositoryRef'', ''WhenHealthy'', ''WhenEmpty'', ''WhenDegraded'']"])
    (simp_all add: copies)

section \<open>AppliedResourceRef\<close>

definition AppliedResourceRef_shape :: "externals \<Rightarrow> shape" where
  "AppliedResourceRef_shape x = Struct [
     (''APIVersion'', Basic KString),
     (''Kind'', Basic KString),
     (''Namespace'', Basic KString),
     (''Name'', Basic KString)]"

definition AppliedResourceRef_DeepCopyInto :: "externals \<Rightarrow> copier" where
  "AppliedResourceRef_DeepCopyInto x = runs [
     assign]"

definition AppliedResourceRef_DeepCopy ::
  "externals \<Rightarrow> gval \<Rightarrow> heap \<Rightarrow> heap \<times> gval" where
  "AppliedResourceRef_DeepCopy x =
     deepCopyPtr (AppliedResourceRef_shape x) (AppliedResourceRef_DeepCopyInto x)"

lemma AppliedResourceRef_flat [copies]: "flat (AppliedResourceRef_shape x)"
  by (simp add: AppliedResourceRef_shape_def)

lemma AppliedResourceRef_copies [copies]:
  "deep_copy (AppliedResourceRef_shape x) (AppliedResourceRef_DeepCopyInto x)"
  unfolding AppliedResourceRef_shape_def AppliedResourceRef_DeepCopyInto_def
  by (rule struct_copies [where names = "[]"]) simp_all

section \<open>BackupRepositoryConditionalStatus\<close>

definition BackupRepositoryConditionalStatus_shape :: "externals \<Rightarrow> shape" where
  "BackupRepositoryConditionalStatus_shape x = Struct [
     (''ObservedRepositoryState'', Basic KString),
     (''Decided'', Basic KString),
     (''DecidedAt'', Ptr (extShape x ExtTime)),
     (''AppliedRef'', Ptr (AppliedResourceRef_shape x)),
     (''ObservedGeneration'', Basic KInt),
     (''Conditions'', Slice (extShape x ExtCondition))]"

definition BackupRepositoryConditionalStatus_DeepCopyInto :: "externals \<Rightarrow> copier" where
  "BackupRepositoryConditionalStatus_DeepCopyInto x = runs [
     assign,
     whenSet ''DecidedAt'' (returned (extPtr x ExtTime)),
     whenSet ''AppliedRef'' (newInto (AppliedResourceRef_shape x) assign),
     whenSet ''Conditions'' (makeSlice (extShape x ExtCondition) (extInto x ExtCondition))]"

definition BackupRepositoryConditionalStatus_DeepCopy ::
  "externals \<Rightarrow> gval \<Rightarrow> heap \<Rightarrow> heap \<times> gval" where
  "BackupRepositoryConditionalStatus_DeepCopy x =
     deepCopyPtr (BackupRepositoryConditionalStatus_shape x)
       (BackupRepositoryConditionalStatus_DeepCopyInto x)"

lemma BackupRepositoryConditionalStatus_copies [copies]:
  "externals_ok x \<Longrightarrow>
   deep_copy (BackupRepositoryConditionalStatus_shape x) (BackupRepositoryConditionalStatus_DeepCopyInto x)"
  unfolding BackupRepositoryConditionalStatus_shape_def
    BackupRepositoryConditionalStatus_DeepCopyInto_def
  by (rule struct_copies [where names = "[''DecidedAt'', ''AppliedRef'', ''Conditions'']"])
    (simp_all add: copies)

section \<open>BackupRepositoryConditional\<close>

definition BackupRepositoryConditional_shape :: "externals \<Rightarrow> shape" where
  "BackupRepositoryConditional_shape x = Struct [
     (''TypeMeta'', TypeMeta_shape),
     (''ObjectMeta'', extShape x ExtObjectMeta),
     (''Spec'', BackupRepositoryConditionalSpec_shape x),
     (''Status'', BackupRepositoryConditionalStatus_shape x)]"

definition BackupRepositoryConditional_DeepCopyInto :: "externals \<Rightarrow> copier" where
  "BackupRepositoryConditional_DeepCopyInto x = runs [
     assign,
     atField ''TypeMeta'' assign,
     atField ''ObjectMeta'' (extInto x ExtObjectMeta),
     atField ''Spec'' (BackupRepositoryConditionalSpec_DeepCopyInto x),
     atField ''Status'' (BackupRepositoryConditionalStatus_DeepCopyInto x)]"

definition BackupRepositoryConditional_DeepCopy ::
  "externals \<Rightarrow> gval \<Rightarrow> heap \<Rightarrow> heap \<times> gval" where
  "BackupRepositoryConditional_DeepCopy x =
     deepCopyPtr (BackupRepositoryConditional_shape x)
       (BackupRepositoryConditional_DeepCopyInto x)"

definition BackupRepositoryConditional_DeepCopyObject ::
  "externals \<Rightarrow> gval \<Rightarrow> heap \<Rightarrow> heap \<times> iface" where
  "BackupRepositoryConditional_DeepCopyObject x =
     deepCopyObject ''BackupRepositoryConditional'' (BackupRepositoryConditional_DeepCopy x)"

lemma BackupRepositoryConditional_copies [copies]:
  "externals_ok x \<Longrightarrow>
   deep_copy (BackupRepositoryConditional_shape x) (BackupRepositoryConditional_DeepCopyInto x)"
  unfolding BackupRepositoryConditional_shape_def BackupRepositoryConditional_DeepCopyInto_def
  by (rule struct_copies [where names = "[''TypeMeta'', ''ObjectMeta'', ''Spec'', ''Status'']"])
    (simp_all add: copies)

section \<open>BackupRepositoryConditionalList\<close>

definition BackupRepositoryConditionalList_shape :: "externals \<Rightarrow> shape" where
  "BackupRepositoryConditionalList_shape x = Struct [
     (''TypeMeta'', TypeMeta_shape),
     (''ListMeta'', extShape x ExtListMeta),
     (''Items'', Slice (BackupRepositoryConditional_shape x))]"

definition BackupRepositoryConditionalList_DeepCopyInto :: "externals \<Rightarrow> copier" where
  "BackupRepositoryConditionalList_DeepCopyInto x = runs [
     assign,
     atField ''TypeMeta'' assign,
     atField ''ListMeta'' (extInto x ExtListMeta),
     whenSet ''Items''
       (makeSlice (BackupRepositoryConditional_shape x) (BackupRepositoryConditional_DeepCopyInto x))]"

definition BackupRepositoryConditionalList_DeepCopy ::
  "externals \<Rightarrow> gval \<Rightarrow> heap \<Rightarrow> heap \<times> gval" where
  "BackupRepositoryConditionalList_DeepCopy x =
     deepCopyPtr (BackupRepositoryConditionalList_shape x)
       (BackupRepositoryConditionalList_DeepCopyInto x)"

definition BackupRepositoryConditionalList_DeepCopyObject ::
  "externals \<Rightarrow> gval \<Rightarrow> heap \<Rightarrow> heap \<times> iface" where
  "BackupRepositoryConditionalList_DeepCopyObject x =
     deepCopyObject ''BackupRepositoryConditionalList''
       (BackupRepositoryConditionalList_DeepCopy x)"

lemma BackupRepositoryConditionalList_copies [copies]:
  "externals_ok x \<Longrightarrow>
   deep_copy (BackupRepositoryConditionalList_shape x) (BackupRepositoryConditionalList_DeepCopyInto x)"
  unfolding BackupRepositoryConditionalList_shape_def
    BackupRepositoryConditionalList_DeepCopyInto_def
  by (rule struct_copies [where names = "[''TypeMeta'', ''ListMeta'', ''Items'']"])
    (simp_all add: copies)

section \<open>Correctness of the generated functions\<close>

text \<open>All structs of the API package: shape, \<open>DeepCopyInto\<close> and \<open>DeepCopy\<close>.\<close>

definition generated ::
  "externals \<Rightarrow> (shape \<times> copier \<times> (gval \<Rightarrow> heap \<Rightarrow> heap \<times> gval)) list" where
  "generated x = [
     (SecretReference_shape x, SecretReference_DeepCopyInto x, SecretReference_DeepCopy x),
     (S3Source_shape x, S3Source_DeepCopyInto x, S3Source_DeepCopy x),
     (BackupRepositorySpec_shape x, BackupRepositorySpec_DeepCopyInto x,
      BackupRepositorySpec_DeepCopy x),
     (LatestBackupStatus_shape x, LatestBackupStatus_DeepCopyInto x, LatestBackupStatus_DeepCopy x),
     (InventoryStatus_shape x, InventoryStatus_DeepCopyInto x, InventoryStatus_DeepCopy x),
     (GrowthStatus_shape x, GrowthStatus_DeepCopyInto x, GrowthStatus_DeepCopy x),
     (FullRetrievalStatus_shape x, FullRetrievalStatus_DeepCopyInto x,
      FullRetrievalStatus_DeepCopy x),
     (BackupRepositoryStatus_shape x, BackupRepositoryStatus_DeepCopyInto x,
      BackupRepositoryStatus_DeepCopy x),
     (BackupRepository_shape x, BackupRepository_DeepCopyInto x, BackupRepository_DeepCopy x),
     (BackupRepositoryList_shape x, BackupRepositoryList_DeepCopyInto x,
      BackupRepositoryList_DeepCopy x),
     (BackupRepositoryReference_shape x, BackupRepositoryReference_DeepCopyInto x,
      BackupRepositoryReference_DeepCopy x),
     (KeyedConfigMapReference_shape x, KeyedConfigMapReference_DeepCopyInto x,
      KeyedConfigMapReference_DeepCopy x),
     (KeyedSecretReference_shape x, KeyedSecretReference_DeepCopyInto x,
      KeyedSecretReference_DeepCopy x),
     (ManifestRef_shape x, ManifestRef_DeepCopyInto x, ManifestRef_DeepCopy x),
     (VariantSpec_shape x, VariantSpec_DeepCopyInto x, VariantSpec_DeepCopy x),
     (BackupRepositoryConditionalSpec_shape x, BackupRepositoryConditionalSpec_DeepCopyInto x,
      BackupRepositoryConditionalSpec_DeepCopy x),
     (AppliedResourceRef_shape x, AppliedResourceRef_DeepCopyInto x, AppliedResourceRef_DeepCopy x),
     (BackupRepositoryConditionalStatus_shape x, BackupRepositoryConditionalStatus_DeepCopyInto x,
      BackupRepositoryConditionalStatus_DeepCopy x),
     (BackupRepositoryConditional_shape x, BackupRepositoryConditional_DeepCopyInto x,
      BackupRepositoryConditional_DeepCopy x),
     (BackupRepositoryConditionalList_shape x, BackupRepositoryConditionalList_DeepCopyInto x,
      BackupRepositoryConditionalList_DeepCopy x)]"

text \<open>
  The kinds the package adds to a scheme under its group and version, and the registrations of the
  two \<open>init\<close> functions.
\<close>

record GroupVersionKind =
  Group :: string
  Version :: string
  Kind :: string

definition BackupRepository_init :: "string list" where
  "BackupRepository_init = [''BackupRepository'', ''BackupRepositoryList'']"

definition BackupRepositoryConditional_init :: "string list" where
  "BackupRepositoryConditional_init = [''BackupRepositoryConditional'', ''BackupRepositoryConditionalList'']"

definition SchemeGroupVersion :: "string \<Rightarrow> GroupVersionKind" where
  "SchemeGroupVersion kind = \<lparr>Group = ''arete.arete.io'', Version = ''v1alpha1'', Kind = kind\<rparr>"

definition AddToScheme :: "GroupVersionKind list" where
  "AddToScheme = map SchemeGroupVersion (BackupRepository_init @ BackupRepositoryConditional_init)"

text \<open>The kinds registered with the scheme: Go type, shape and \<open>DeepCopyObject\<close>.\<close>

definition registered ::
  "externals \<Rightarrow> (string \<times> shape \<times> (gval \<Rightarrow> heap \<Rightarrow> heap \<times> iface)) list" where
  "registered x = [
     (''BackupRepository'', BackupRepository_shape x, BackupRepository_DeepCopyObject x),
     (''BackupRepositoryList'', BackupRepositoryList_shape x,
      BackupRepositoryList_DeepCopyObject x),
     (''BackupRepositoryConditional'', BackupRepositoryConditional_shape x,
      BackupRepositoryConditional_DeepCopyObject x),
     (''BackupRepositoryConditionalList'', BackupRepositoryConditionalList_shape x,
      BackupRepositoryConditionalList_DeepCopyObject x)]"

lemmas DeepCopy_defs =
  SecretReference_DeepCopy_def
  S3Source_DeepCopy_def
  BackupRepositorySpec_DeepCopy_def
  LatestBackupStatus_DeepCopy_def
  InventoryStatus_DeepCopy_def
  GrowthStatus_DeepCopy_def
  FullRetrievalStatus_DeepCopy_def
  BackupRepositoryStatus_DeepCopy_def
  BackupRepository_DeepCopy_def
  BackupRepositoryList_DeepCopy_def
  BackupRepositoryReference_DeepCopy_def
  KeyedConfigMapReference_DeepCopy_def
  KeyedSecretReference_DeepCopy_def
  ManifestRef_DeepCopy_def
  VariantSpec_DeepCopy_def
  BackupRepositoryConditionalSpec_DeepCopy_def
  AppliedResourceRef_DeepCopy_def
  BackupRepositoryConditionalStatus_DeepCopy_def
  BackupRepositoryConditional_DeepCopy_def
  BackupRepositoryConditionalList_DeepCopy_def

text \<open>
  C19: every generated function is a deep copy of its type. For all twenty structs, applied to a value
  of the declared shape, \<open>DeepCopyInto\<close> and \<open>DeepCopy\<close> write no cell that existed before, return a
  value of the same shape that reads exactly as the original through all pointers, slices and maps
  (nil stays nil), and whose pointers, slices and maps lead only to newly allocated cells. It rests
  on the library's own copy functions being deep copies of their types.
\<close>

theorem deep_copies_correct:
  assumes "externals_ok x"
  shows "\<forall>(s, into, copy)\<in>set (generated x). deep_copy s into \<and> deep_copy (Ptr s) (returned copy)"
  using assms by (simp add: generated_def copies DeepCopy_defs deepCopyPtr_copies)

text \<open>
  What a scheme expects of \<open>DeepCopyObject\<close> on a pointer \<open>p\<close>: the nil interface for nil, otherwise an
  interface of dynamic type \<open>T\<close> that holds a pointer to a new, well-typed cell with the same reading.
\<close>

definition object_copied ::
  "string \<Rightarrow> shape \<Rightarrow> heap \<Rightarrow> gval \<Rightarrow> heap \<times> iface \<Rightarrow> bool" where
  "object_copied T s h p r \<longleftrightarrow>
     (case r of (h', i) \<Rightarrow>
        extends h h' \<and>
        (case i of
           NilInterface \<Rightarrow> p = GNil
         | Interface T' q \<Rightarrow>
             T' = T \<and> p \<noteq> GNil \<and> q \<noteq> GNil \<and> conf h' (Ptr s) q \<and> den h' (Ptr s) q = den h (Ptr s) p
               \<and> (\<forall>a\<in>set (cells h' (Ptr s) q). length h \<le> a)))"

lemma deepCopyObject_typed:
  assumes "deep_copy s c" and "conf h (Ptr s) p"
  shows "object_copied T s h p (deepCopyObject T (deepCopyPtr s c) p h)"
proof -
  obtain h1 w where r: "deepCopyPtr s c p h = (h1, w)"
    by fastforce
  then have "copied (Ptr s) h p (h1, w)"
    using deep_copyD [OF deepCopyPtr_copies [OF assms(1)] assms(2)] by (simp add: returned_def)
  then show ?thesis
    using assms(2) r
    by (auto simp: deepCopyObject_def copied_def object_copied_def split: gval.splits)
qed

text \<open>
  The objects handed to the API machinery are well typed. Every kind added to the scheme has its
  \<open>DeepCopyObject\<close>, and for each of them
  \<open>DeepCopyObject\<close> of a non-nil pointer to a value of the declared shape returns an interface whose
  dynamic type is that kind and which holds a non-nil pointer to a new cell with a value of that
  shape and the same reading; of a nil pointer it returns the nil interface, never an interface
  holding a nil pointer.
\<close>

theorem DeepCopyObject_typed:
  assumes "externals_ok x"
  shows "map Kind AddToScheme = map fst (registered x) \<and>
    (\<forall>(T, s, copy)\<in>set (registered x). \<forall>h p.
       conf h (Ptr s) p \<longrightarrow> object_copied T s h p (copy p h))"
  unfolding registered_def DeepCopy_defs AddToScheme_def SchemeGroupVersion_def
    BackupRepository_init_def BackupRepositoryConditional_init_def
    BackupRepository_DeepCopyObject_def
    BackupRepositoryList_DeepCopyObject_def
    BackupRepositoryConditional_DeepCopyObject_def
    BackupRepositoryConditionalList_DeepCopyObject_def
  using assms by (simp add: deepCopyObject_typed copies del: conf.simps)

text \<open>
  C20: the base of a status patch is a snapshot. \<open>Reconcile\<close>, \<open>patchFailure\<close> and the conditional
  reconciler take \<open>client.MergeFrom(obj.DeepCopy())\<close> before they modify the object. In every later
  heap in which the cells allocated by that copy are intact, whatever was written to the object
  itself and whatever was allocated since, the copy still reads as the object did when it was
  taken; and as long as the older cells are intact, so does the object, whatever is done to the
  copy.
\<close>

theorem patch_base_snapshot:
  assumes "externals_ok x"
    and "(s, copy) \<in> {(BackupRepository_shape x, BackupRepository_DeepCopy x),
      (BackupRepositoryConditional_shape x, BackupRepositoryConditional_DeepCopy x)}"
    and "conf h (Ptr s) obj" and "copy obj h = (h', base)"
  shows "(\<forall>g. (\<forall>a. length h \<le> a \<longrightarrow> a < length h' \<longrightarrow> a < length g \<and> g ! a = h' ! a) \<longrightarrow>
          den g (Ptr s) base = den h (Ptr s) obj)
    \<and> (\<forall>g. extends h g \<longrightarrow> den g (Ptr s) obj = den h (Ptr s) obj)"
proof (rule copied_independent [OF _ assms(3)])
  have "deep_copy (Ptr s) (returned copy)"
    using assms(1,2) by (auto simp: DeepCopy_defs deepCopyPtr_copies copies)
  then show "copied (Ptr s) h obj (h', base)"
    using assms(3,4) deep_copyD by (fastforce simp: returned_def)
qed

section \<open>A concrete library\<close>

text \<open>
  A small instance of the library types with its copy functions, and a repository object in memory
  whose labels, conditions, secrets and claimed backup lie behind references.
\<close>

definition sample_externals :: externals where
  "sample_externals = \<lparr>
     extShape = (\<lambda>t. case t of
         ExtObjectMeta \<Rightarrow> Struct [(''Name'', Basic KString), (''Labels'', StrMap)]
       | ExtListMeta \<Rightarrow> Struct [(''ResourceVersion'', Basic KString)]
       | ExtCondition \<Rightarrow> Struct [(''Type'', Basic KString), (''Status'', Basic KString)]
       | ExtTime \<Rightarrow> Basic KInt
       | ExtQuantity \<Rightarrow> Struct [(''d'', Ptr (Basic KInt))]),
     extInto = (\<lambda>t. case t of
         ExtObjectMeta \<Rightarrow> runs [assign, whenSet ''Labels'' (makeMap rev)]
       | ExtQuantity \<Rightarrow> runs [assign, whenSet ''d'' (newInto (Basic KInt) assign)]
       | _ \<Rightarrow> assign),
     extValue = (\<lambda>t v h. runs [assign, whenSet ''d'' (newInto (Basic KInt) assign)] v (h, v)),
     extPtr = (\<lambda>t. deepCopyPtr (Basic KInt) assign),
     rangeOrder = rev \<rparr>"

lemma sample_externals_ok: "externals_ok sample_externals"
proof -
  let ?q = "Struct [(''d'', Ptr (Basic KInt))]"
  have q: "deep_copy ?q (runs [assign, whenSet ''d'' (newInto (Basic KInt) assign)])"
    by (rule struct_copies [where names = "[''d'']"]) (simp_all add: copies)
  have m: "deep_copy (Struct [(''Name'', Basic KString), (''Labels'', StrMap)])
      (runs [assign, whenSet ''Labels'' (makeMap rev)])"
    by (rule struct_copies [where names = "[''Labels'']"]) (simp_all add: copies)
  have "deep_copy (extShape sample_externals t) (extInto sample_externals t)" for t
    using q m by (cases t) (simp_all add: sample_externals_def copies)
  moreover have "deep_copy (extShape sample_externals ExtQuantity)
      (returned (extValue sample_externals ExtQuantity))"
    using q by (simp add: sample_externals_def deep_copy_def returned_def del: conf.simps)
  moreover have "deep_copy (Ptr (extShape sample_externals ExtTime))
      (returned (extPtr sample_externals ExtTime))"
    by (simp add: sample_externals_def deepCopyPtr_copies copies)
  ultimately show ?thesis
    by (simp add: externals_ok_def sample_externals_def)
qed

definition sample_cells :: heap where
  "sample_cells = [
     GEntries [(''app'', ''db''), (''tier'', ''gold'')],
     GArray [GStruct [(''Type'', GBasic (BString ''Healthy'')), (''Status'', GBasic (BString ''True''))]],
     GBasic (BInt 7),
     zeroOf (BackupRepository_shape sample_externals)]"

text \<open>The zero object of cell 3 with labels, one condition and a probe time put into it.\<close>

definition sample_object :: heap where
  "sample_object =
     (let br = sample_cells ! 3;
          meta = setField (fieldOf br ''ObjectMeta'') ''Labels'' (GRef 0);
          status = setField (setField (fieldOf br ''Status'') ''Conditions'' (GSlice 1 0 1))
                     ''LastProbedAt'' (GRef 2)
      in sample_cells[3 := setField (setField br ''ObjectMeta'' meta) ''Status'' status])"

abbreviation (input) sample_shape :: shape where
  "sample_shape \<equiv> Ptr (BackupRepository_shape sample_externals)"

lemma sample_object_conf: "conf sample_object sample_shape (GRef 3)"
  by code_simp

lemma sample_object_DeepCopy:
  "case BackupRepository_DeepCopy sample_externals (GRef 3) sample_object of
     (h', base) \<Rightarrow> base = GRef 4 \<and> length h' = 8 \<and> length sample_object = 4"
  by code_simp

theorem deep_copies_correct_witness:
  "copied sample_shape sample_object (GRef 3)
     (BackupRepository_DeepCopy sample_externals (GRef 3) sample_object)"
proof -
  have "deep_copy sample_shape (returned (BackupRepository_DeepCopy sample_externals))"
    using deep_copies_correct [OF sample_externals_ok] by (simp add: generated_def)
  from deep_copyD [OF this sample_object_conf] show ?thesis
    by (simp add: returned_def)
qed

theorem DeepCopyObject_typed_witness:
  "object_copied ''BackupRepository'' (BackupRepository_shape sample_externals) sample_object (GRef 3)
     (BackupRepository_DeepCopyObject sample_externals (GRef 3) sample_object)
   \<and> snd (BackupRepository_DeepCopyObject sample_externals GNil sample_object) = NilInterface"
proof
  show "object_copied ''BackupRepository'' (BackupRepository_shape sample_externals) sample_object
      (GRef 3) (BackupRepository_DeepCopyObject sample_externals (GRef 3) sample_object)"
    using DeepCopyObject_typed [OF sample_externals_ok] sample_object_conf
    by (simp add: registered_def del: conf.simps)
qed code_simp

text \<open>Here the object itself, its conditions and its probe time are overwritten after the copy.\<close>

theorem patch_base_snapshot_witness:
  "den ((fst (BackupRepository_DeepCopy sample_externals (GRef 3) sample_object))
      [1 := GArray [], 2 := GBasic (BInt 9), 3 := GNil] @ [GNil]) sample_shape (GRef 4)
   = den sample_object sample_shape (GRef 3)"
proof -
  obtain h' where r: "BackupRepository_DeepCopy sample_externals (GRef 3) sample_object = (h', GRef 4)"
      "length h' = 8" "length sample_object = 4"
    using sample_object_DeepCopy by (auto split: prod.splits)
  let ?g = "h'[1 := GArray [], 2 := GBasic (BInt 9), 3 := GNil] @ [GNil]"
  have "\<forall>a. length sample_object \<le> a \<longrightarrow> a < length h' \<longrightarrow> a < length ?g \<and> ?g ! a = h' ! a"
    using r by (auto simp: nth_append nth_list_update)
  then have "den ?g sample_shape (GRef 4) = den sample_object sample_shape (GRef 3)"
    using patch_base_snapshot [where s = "BackupRepository_shape sample_externals",
        OF sample_externals_ok insertI1 sample_object_conf r(1)]
    by blast
  then show ?thesis
    using r by simp
qed

end
