(* ===== verification/Startup.thy ===== *)
theory Startup
  imports Wiring Deep_Copy
begin

text \<open>
  The program's entry point, \<open>cmd/main.go\<close>: the command line, the options of the webhook and metrics
  servers and of the manager, and the sequence of steps from building the manager to running it, each
  of which ends the process if it fails. The calls into controller-runtime and client-go are
  parameters that only say whether they fail; log lines are left out.
\<close>

section \<open>The command line\<close>

record flags =
  metricsAddr :: string
  probeAddr :: string
  enableLeaderElection :: bool
  secureMetrics :: bool
  webhookCertPath :: string
  webhookCertName :: string
  webhookCertKey :: string
  metricsCertPath :: string
  metricsCertName :: string
  metricsCertKey :: string
  enableHTTP2 :: bool

definition defaultFlags :: flags where
  "defaultFlags =
     \<lparr>metricsAddr = ''0'', probeAddr = '':8081'', enableLeaderElection = False, secureMetrics = True,
      webhookCertPath = [], webhookCertName = ''tls.crt'', webhookCertKey = ''tls.key'',
      metricsCertPath = [], metricsCertName = ''tls.crt'', metricsCertKey = ''tls.key'',
      enableHTTP2 = False\<rparr>"

text \<open>\<open>strconv.ParseBool\<close>, which reads the value of a boolean flag.\<close>

definition ParseBool :: "string \<Rightarrow> bool option" where
  "ParseBool s =
     (if s \<in> set [''1'', ''t'', ''T'', ''TRUE'', ''true'', ''True''] then Some True
      else if s \<in> set [''0'', ''f'', ''F'', ''FALSE'', ''false'', ''False''] then Some False
      else None)"

text \<open>The variables the flags are bound to, by name and type.\<close>

datatype flag_var = StringVar "string \<Rightarrow> flags \<Rightarrow> flags" | BoolVar "bool \<Rightarrow> flags \<Rightarrow> flags"

definition commandLine :: "(string \<times> flag_var) list" where
  "commandLine =
     [(''metrics-bind-address'', StringVar (\<lambda>v fl. fl\<lparr>metricsAddr := v\<rparr>)),
      (''health-probe-bind-address'', StringVar (\<lambda>v fl. fl\<lparr>probeAddr := v\<rparr>)),
      (''leader-elect'', BoolVar (\<lambda>b fl. fl\<lparr>enableLeaderElection := b\<rparr>)),
      (''metrics-secure'', BoolVar (\<lambda>b fl. fl\<lparr>secureMetrics := b\<rparr>)),
      (''webhook-cert-path'', StringVar (\<lambda>v fl. fl\<lparr>webhookCertPath := v\<rparr>)),
      (''webhook-cert-name'', StringVar (\<lambda>v fl. fl\<lparr>webhookCertName := v\<rparr>)),
      (''webhook-cert-key'', StringVar (\<lambda>v fl. fl\<lparr>webhookCertKey := v\<rparr>)),
      (''metrics-cert-path'', StringVar (\<lambda>v fl. fl\<lparr>metricsCertPath := v\<rparr>)),
      (''metrics-cert-name'', StringVar (\<lambda>v fl. fl\<lparr>metricsCertName := v\<rparr>)),
      (''metrics-cert-key'', StringVar (\<lambda>v fl. fl\<lparr>metricsCertKey := v\<rparr>)),
      (''enable-http2'', BoolVar (\<lambda>b fl. fl\<lparr>enableHTTP2 := b\<rparr>))]"

text \<open>
  One setting \<open>-name=value\<close>; a boolean flag without a value has value \<open>true\<close>. Flags that the libraries
  register on the same command line (\<open>zap\<close>, \<open>kubeconfig\<close>) are accepted as \<open>foreign\<close> says. What is not accepted ends
  the process, with code 0 after printing the help for \<open>-h\<close> and \<open>-help\<close>, else with code 2.
\<close>

definition setFlag :: "(string \<times> string \<Rightarrow> bool) \<Rightarrow> flags \<Rightarrow> string \<times> string \<Rightarrow> nat + flags" where
  "setFlag foreign fl setting =
     (case map_of commandLine (fst setting) of
        Some (StringVar put) \<Rightarrow> Inr (put (snd setting) fl)
      | Some (BoolVar put) \<Rightarrow> (case ParseBool (snd setting) of None \<Rightarrow> Inl 2 | Some b \<Rightarrow> Inr (put b fl))
      | None \<Rightarrow>
          if foreign setting then Inr fl
          else if fst setting = ''h'' \<or> fst setting = ''help'' then Inl 0 else Inl 2)"

text \<open>\<open>flag.Parse\<close>: the settings in order up to the first that ends the process.\<close>

fun parseFlags :: "(string \<times> string \<Rightarrow> bool) \<Rightarrow> flags \<Rightarrow> (string \<times> string) list \<Rightarrow> nat + flags" where
  "parseFlags foreign fl [] = Inr fl"
| "parseFlags foreign fl (setting # settings) =
     (case setFlag foreign fl setting of
        Inl code \<Rightarrow> Inl code
      | Inr fl' \<Rightarrow> parseFlags foreign fl' settings)"

section \<open>Server and manager options\<close>

record tls_config =
  NextProtos :: "string list"

definition disableHTTP2 :: "tls_config \<Rightarrow> tls_config" where
  "disableHTTP2 c = c\<lparr>NextProtos := [''http/1.1'']\<rparr>"

definition tlsOpts :: "flags \<Rightarrow> (tls_config \<Rightarrow> tls_config) list" where
  "tlsOpts fl = (if \<not> enableHTTP2 fl then [disableHTTP2] else [])"

record webhook_options =
  wh_TLSOpts :: "(tls_config \<Rightarrow> tls_config) list"
  wh_CertDir :: string
  wh_CertName :: string
  wh_KeyName :: string

definition webhookServerOptions :: "flags \<Rightarrow> webhook_options" where
  "webhookServerOptions fl =
     (let opts = \<lparr>wh_TLSOpts = tlsOpts fl, wh_CertDir = [], wh_CertName = [], wh_KeyName = []\<rparr> in
      if length (webhookCertPath fl) > 0
      then opts\<lparr>wh_CertDir := webhookCertPath fl, wh_CertName := webhookCertName fl,
                wh_KeyName := webhookCertKey fl\<rparr>
      else opts)"

datatype filter_provider = WithAuthenticationAndAuthorization

record metrics_options =
  ms_BindAddress :: string
  ms_SecureServing :: bool
  ms_TLSOpts :: "(tls_config \<Rightarrow> tls_config) list"
  ms_FilterProvider :: "filter_provider option"
  ms_CertDir :: string
  ms_CertName :: string
  ms_KeyName :: string

definition metricsServerOptions :: "flags \<Rightarrow> metrics_options" where
  "metricsServerOptions fl =
     (let opts = \<lparr>ms_BindAddress = metricsAddr fl, ms_SecureServing = secureMetrics fl,
                  ms_TLSOpts = tlsOpts fl, ms_FilterProvider = None,
                  ms_CertDir = [], ms_CertName = [], ms_KeyName = []\<rparr>;
          opts = (if secureMetrics fl
                  then opts\<lparr>ms_FilterProvider := Some WithAuthenticationAndAuthorization\<rparr> else opts)
      in if length (metricsCertPath fl) > 0
         then opts\<lparr>ms_CertDir := metricsCertPath fl, ms_CertName := metricsCertName fl,
                   ms_KeyName := metricsCertKey fl\<rparr>
         else opts)"

record manager_options =
  mo_Scheme :: "GroupVersionKind list"
  mo_Metrics :: metrics_options
  mo_WebhookServer :: webhook_options
  mo_HealthProbeBindAddress :: string
  mo_LeaderElection :: bool
  mo_LeaderElectionID :: string

text \<open>The scheme that \<open>init\<close> builds: the kinds of client-go and those of the API package.\<close>

definition scheme :: "GroupVersionKind list \<Rightarrow> GroupVersionKind list" where
  "scheme clientgoscheme = clientgoscheme @ AddToScheme"

definition managerOptions :: "GroupVersionKind list \<Rightarrow> flags \<Rightarrow> manager_options" where
  "managerOptions clientgoscheme fl =
     \<lparr>mo_Scheme = scheme clientgoscheme, mo_Metrics = metricsServerOptions fl,
      mo_WebhookServer = webhookServerOptions fl, mo_HealthProbeBindAddress = probeAddr fl,
      mo_LeaderElection = enableLeaderElection fl, mo_LeaderElectionID = ''93fbb8c5.arete.io''\<rparr>"

section \<open>The steps of \<open>main\<close>\<close>

datatype startup_action =
    NewManager manager_options
  | NewForConfig
  | SetupRepositoryController ValidatorImages controller
  | SetupConditionalController controller
  | AddHealthzCheck string
  | AddReadyzCheck string
  | StartManager

text \<open>
  The process's surroundings: its environment variables, the kinds of client-go, the flags of the
  libraries, and which of the calls fails.
\<close>

record process =
  Getenv :: "string \<Rightarrow> string"
  clientgo_scheme :: "GroupVersionKind list"
  foreign_flag :: "string \<times> string \<Rightarrow> bool"
  fails :: "startup_action \<Rightarrow> bool"

definition validatorImages :: "process \<Rightarrow> ValidatorImages" where
  "validatorImages P =
     \<lparr>Walg = Getenv P ''ARETE_VALIDATOR_WALG_IMAGE'', Restic = Getenv P ''ARETE_VALIDATOR_RESTIC_IMAGE''\<rparr>"

text \<open>\<open>if err := step; err != nil { ...; os.Exit(1) }\<close> and the rest of the function.\<close>

definition orExit ::
  "process \<Rightarrow> startup_action \<Rightarrow> startup_action list \<times> nat \<Rightarrow> startup_action list \<times> nat" where
  "orExit P a rest = (if fails P a then ([a], 1) else (a # fst rest, snd rest))"

text \<open>The actions taken and the exit code.\<close>

definition main ::
  "process \<Rightarrow> controller_runtime \<Rightarrow> kube \<Rightarrow> conditional_client \<Rightarrow> (string \<times> string) list \<Rightarrow>
   startup_action list \<times> nat" where
  "main P R K C args =
     (case parseFlags (foreign_flag P) defaultFlags args of
        Inl code \<Rightarrow> ([], code)
      | Inr fl \<Rightarrow>
          orExit P (NewManager (managerOptions (clientgo_scheme P) fl))
            (orExit P NewForConfig
              (orExit P (SetupRepositoryController (validatorImages P) (BackupRepository_SetupWithManager R K))
                (orExit P (SetupConditionalController (BackupRepositoryConditional_SetupWithManager R C))
                  (orExit P (AddHealthzCheck ''healthz'')
                    (orExit P (AddReadyzCheck ''readyz'')
                      (orExit P StartManager ([], 0))))))))"

section \<open>What the process serves\<close>

text \<open>A flag's variable is written only under the flag's own name.\<close>

lemma setFlag_frame:
  assumes "setFlag foreign fl s = Inr fl'"
  shows "fst s \<noteq> ''enable-http2'' \<Longrightarrow> enableHTTP2 fl' = enableHTTP2 fl"
    and "fst s \<noteq> ''metrics-secure'' \<Longrightarrow> secureMetrics fl' = secureMetrics fl"
    and "fst s \<noteq> ''metrics-bind-address'' \<Longrightarrow> metricsAddr fl' = metricsAddr fl"
proof -
  have "(fst s \<noteq> ''enable-http2'' \<longrightarrow> enableHTTP2 fl' = enableHTTP2 fl)
    \<and> (fst s \<noteq> ''metrics-secure'' \<longrightarrow> secureMetrics fl' = secureMetrics fl)
    \<and> (fst s \<noteq> ''metrics-bind-address'' \<longrightarrow> metricsAddr fl' = metricsAddr fl)"
  proof (cases "map_of commandLine (fst s)")
    case (Some v)
    then have "(fst s, v) \<in> set commandLine"
      by (rule map_of_SomeD)
    with assms Some show ?thesis
      by (auto simp: setFlag_def commandLine_def split: option.splits)
  qed (use assms in \<open>auto simp: setFlag_def split: if_splits\<close>)
  then show "fst s \<noteq> ''enable-http2'' \<Longrightarrow> enableHTTP2 fl' = enableHTTP2 fl"
    and "fst s \<noteq> ''metrics-secure'' \<Longrightarrow> secureMetrics fl' = secureMetrics fl"
    and "fst s \<noteq> ''metrics-bind-address'' \<Longrightarrow> metricsAddr fl' = metricsAddr fl"
    by (iprover)+
qed

lemma parseFlags_keeps:
  assumes "\<And>fl s fl'. setFlag foreign fl s = Inr fl' \<Longrightarrow> fst s \<noteq> name \<Longrightarrow> var fl' = var fl"
    and "parseFlags foreign fl args = Inr fl'" and "name \<notin> fst ` set args"
  shows "var fl' = var fl"
  using assms(2,3)
proof (induction args arbitrary: fl)
  case (Cons s args)
  then show ?case
    using assms(1) [of fl s] by (auto split: sum.splits)
qed simp

lemmas parseFlags_frame =
  parseFlags_keeps [where var = enableHTTP2, OF setFlag_frame(1)]
  parseFlags_keeps [where var = secureMetrics, OF setFlag_frame(2)]
  parseFlags_keeps [where var = metricsAddr, OF setFlag_frame(3)]

text \<open>What applying all options of a server does to its TLS configuration.\<close>

definition served :: "(tls_config \<Rightarrow> tls_config) list \<Rightarrow> tls_config \<Rightarrow> tls_config" where
  "served opts c = fold (\<lambda>opt c. opt c) opts c"

text \<open>
  What the servers offer. Whatever the command line, both servers get the same TLS options, and
  their TLS configuration offers only HTTP/1.1 unless HTTP/2 was enabled; the metrics endpoint asks
  for authentication and authorization exactly when it is served over HTTPS. HTTP/2 is off, the
  metrics endpoint secure and unbound unless their own flags say otherwise.
\<close>

theorem serving_options:
  assumes "parseFlags foreign defaultFlags args = Inr fl"
  shows "(\<forall>opts\<in>{wh_TLSOpts (webhookServerOptions fl), ms_TLSOpts (metricsServerOptions fl)}.
        \<forall>c. NextProtos (served opts c) = (if enableHTTP2 fl then NextProtos c else [''http/1.1'']))
    \<and> (ms_FilterProvider (metricsServerOptions fl) = Some WithAuthenticationAndAuthorization \<longleftrightarrow>
        ms_SecureServing (metricsServerOptions fl))
    \<and> (''enable-http2'' \<notin> fst ` set args \<longrightarrow> \<not> enableHTTP2 fl)
    \<and> (''metrics-secure'' \<notin> fst ` set args \<longrightarrow> ms_SecureServing (metricsServerOptions fl))
    \<and> (''metrics-bind-address'' \<notin> fst ` set args \<longrightarrow> ms_BindAddress (metricsServerOptions fl) = ''0'')"
proof -
  have "wh_TLSOpts (webhookServerOptions fl) = tlsOpts fl" "ms_TLSOpts (metricsServerOptions fl) = tlsOpts fl"
    "ms_SecureServing (metricsServerOptions fl) = secureMetrics fl"
    "ms_BindAddress (metricsServerOptions fl) = metricsAddr fl"
    "ms_FilterProvider (metricsServerOptions fl) =
       (if secureMetrics fl then Some WithAuthenticationAndAuthorization else None)"
    by (simp_all add: webhookServerOptions_def metricsServerOptions_def Let_def)
  moreover have "NextProtos (served (tlsOpts fl) c) =
      (if enableHTTP2 fl then NextProtos c else [''http/1.1''])" for c
    by (simp add: served_def tlsOpts_def disableHTTP2_def)
  ultimately show ?thesis
    using parseFlags_frame(1) [OF _ _ assms] parseFlags_frame(2) [OF _ _ assms]
      parseFlags_frame(3) [OF _ _ assms]
    by (simp add: defaultFlags_def)
qed

section \<open>A running manager\<close>

lemma main_takes_start:
  assumes "StartManager \<in> set (fst (main P R K C args))"
  obtains fl where "parseFlags (foreign_flag P) defaultFlags args = Inr fl"
    "fst (main P R K C args) =
       [NewManager (managerOptions (clientgo_scheme P) fl), NewForConfig,
        SetupRepositoryController (validatorImages P) (BackupRepository_SetupWithManager R K),
        SetupConditionalController (BackupRepositoryConditional_SetupWithManager R C),
        AddHealthzCheck ''healthz'', AddReadyzCheck ''readyz'', StartManager]"
proof (cases "parseFlags (foreign_flag P) defaultFlags args")
  case (Inr fl)
  with assms show thesis
    by (intro that [of fl]) (auto simp: main_def orExit_def split: if_splits)
qed (use assms in \<open>simp add: main_def\<close>)

text \<open>
  C22: what a running operator is like. If \<open>main\<close> starts the manager, both controllers have been set up, with the
  validator images of the environment and all their watches. The webhook and the metrics server offer only HTTP/1.1 unless the command
  line sets \<open>enable-http2\<close>; the metrics endpoint asks for authentication and authorization exactly if it is
  served over HTTPS, which it is unless the command line sets \<open>metrics-secure\<close>; it is not served at all unless it sets
  \<open>metrics-bind-address\<close>; and the manager's scheme knows the program's own kinds.
\<close>

theorem running_manager:
  assumes "StartManager \<in> set (fst (main P R K C args))"
  shows "\<exists>opts. NewManager opts \<in> set (fst (main P R K C args)) \<and>
    SetupRepositoryController
      \<lparr>Walg = Getenv P ''ARETE_VALIDATOR_WALG_IMAGE'', Restic = Getenv P ''ARETE_VALIDATOR_RESTIC_IMAGE''\<rparr>
      (BackupRepository_SetupWithManager R K) \<in> set (fst (main P R K C args)) \<and>
    SetupConditionalController (BackupRepositoryConditional_SetupWithManager R C) \<in> set (fst (main P R K C args)) \<and>
    (''enable-http2'' \<in> fst ` set args \<or>
      (\<forall>c. NextProtos (served (wh_TLSOpts (mo_WebhookServer opts)) c) = [''http/1.1''] \<and>
         NextProtos (served (ms_TLSOpts (mo_Metrics opts)) c) = [''http/1.1''])) \<and>
    (ms_FilterProvider (mo_Metrics opts) = Some WithAuthenticationAndAuthorization \<longleftrightarrow> ms_SecureServing (mo_Metrics opts)) \<and>
    (''metrics-secure'' \<in> fst ` set args \<or> ms_SecureServing (mo_Metrics opts)) \<and>
    (''metrics-bind-address'' \<in> fst ` set args \<or> ms_BindAddress (mo_Metrics opts) = ''0'') \<and>
    set AddToScheme \<subseteq> set (mo_Scheme opts)"
proof -
  obtain fl where fl: "parseFlags (foreign_flag P) defaultFlags args = Inr fl"
    and acts: "fst (main P R K C args) =
       [NewManager (managerOptions (clientgo_scheme P) fl), NewForConfig,
        SetupRepositoryController (validatorImages P) (BackupRepository_SetupWithManager R K),
        SetupConditionalController (BackupRepositoryConditional_SetupWithManager R C),
        AddHealthzCheck ''healthz'', AddReadyzCheck ''readyz'', StartManager]"
    by (rule main_takes_start [OF assms])
  have opts: "mo_Metrics (managerOptions (clientgo_scheme P) fl) = metricsServerOptions fl"
    "mo_WebhookServer (managerOptions (clientgo_scheme P) fl) = webhookServerOptions fl"
    "set AddToScheme \<subseteq> set (mo_Scheme (managerOptions (clientgo_scheme P) fl))"
    by (auto simp: managerOptions_def scheme_def)
  have "NextProtos (served (wh_TLSOpts (webhookServerOptions fl)) c) = [''http/1.1'']"
    "NextProtos (served (ms_TLSOpts (metricsServerOptions fl)) c) = [''http/1.1'']"
    if "''enable-http2'' \<notin> fst ` set args" for c
    using serving_options [OF fl] that by auto
  then show ?thesis
    unfolding acts using opts serving_options [OF fl]
    by (intro exI [of _ "managerOptions (clientgo_scheme P) fl"]) (auto simp: validatorImages_def)
qed

text \<open>A start with an HTTP metrics endpoint.\<close>

definition sample_process :: process where
  "sample_process = \<lparr>Getenv = (\<lambda>v. ''registry/'' @ v), clientgo_scheme = [],
     foreign_flag = (\<lambda>s. fst s = ''kubeconfig''), fails = (\<lambda>a. False)\<rparr>"

definition sample_args :: "(string \<times> string) list" where
  "sample_args = [(''metrics-secure'', ''false''), (''kubeconfig'', ''/tmp/k''),
     (''metrics-bind-address'', '':8080'')]"

lemma sample_args_parsed:
  "parseFlags (foreign_flag sample_process) defaultFlags sample_args =
     Inr (defaultFlags\<lparr>secureMetrics := False, metricsAddr := '':8080''\<rparr>)"
  by (simp add: sample_args_def sample_process_def setFlag_def commandLine_def ParseBool_def)

theorem serving_options_witness:
  "NextProtos (served (ms_TLSOpts (metricsServerOptions
      (defaultFlags\<lparr>secureMetrics := False, metricsAddr := '':8080''\<rparr>))) \<lparr>NextProtos = [''h2'']\<rparr>) =
    [''http/1.1'']"
  using serving_options [OF sample_args_parsed] by (simp add: sample_args_def)

theorem running_manager_witness:
  "\<exists>opts. NewManager opts \<in>
       set (fst (main sample_process sample_runtime sample_kube sample_conditional_client sample_args)) \<and>
     NextProtos (served (wh_TLSOpts (mo_WebhookServer opts)) \<lparr>NextProtos = [''h2'']\<rparr>) = [''http/1.1'']"
proof -
  have "StartManager \<in> set (fst (main sample_process sample_runtime sample_kube sample_conditional_client sample_args))"
    by (simp add: main_def sample_args_parsed orExit_def) (simp add: sample_process_def)
  from running_manager [OF this] show ?thesis
    by (auto simp: sample_args_def)
qed

end
