(* ===== verification/Metrics.thy ===== *)
theory Metrics
  imports Reconciler
begin

text \<open>
  The metric vectors of \<open>internal/metrics/metrics.go\<close> and their registration, against the values the
  reconciler publishes: \<open>WithLabelValues\<close> panics if the number of values differs from the number of
  labels the vector was declared with, and \<open>MustRegister\<close> if two vectors have one name.
\<close>

section \<open>The vectors\<close>

text \<open>Buckets are kept as the arguments of \<open>prometheus.ExponentialBuckets\<close>.\<close>

datatype vec_type = CounterVec | HistogramVec int int nat | GaugeVec

record metric_vec =
  mv_Type :: vec_type
  mv_Name :: string
  mv_Labels :: "string list"

definition ValidationRunsTotal_vec :: metric_vec where
  "ValidationRunsTotal_vec =
     \<lparr>mv_Type = CounterVec, mv_Name = ValidationRunsTotal,
      mv_Labels = [''br'', ''format'', ''level'', ''result'']\<rparr>"

definition ValidationDurationSeconds_vec :: metric_vec where
  "ValidationDurationSeconds_vec =
     \<lparr>mv_Type = HistogramVec 1 2 12, mv_Name = ValidationDurationSeconds,
      mv_Labels = [''br'', ''format'', ''level'']\<rparr>"

definition E4ThroughputBPS_vec :: metric_vec where
  "E4ThroughputBPS_vec = \<lparr>mv_Type = GaugeVec, mv_Name = E4ThroughputBPS, mv_Labels = [''br'', ''format'']\<rparr>"

definition E4BytesTransferred_vec :: metric_vec where
  "E4BytesTransferred_vec =
     \<lparr>mv_Type = GaugeVec, mv_Name = E4BytesTransferred, mv_Labels = [''br'', ''format'']\<rparr>"

definition BackupAgeSeconds_vec :: metric_vec where
  "BackupAgeSeconds_vec = \<lparr>mv_Type = GaugeVec, mv_Name = BackupAgeSeconds, mv_Labels = [''br'', ''format'']\<rparr>"

definition InventoryObjects_vec :: metric_vec where
  "InventoryObjects_vec = \<lparr>mv_Type = GaugeVec, mv_Name = InventoryObjects, mv_Labels = [''br'', ''format'']\<rparr>"

definition InventoryBytes_vec :: metric_vec where
  "InventoryBytes_vec = \<lparr>mv_Type = GaugeVec, mv_Name = InventoryBytes, mv_Labels = [''br'', ''format'']\<rparr>"

definition ConditionState_vec :: metric_vec where
  "ConditionState_vec =
     \<lparr>mv_Type = GaugeVec, mv_Name = ConditionState, mv_Labels = [''br'', ''format'', ''condition'']\<rparr>"

text \<open>The vectors \<open>init\<close> registers.\<close>

definition Registry :: "metric_vec list" where
  "Registry =
     [ValidationRunsTotal_vec, ValidationDurationSeconds_vec, E4ThroughputBPS_vec, E4BytesTransferred_vec,
      BackupAgeSeconds_vec, InventoryObjects_vec, InventoryBytes_vec, ConditionState_vec]"

lemmas vec_defs =
  ValidationRunsTotal_vec_def ValidationDurationSeconds_vec_def E4ThroughputBPS_vec_def
  E4BytesTransferred_vec_def BackupAgeSeconds_vec_def InventoryObjects_vec_def InventoryBytes_vec_def
  ConditionState_vec_def

section \<open>Well-typed observations\<close>

fun is_histogram :: "vec_type \<Rightarrow> bool" where
  "is_histogram (HistogramVec lo factor n) = True"
| "is_histogram _ = False"

text \<open>
  An observation fits when a registered vector of its name and kind has as many labels as there are
  label values. Effects that are not observations fit trivially.
\<close>

definition fits_in :: "(vec_type \<Rightarrow> bool) \<Rightarrow> string \<Rightarrow> string list \<Rightarrow> bool" where
  "fits_in kind name values \<longleftrightarrow>
     (\<exists>v\<in>set Registry. mv_Name v = name \<and> kind (mv_Type v) \<and> length (mv_Labels v) = length values)"

fun fits :: "effect \<Rightarrow> bool" where
  "fits (CounterInc name values) = fits_in (\<lambda>t. t = CounterVec) name values"
| "fits (HistogramObserve name values d) = fits_in is_histogram name values"
| "fits (GaugeSet name values g) = fits_in (\<lambda>t. t = GaugeVec) name values"
| "fits _ = True"

lemma vec_fits:
  "v \<in> set Registry \<Longrightarrow> kind (mv_Type v) \<Longrightarrow> length (mv_Labels v) = length values \<Longrightarrow>
   fits_in kind (mv_Name v) values"
  by (auto simp: fits_in_def)

lemma registered_fits:
  "fits (CounterInc ValidationRunsTotal [b, f, l, r])"
  "fits (HistogramObserve ValidationDurationSeconds [b, f, l] d)"
  "fits (GaugeSet E4ThroughputBPS [b, f] g)" "fits (GaugeSet E4BytesTransferred [b, f] g)"
  "fits (GaugeSet BackupAgeSeconds [b, f] g)" "fits (GaugeSet InventoryObjects [b, f] g)"
  "fits (GaugeSet InventoryBytes [b, f] g)" "fits (GaugeSet ConditionState [b, f, c] g)"
  by (simp_all add: fits_in_def Registry_def vec_defs)

lemma recordValidationRun_fits: "list_all fits (recordValidationRun br l j)"
  unfolding recordValidationRun_def Let_def
  by (simp only: list.pred_inject registered_fits split: option.split if_split) simp

lemma publishMetrics_fits: "list_all fits (publishMetrics D now br)"
proof -
  have cs: "list_all fits (map (\<lambda>c. GaugeSet ConditionState ([b, f] @ [cType c]) (g c)) cs)" for b f g cs
    by (induction cs) (simp_all only: list.pred_inject list.map append.simps registered_fits simp_thms)
  then show ?thesis
    unfolding publishMetrics_def Let_def
    by (simp only: list_all_append list.pred_inject registered_fits cs simp_thms split: option.split)
qed

lemma Reconcile_fits:
  assumes "Reconcile D VI K clk req seen = Ret (seen', effs, res)"
  shows "list_all fits effs"
  using assms
proof (cases rule: Reconcile_cases)
  case (failed br err)
  then show ?thesis
    by (auto simp: recordCredentialsFailure_def Let_def)
next
  case (ran br creds)
  have le: "levelEffects fits"
    by (simp add: levelEffects_def recordValidationRun_fits)
  from ran(3) show ?thesis
  proof (cases rule: validateAndPublish_cases)
    case (1 levels e2 e3 e4 br' b)
    have "list_all fits levels"
      using runLevels_effects [OF le 1(1)] by auto
    then show ?thesis
      using 1 publishMetrics_fits by (auto split: sum.splits)
  qed
qed auto

text \<open>
  C21: no metrics call panics. The registered names are distinct, and every counter, histogram and
  gauge value a reconcile publishes goes to a registered vector of that kind with exactly as many
  label values as the vector declares labels.
\<close>

theorem metrics_well_typed:
  assumes "Reconcile D VI K clk req seen = Ret (seen', effs, res)"
  shows "distinct (map mv_Name Registry) \<and> (\<forall>e\<in>set effs. fits e)"
proof
  show "distinct (map mv_Name Registry)"
    by code_simp
  show "\<forall>e\<in>set effs. fits e"
    using Reconcile_fits [OF assms] by (simp add: list_all_iff)
qed

theorem metrics_well_typed_witness:
  "\<exists>seen' effs res. sample_run = Ret (seen', effs, res) \<and> effs \<noteq> [] \<and> list_all fits effs"
proof -
  obtain seen' effs res where r: "sample_run = Ret (seen', effs, res)"
      "length (acceptedJobs (sample_kube_br sample_br) effs) = 1"
    using sample_run_returns by blast
  have "\<forall>e\<in>set effs. fits e"
    using metrics_well_typed r(1) unfolding sample_run_def by blast
  moreover have "effs \<noteq> []"
    using r(2) by (auto simp: acceptedJobs_def)
  ultimately show ?thesis
    using r(1) by (intro exI conjI) (simp_all add: list_all_iff)
qed

end
