(* ===== verification/Spec2Isabelle.thy ===== *)
theory Spec2Isabelle
  imports Cluster Convergence Startup Metrics
begin

text \<open>
  \<^bold>\<open>A verification library for the arete operator.\<close>

  Arete checks backups. For every \<^verbatim>\<open>BackupRepository\<close> it probes the S3 bucket in process (level E1) and runs
  validator Jobs of increasing depth: metadata (E2), sampled retrieval (E3) and full retrieval (E4). It publishes its
  findings as status conditions, rolled up into ProbeHealthy, ValidationHealthy and Healthy. A second
  controller watches a repository and, for a \<^verbatim>\<open>BackupRepositoryConditional\<close>, applies one of three
  manifests depending on whether the repository is healthy, empty or degraded.

  \<^bold>\<open>Parts and theories\<close>, in the order of import; file names are relative to \<^verbatim>\<open>src/\<close>.

  \<^item> \<^verbatim>\<open>Prelude\<close>, \<^verbatim>\<open>Go_Strings\<close>, \<^verbatim>\<open>Go_Time\<close>: what the code uses of Go and its standard library. Outcomes that may be a
    panic, 64-bit integers with wrap-around and saturation, the functions of \<^verbatim>\<open>strings\<close> and \<^verbatim>\<open>strconv\<close> on byte
    strings, instants and durations in nanoseconds, layouts of \<^verbatim>\<open>time.Parse\<close>. The prelude also holds the locales
    \<^verbatim>\<open>machine_invariant\<close> and \<^verbatim>\<open>watched_store\<close>.
  \<^item> \<^verbatim>\<open>Arete_Types\<close>: the API types of \<^verbatim>\<open>api/v1alpha1\<close>, condition types and reasons. Structs are records, pointers
    options, maps their entry lists.
  \<^item> \<^verbatim>\<open>Environment\<close>, \<^verbatim>\<open>Sample_Environment\<close>: the objects exchanged with code outside the repository and its operations
    (apimachinery, the API server, minio-go, sorting, hashing, decoding) as records \<^verbatim>\<open>deps\<close>, \<^verbatim>\<open>s3client\<close>, \<^verbatim>\<open>kube\<close> that
    every definition takes as arguments; the laws the program relies on as predicates (\<^verbatim>\<open>conditions_ok\<close>, \<^verbatim>\<open>sorts\<close>,
    \<^verbatim>\<open>hash_ok\<close>, \<^verbatim>\<open>shuffles\<close>, \<^verbatim>\<open>quantity_ok\<close>); and one executable instance that satisfies them, on which witnesses run.
  \<^item> \<^verbatim>\<open>Conditions\<close> (\<^verbatim>\<open>internal/controller/backuprepository_controller.go\<close>, from \<^verbatim>\<open>conditionInputs\<close> on): the condition
    calculus. The rollup is the conjunction of three-valued statuses, and Healthy is strict.
  \<^item> \<^verbatim>\<open>Jobs\<close>, \<^verbatim>\<open>Validators\<close> (\<^verbatim>\<open>e2_job.go\<close>, \<^verbatim>\<open>e3_job.go\<close>, \<^verbatim>\<open>e4_job.go\<close>): bookkeeping of Jobs, their command lines,
    environments and security contexts, sampling of WAL segments, and the spawn functions, which meet the contract
    \<^verbatim>\<open>job_spawner\<close>.
  \<^item> \<^verbatim>\<open>Output_Parsing\<close> (\<^verbatim>\<open>e2_output.go\<close>, \<^verbatim>\<open>parseE4Stats\<close>): finding results in validator logs.
  \<^item> \<^verbatim>\<open>Probe\<close> (\<^verbatim>\<open>s3_probe.go\<close>): reachability, bucket security, inventory, and the newest backup of each format.
  \<^item> \<^verbatim>\<open>Force\<close>: the two force annotations, instances of the contract \<^verbatim>\<open>force_annotation\<close>.
  \<^item> \<^verbatim>\<open>Levels\<close>: the Job life cycle of E2, E3 and E4 (\<^verbatim>\<open>processE2\<close> and so on), instances of the contract
    \<^verbatim>\<open>validation_level\<close>.
  \<^item> \<^verbatim>\<open>Reconciler\<close>: \<^verbatim>\<open>Reconcile\<close> of a repository, from the credentials and their tolerance window over the levels to the
    status patch and the metrics (\<^verbatim>\<open>internal/metrics/metrics.go\<close>), and its event filters. The state kept between calls
    is the map \<^verbatim>\<open>credsTransient\<close>; everything else a reconcile changes is in the effect list it returns.
  \<^item> \<^verbatim>\<open>Conditional\<close> (\<^verbatim>\<open>backuprepositoryconditional_controller.go\<close>): the second controller, and the decision table it
    refines.
  \<^item> \<^verbatim>\<open>Watches\<close>: the event handlers of both controllers against what the reconciles read.
  \<^item> \<^verbatim>\<open>Wiring\<close> (both \<^verbatim>\<open>SetupWithManager\<close>): the watches and predicates the controllers register, the requests an event of a
    watched object leads to, and the events of a reconcile's own writes.
  \<^item> \<^verbatim>\<open>Metrics\<close> (\<^verbatim>\<open>internal/metrics/metrics.go\<close>): the metric vectors, their registration, and the observations of a
    reconcile as well-typed uses of them.
  \<^item> \<^verbatim>\<open>Lifecycle\<close>: both controllers as a state machine with edits, restarts and lost patches. Its parameter \<^verbatim>\<open>lag\<close> says
    whether a repository's reconcile may read an old version, in which case its merge patch mixes two versions.
  \<^item> \<^verbatim>\<open>Progress\<close>: what a reconcile is bound to do, and corners where code and comments disagree.
  \<^item> \<^verbatim>\<open>Schedule\<close>: which level a reconcile starts when nothing stands in its way.
  \<^item> \<^verbatim>\<open>Cluster\<close>: the Jobs in the API server as a state machine, with reconciles of any repositories, Jobs that run,
    finish and vanish, an operator that may be killed after any call, and lists that are current or not; the round from
    a due validation to its published verdict.
  \<^item> \<^verbatim>\<open>Convergence\<close>: a cycle in which nothing has happened repeats the status of the last one.
  \<^item> \<^verbatim>\<open>Verdict\<close>: the exact conditions on the probe and the level results under which Healthy is published, and the
    way from there to the child of the other controller.
  \<^item> \<^verbatim>\<open>Go_Heap\<close>, \<^verbatim>\<open>Deep_Copy\<close> (\<^verbatim>\<open>api/v1alpha1/zz_generated.deepcopy.go\<close>, \<^verbatim>\<open>groupversion_info.go\<close>): memory cells behind
    pointers, slices and maps, the contract of a deep copy with its frame lemmas, one combinator per statement form of
    the generated code, and all twenty structs with their generated functions; the kinds added to a scheme.
  \<^item> \<^verbatim>\<open>Startup\<close> (\<^verbatim>\<open>cmd/main.go\<close>): command line, server and manager options, and the steps from the manager's construction
    to its start.

  \<^bold>\<open>What is shown.\<close> Safety of one reconcile: at most one new Job, levels never overlap and run in
  order, every Job is hardened, no panic when the sample size accompanies its interval; over any number of reconciles,
  at most one Job of a level is in flight. Meaning of the status: Healthy is published exactly when the repository was
  reached, secure and fresh and every result the spec asks for stands; recorded times are backed by results;
  credential failures keep the recorded times and the results of the levels that are switched on. The probe and the
  parsers equal their specifications, and a JSON document is found in a log whatever surrounds it. The conditional
  implements its table, applies only children its repository's state entitles it to, and over any run a decision for
  the healthy variant goes back to a run that vouched for the repository. Progress: the first due level starts, a
  due validation gets its Job and later its verdict, a finished retrieval is recorded, a quiet cycle repeats the status, a verdict Healthy makes the
  conditional apply its child, relevant changes are noticed, and a reconcile's own status write does not wake it
  again. The generated copies are deep copies, so the base of a status patch is a snapshot. Observations fit the
  registered metrics, and the manager runs only when both controllers are set up. Over the life of a repository
  statuses stay sound as long as its reconciles read the newest version; however far they lag, a published Healthy
  still agrees with its sub-conditions and goes back to a run that vouched for it. Five properties state defects:
  levels that are sequenced in one direction only, a validation run twice, a failed full retrieval without trace, a
  forced one without record, and a validation result lost to a stale read; a lemma beside them states a panic without
  sample size. Others state where the code does less than its comments say: a force annotation with a fraction of a
  second that stays live, a security check that passes whatever the bucket's reply says, and conditions that a credential
  failure removes.

  \<^bold>\<open>Modelling decisions.\<close> The answers of the API server and of S3 are arbitrary functions of the request and differ between
  reconciles. Every reading of the clock is an input of its own. Where the code overwrites an object with a
  server's answer, the model continues with that answer. A status is stored with whole seconds in its times
  (\<^verbatim>\<open>on_wire\<close>), as \<^verbatim>\<open>metav1.Time\<close> is in JSON; within a cycle times are exact. Strings are byte strings. Functions
  are total, with termination proved where recursion is not structural; there is no fuel. A panic is a value, and
  only functions that can panic return the type of outcomes. API objects are immutable records everywhere but in
  \<^verbatim>\<open>Deep_Copy\<close>, whose heap shows why that is right for the object a patch is computed from. A merge patch is modelled by
  the fields it changes; of a field that is itself an object only the case in which it is changed as a whole or not
  at all is fixed. Conditions carry the transition time that \<^verbatim>\<open>SetStatusCondition\<close> writes, about which nothing is
  claimed.

  \<^bold>\<open>Not modelled.\<close> Log messages; deadlines of contexts, which show up as errors of the calls they cut short; the help texts
  of flags and metrics; controller-runtime, client-go and the Prometheus client, whose documented behaviour is a parameter;
  the shell scripts inside the validator pods, whose text is
  modelled but not their execution; YAML and JSON decoding of a single document, which are parameters.
\<close>

end
